(* ===== verification/Prelude.thy ===== *)
theory Prelude
  imports Complex_Main "HOL-Library.Multiset"
begin

text \<open>
  Shared vocabulary of the development: Python values (JSON data, exceptions, floats), the
  database session of \<^verbatim>\<open>core/database.py\<close>, the HTTP boundary between services, and the generic
  facts on lists and runs that the component theories use.

  Conventions.
  \<^item> A handler takes the state of its service and returns the outcome together with the new
    state; an outcome is \<open>Inl e\<close> when the Python code raises \<open>e\<close> and \<open>Inr v\<close> when it returns \<open>v\<close>.
  \<^item> Everything nondeterministic is an argument: the clock, \<^verbatim>\<open>uuid.uuid4()\<close> and \<^verbatim>\<open>random.random()\<close>
    are the fields of a \<open>call_env\<close> handed to each call.
  \<^item> Python floats are rationals: comparison, negation and addition are exact, so what depends
    on binary rounding, infinities or NaN is outside the model.
\<close>

section \<open>Theorem collections\<close>

named_theorems service_defs \<open>the handlers of the services, unfolded for branch-by-branch proofs\<close>
named_theorems frame_simps \<open>what an operation leaves unchanged\<close>

section \<open>Python values\<close>

type_synonym time = rat

record call_env =
  env_uuid :: string    \<comment> \<open>the hex digits taken from \<^verbatim>\<open>uuid.uuid4()\<close> by this call\<close>
  env_random :: rat     \<comment> \<open>the next draw of \<^verbatim>\<open>random.random()\<close>, in \<open>[0, 1)\<close>\<close>
  env_now :: time       \<comment> \<open>the reading of \<^verbatim>\<open>datetime.now(UTC)\<close>\<close>

datatype py_exn =
    HTTPException nat string
  | IntegrityError
  | KeyError string
  | TypeError string
  | AttributeError string
  | ValueError string
  | ConnectionError string
  | TransportError string
  | RuntimeError string
  | CircuitBreakerOpenException string
  | HTTPStatusError nat
  | ExpiredSignatureError
  | InvalidTokenError string
  | DeliverIQException string nat string    \<comment> \<open>title, status code and detail\<close>

text \<open>\<^verbatim>\<open>str(n)\<close> of a natural number.\<close>

fun nat_str :: "nat \<Rightarrow> string" where
  "nat_str n = (if n < 10 then [char_of (48 + n)] else nat_str (n div 10) @ [char_of (48 + n mod 10)])"

declare nat_str.simps [simp del]

text \<open>\<^verbatim>\<open>p in s\<close> for strings.\<close>

fun py_in :: "string \<Rightarrow> string \<Rightarrow> bool" where
  "py_in p [] = (p = [])"
| "py_in p (c # cs) = (take (length p) (c # cs) = p \<or> py_in p cs)"

lemma py_in_iff: "py_in p s \<longleftrightarrow> (\<exists>xs ys. s = xs @ p @ ys)"
proof (induction s)
  case (Cons c cs)
  have "take (length p) (c # cs) = p \<longleftrightarrow> (\<exists>ys. c # cs = p @ ys)" by (metis append_eq_conv_conj)
  moreover have "(\<exists>xs ys. c # cs = xs @ p @ ys) \<longleftrightarrow> (\<exists>ys. c # cs = p @ ys) \<or> (\<exists>xs ys. cs = xs @ p @ ys)"
    by (metis append_Cons append_Nil list.inject neq_Nil_conv)
  ultimately show ?case using Cons.IH by simp
qed auto

lemma py_in_trans: "py_in p s \<Longrightarrow> py_in s t \<Longrightarrow> py_in p t"
  unfolding py_in_iff by (metis append_assoc)

text \<open>\<^verbatim>\<open>str(e)\<close> of an exception.\<close>

fun exn_str :: "py_exn \<Rightarrow> string" where
  "exn_str (HTTPException c d) = d"
| "exn_str IntegrityError = ''UNIQUE constraint failed''"
| "exn_str (KeyError k) = k"
| "exn_str (TypeError m) = m"
| "exn_str (AttributeError m) = m"
| "exn_str (ValueError m) = m"
| "exn_str (ConnectionError m) = m"
| "exn_str (TransportError m) = m"
| "exn_str (RuntimeError m) = m"
| "exn_str (CircuitBreakerOpenException m) = m"
| "exn_str (HTTPStatusError c) = nat_str c"
| "exn_str ExpiredSignatureError = ''Signature has expired''"
| "exn_str (InvalidTokenError m) = m"
| "exn_str (DeliverIQException t c d) = d"

type_synonym 'a outcome = "py_exn + 'a"

datatype json =
    JNull
  | JBool bool
  | JInt int
  | JFloat rat
  | JStr string
  | JList "json list"
  | JDict "(string \<times> json) list"

type_synonym json_dict = "(string \<times> json) list"

text \<open>\<^verbatim>\<open>bool(v)\<close> for the values JSON can hold.\<close>

fun py_truthy :: "json \<Rightarrow> bool" where
  "py_truthy JNull = False"
| "py_truthy (JBool b) = b"
| "py_truthy (JInt i) = (i \<noteq> 0)"
| "py_truthy (JFloat x) = (x \<noteq> 0)"
| "py_truthy (JStr s) = (s \<noteq> [])"
| "py_truthy (JList xs) = (xs \<noteq> [])"
| "py_truthy (JDict d) = (d \<noteq> [])"

text \<open>\<^verbatim>\<open>d.get(k, default)\<close>, \<^verbatim>\<open>d.get(k)\<close> and \<^verbatim>\<open>d[k]\<close>.\<close>

definition dict_get_or :: "json_dict \<Rightarrow> string \<Rightarrow> json \<Rightarrow> json" where
  "dict_get_or d k dflt = (case map_of d k of Some v \<Rightarrow> v | None \<Rightarrow> dflt)"

abbreviation dict_get :: "json_dict \<Rightarrow> string \<Rightarrow> json" where
  "dict_get d k \<equiv> dict_get_or d k JNull"

definition dict_index :: "json_dict \<Rightarrow> string \<Rightarrow> json outcome" where
  "dict_index d k = (case map_of d k of Some v \<Rightarrow> Inr v | None \<Rightarrow> Inl (KeyError k))"

text \<open>
  A string that \<^verbatim>\<open>json.dumps\<close> wrote and \<^verbatim>\<open>json.loads\<close> reads: either the JSON text of a value, or
  some other text, on which \<^verbatim>\<open>json.loads\<close> raises.
\<close>

datatype 'a json_text = JsonText 'a | RawText string

definition json_dumps :: "'a \<Rightarrow> 'a json_text" where
  "json_dumps j = JsonText j"

fun json_loads :: "'a json_text \<Rightarrow> 'a outcome" where
  "json_loads (JsonText j) = Inr j"
| "json_loads (RawText s) = Inl (ValueError ''Expecting value'')"

lemma json_loads_dumps [simp]: "json_loads (json_dumps j) = Inr j"
  by (simp add: json_dumps_def)

text \<open>\<^verbatim>\<open>sep.join(parts)\<close>.\<close>

fun py_join :: "string \<Rightarrow> string list \<Rightarrow> string" where
  "py_join sep [] = []"
| "py_join sep [x] = x"
| "py_join sep (x # y # ys) = x @ sep @ py_join sep (y # ys)"

lemma append_at_char_eq:
  assumes "c \<notin> set x" and "c \<notin> set y" and "x @ c # u = y @ c # v"
  shows "x = y \<and> u = v"
  using assms
proof (induction x arbitrary: y)
  case Nil
  then show ?case by (cases y) auto
next
  case (Cons a x)
  then show ?case by (cases y) auto
qed

lemma py_join_char_inj:
  assumes "length xs = length ys"
    and "\<forall>x \<in> set xs. c \<notin> set x" and "\<forall>y \<in> set ys. c \<notin> set y"
    and "py_join [c] xs = py_join [c] ys"
  shows "xs = ys"
  using assms
proof (induction xs ys rule: list_induct2)
  case (Cons x xs y ys)
  show ?case
  proof (cases xs)
    case Nil
    with Cons show ?thesis by simp
  next
    case (Cons a as)
    with Cons.hyps obtain b bs where ys: "ys = b # bs" by (cases ys) auto
    have "x @ c # py_join [c] xs = y @ c # py_join [c] ys"
      using Cons.prems(3) Cons ys by simp
    moreover have "c \<notin> set x" "c \<notin> set y" using Cons.prems by auto
    ultimately have "x = y \<and> py_join [c] xs = py_join [c] ys"
      by (metis append_at_char_eq)
    with Cons.IH Cons.prems show ?thesis by simp
  qed
qed simp

text \<open>\<^verbatim>\<open>int(x)\<close> of a float: truncation towards zero.\<close>

definition py_int :: "rat \<Rightarrow> int" where
  "py_int x = (if x \<ge> 0 then \<lfloor>x\<rfloor> else \<lceil>x\<rceil>)"

lemma py_int_bounds: "x \<ge> 0 \<Longrightarrow> of_int (py_int x) \<le> x \<and> x < of_int (py_int x) + 1 \<and> 0 \<le> py_int x"
  using floor_correct [of x] by (simp add: py_int_def)

text \<open>\<^verbatim>\<open>round(x, n)\<close>: to \<open>n\<close> decimals, a tie going to the even neighbour.\<close>

definition round_half_even :: "'a::floor_ceiling \<Rightarrow> int" where
  "round_half_even x =
     (let f = \<lfloor>x\<rfloor>; d = x - of_int f
      in if d < 1 / 2 then f else if d > 1 / 2 then f + 1 else if even f then f else f + 1)"

definition py_round :: "nat \<Rightarrow> 'a::floor_ceiling \<Rightarrow> 'a" where
  "py_round n x = of_int (round_half_even (x * 10 ^ n)) / 10 ^ n"

lemma round_half_even_mono: "x \<le> y \<Longrightarrow> round_half_even x \<le> round_half_even y"
proof -
  assume xy: "x \<le> y"
  show ?thesis
  proof (cases "\<lfloor>x\<rfloor> = \<lfloor>y\<rfloor>")
    case True
    with xy show ?thesis by (auto simp: round_half_even_def Let_def)
  next
    case False
    have "\<lfloor>x\<rfloor> \<le> \<lfloor>y\<rfloor>" using xy by (rule floor_mono)
    with False have "\<lfloor>x\<rfloor> + 1 \<le> \<lfloor>y\<rfloor>" by simp
    moreover have "round_half_even x \<le> \<lfloor>x\<rfloor> + 1" "\<lfloor>y\<rfloor> \<le> round_half_even y"
      by (auto simp: round_half_even_def Let_def)
    ultimately show ?thesis by simp
  qed
qed

lemma round_half_even_of_int [simp]: "round_half_even (of_int i) = i"
  by (simp add: round_half_even_def Let_def)

lemma py_round_mono: "x \<le> y \<Longrightarrow> py_round n x \<le> py_round n y"
  by (simp add: py_round_def divide_right_mono round_half_even_mono mult_right_mono)

lemma py_round_of_int [simp]: "py_round n (of_int i) = of_int i"
proof -
  have "of_int i * 10 ^ n = (of_int (i * 10 ^ n) :: 'a)" by simp
  then have "round_half_even (of_int i * 10 ^ n :: 'a) = i * 10 ^ n" by (metis round_half_even_of_int)
  then show ?thesis by (simp add: py_round_def)
qed

text \<open>\<^verbatim>\<open>s.strip()\<close> for the blanks that occur in headers, and the first piece of \<^verbatim>\<open>s.split(c)\<close>.\<close>

definition py_strip :: "string \<Rightarrow> string" where
  "py_strip s = rev (dropWhile (\<lambda>c. c \<in> {CHR '' '', CHR 0x09, CHR 0x0A, CHR 0x0D}) (rev
     (dropWhile (\<lambda>c. c \<in> {CHR '' '', CHR 0x09, CHR 0x0A, CHR 0x0D}) s)))"

definition split_head :: "char \<Rightarrow> string \<Rightarrow> string" where
  "split_head c s = takeWhile (\<lambda>x. x \<noteq> c) s"

section \<open>Rows of a table\<close>

text \<open>
  A table is the list of its rows in primary-key order. \<^verbatim>\<open>query(...).filter(p).first()\<close> is
  \<open>find\<close>; assigning to an attribute of the row it returned is \<open>update_first\<close>.
\<close>

fun update_first :: "('a \<Rightarrow> bool) \<Rightarrow> ('a \<Rightarrow> 'a) \<Rightarrow> 'a list \<Rightarrow> 'a list" where
  "update_first p f [] = []"
| "update_first p f (x # xs) = (if p x then f x # xs else x # update_first p f xs)"

lemma length_update_first [simp]: "length (update_first p f xs) = length xs"
  by (induction xs) auto

lemma map_update_first [simp]:
  assumes "\<And>x. p x \<Longrightarrow> g (f x) = g x"
  shows "map g (update_first p f xs) = map g xs"
  using assms by (induction xs) auto

lemma update_first_none: "find p xs = None \<Longrightarrow> update_first p f xs = xs"
  by (induction xs) (auto split: if_splits)

lemma update_first_set: "y \<in> set (update_first p f xs) \<Longrightarrow> y \<in> set xs \<or> (\<exists>x \<in> set xs. p x \<and> y = f x)"
  by (induction xs) (auto split: if_splits)

lemma update_first_split:
  assumes "find p xs = Some x"
  shows "\<exists>us vs. xs = us @ x # vs \<and> update_first p f xs = us @ f x # vs \<and> p x \<and> (\<forall>u \<in> set us. \<not> p u)"
  using assms
proof (induction xs)
  case (Cons y ys)
  show ?case
  proof (cases "p y")
    case True
    with Cons.prems show ?thesis by - (rule exI [of _ "[]"], rule exI [of _ ys], auto)
  next
    case False
    with Cons obtain us vs where
      "ys = us @ x # vs \<and> update_first p f ys = us @ f x # vs \<and> p x \<and> (\<forall>u \<in> set us. \<not> p u)"
      by auto
    with False show ?thesis by - (rule exI [of _ "y # us"], rule exI [of _ vs], auto)
  qed
qed simp

lemma find_SomeD: "find p xs = Some x \<Longrightarrow> x \<in> set xs \<and> p x"
  by (induction xs) (auto split: if_splits)

lemma find_snoc:
  "find p (xs @ [y]) = (case find p xs of Some x \<Rightarrow> Some x | None \<Rightarrow> if p y then Some y else None)"
  by (induction xs) auto

lemma find_distinct:
  assumes "distinct (map g xs)" and "x \<in> set xs"
  shows "find (\<lambda>y. g y = g x) xs = Some x"
  using assms by (induction xs) auto

lemma filter_key_singleton:
  assumes "distinct (map g xs)" and "x \<in> set xs"
  shows "filter (\<lambda>y. g y = g x) xs = [x]"
  using assms
proof (induction xs)
  case (Cons y ys)
  then show ?case
    by (cases "x = y") (auto simp: filter_empty_conv image_iff)
qed simp

lemma distinct_map_ConsD: "distinct (map f (x # xs)) \<Longrightarrow> y \<in> set xs \<Longrightarrow> f y \<noteq> f x"
  by (metis distinct.simps(2) image_eqI list.set_map list.simps(9))

lemma length_filter_imp: "(\<And>x. P x \<Longrightarrow> Q x) \<Longrightarrow> length (filter P xs) \<le> length (filter Q xs)"
  by (induction xs) (auto intro: le_SucI)

lemma distinct_count_list: "distinct xs \<Longrightarrow> x \<in> set xs \<Longrightarrow> count_list xs x = 1"
  by (induction xs) auto

section \<open>The database session\<close>

text \<open>
  \<^verbatim>\<open>get_session\<close>: the body works on the session's view of the tables; leaving the \<^verbatim>\<open>with\<close> block
  commits, which checks the tables' unique constraints (sessions are created with
  \<^verbatim>\<open>autoflush=False\<close>, so nothing is checked earlier); an exception from the body or from the
  commit rolls back and is raised again.
\<close>

definition get_session :: "('db \<Rightarrow> bool) \<Rightarrow> ('db \<Rightarrow> 'a outcome \<times> 'db) \<Rightarrow> 'db \<Rightarrow> 'a outcome \<times> 'db" where
  "get_session constraints body db =
     (case body db of
        (Inl e, _) \<Rightarrow> (Inl e, db)
      | (Inr a, db') \<Rightarrow> if constraints db' then (Inr a, db') else (Inl IntegrityError, db))"

lemma get_session_error: "get_session c body db = (Inl e, db') \<Longrightarrow> db' = db"
  by (auto simp: get_session_def split: prod.splits sum.splits if_splits)

lemma get_session_commit:
  "get_session c body db = (Inr a, db') \<longleftrightarrow> body db = (Inr a, db') \<and> c db'"
  by (auto simp: get_session_def split: prod.splits sum.splits if_splits)

lemma get_session_constraints:
  "c db \<Longrightarrow> c (snd (get_session c body db))"
  by (auto simp: get_session_def split: prod.splits sum.splits)

section \<open>The HTTP boundary\<close>

record http_response =
  status_code :: nat
  body_json :: json_dict

text \<open>
  What FastAPI sends for the outcome of a handler: 200 with the encoded result, the status of an
  \<^verbatim>\<open>HTTPException\<close> with its detail, and 500 for any other exception.
\<close>

fun respond :: "('a \<Rightarrow> json_dict) \<Rightarrow> 'a outcome \<Rightarrow> http_response" where
  "respond enc (Inr a) = \<lparr>status_code = 200, body_json = enc a\<rparr>"
| "respond enc (Inl (HTTPException c d)) = \<lparr>status_code = c, body_json = [(''detail'', JStr d)]\<rparr>"
| "respond enc (Inl e) = \<lparr>status_code = 500, body_json = [(''detail'', JStr (exn_str e))]\<rparr>"

text \<open>
  One HTTP exchange as its client sees it. A request may be lost before the server handles it,
  and a response may be lost after: in both cases httpx raises, but in the second the server has
  already changed its state.
\<close>

datatype transport = Delivered | LostRequest | LostResponse

fun exchange :: "transport \<Rightarrow> ('s \<Rightarrow> http_response \<times> 's) \<Rightarrow> 's \<Rightarrow> http_response outcome \<times> 's" where
  "exchange Delivered serve s = (case serve s of (r, s') \<Rightarrow> (Inr r, s'))"
| "exchange LostRequest serve s = (Inl (TransportError ''ConnectError''), s)"
| "exchange LostResponse serve s = (case serve s of (r, s') \<Rightarrow> (Inl (TransportError ''ReadTimeout''), s'))"

section \<open>Runs\<close>

text \<open>The state after a sequence of calls, whatever each of them returned.\<close>

fun run :: "('s \<Rightarrow> 'q \<Rightarrow> 'x \<times> 's) \<Rightarrow> 's \<Rightarrow> 'q list \<Rightarrow> 's" where
  "run step s [] = s"
| "run step s (q # qs) = run step (snd (step s q)) qs"

text \<open>What each call of the sequence returned.\<close>

fun outcomes :: "('s \<Rightarrow> 'q \<Rightarrow> 'x \<times> 's) \<Rightarrow> 's \<Rightarrow> 'q list \<Rightarrow> 'x list" where
  "outcomes step s [] = []"
| "outcomes step s (q # qs) = fst (step s q) # outcomes step (snd (step s q)) qs"

lemma length_outcomes [simp]: "length (outcomes step s qs) = length qs"
  by (induction qs arbitrary: s) auto

lemma run_append [simp]: "run step s (xs @ ys) = run step (run step s xs) ys"
  by (induction xs arbitrary: s) auto

lemma outcomes_append [simp]: "outcomes step s (xs @ ys) = outcomes step s xs @ outcomes step (run step s xs) ys"
  by (induction xs arbitrary: s) auto

text \<open>
  The contract of a service with an invariant: every request it admits, answered or refused, keeps
  the invariant; so every run of admitted requests does, and so does every state on the way.
\<close>

locale guarded_service =
  fixes step :: "'s \<Rightarrow> 'q \<Rightarrow> 'x \<times> 's"
    and admits :: "'q \<Rightarrow> bool"
    and inv :: "'s \<Rightarrow> bool"
  assumes preserved: "inv s \<Longrightarrow> admits q \<Longrightarrow> inv (snd (step s q))"
begin

lemma run_inv: "inv s \<Longrightarrow> list_all admits qs \<Longrightarrow> inv (run step s qs)"
  by (induction qs arbitrary: s) (auto intro: preserved)

lemma prefix_inv: "inv s \<Longrightarrow> list_all admits (xs @ ys) \<Longrightarrow> inv (run step s xs)"
  by (auto intro: run_inv)

end

text \<open>A list comprehension whose element expression may raise.\<close>

fun all_outcomes :: "('a \<Rightarrow> 'b outcome) \<Rightarrow> 'a list \<Rightarrow> 'b list outcome" where
  "all_outcomes f [] = Inr []"
| "all_outcomes f (x # xs) =
     (case f x of
        Inl e \<Rightarrow> Inl e
      | Inr y \<Rightarrow> (case all_outcomes f xs of Inl e \<Rightarrow> Inl e | Inr ys \<Rightarrow> Inr (y # ys)))"

lemma all_outcomes_Inr:
  assumes "\<forall>x \<in> set xs. \<exists>y. f x = Inr y"
  shows "\<exists>ys. all_outcomes f xs = Inr ys \<and> length ys = length xs \<and> (\<forall>y \<in> set ys. \<exists>x \<in> set xs. f x = Inr y)"
  using assms
proof (induction xs)
  case (Cons x xs)
  then obtain y ys where "f x = Inr y" "all_outcomes f xs = Inr ys" "length ys = length xs" "\<forall>y \<in> set ys. \<exists>x \<in> set xs. f x = Inr y" by auto
  then show ?case by simp
qed simp

lemma all_outcomes_InrD: "all_outcomes f xs = Inr ys \<Longrightarrow> y \<in> set ys \<Longrightarrow> \<exists>x \<in> set xs. f x = Inr y"
  by (induction xs arbitrary: ys) (auto split: sum.splits)

end
