(* ===== verification/Rate_Limiter.thy ===== *)
theory Rate_Limiter
  imports Prelude
begin

text \<open>
  The sliding-window rate limiter of \<^verbatim>\<open>core/rate_limiter.py\<close>: the limiter object, the choice of the
  key for a request, and the middleware in front of an application. The limiter, which prunes its
  lists as it goes, is shown to decide exactly like one that remembers every request it ever granted.
\<close>

section \<open>The limiter\<close>

text \<open>\<^verbatim>\<open>_requests\<close> is a \<^verbatim>\<open>defaultdict(list)\<close>: every key has a list, empty at first.\<close>

record rate_limiter =
  max_requests :: int
  window_seconds :: int
  requests :: "string \<Rightarrow> time list"

definition limiter_init :: "int \<Rightarrow> int \<Rightarrow> rate_limiter" where
  "limiter_init n w = \<lparr>max_requests = n, window_seconds = w, requests = (\<lambda>key. [])\<rparr>"

lemma limiter_init_simps [simp]:
  "max_requests (limiter_init n w) = n" "window_seconds (limiter_init n w) = w" "requests (limiter_init n w) key = []"
  by (simp_all add: limiter_init_def)

definition cleanup :: "rate_limiter \<Rightarrow> string \<Rightarrow> time \<Rightarrow> rate_limiter" where
  "cleanup l key now =
     (let cutoff = now - of_int (window_seconds l)
      in l\<lparr>requests := (requests l)(key := filter (\<lambda>t. t > cutoff) (requests l key))\<rparr>)"

record verdict =
  allowed :: bool
  v_limit :: int
  v_remaining :: int
  v_reset :: int

definition check :: "rate_limiter \<Rightarrow> string \<Rightarrow> time \<Rightarrow> verdict \<times> rate_limiter" where
  "check l0 key now =
     (let l = cleanup l0 key now;
          current_count = int (length (requests l key))
      in if current_count \<ge> max_requests l then
           let oldest = (if requests l key \<noteq> [] then hd (requests l key) else now);
               reset_at = py_int (oldest + of_int (window_seconds l) - now) + 1
           in (\<lparr>allowed = False, v_limit = max_requests l, v_remaining = 0, v_reset = reset_at\<rparr>, l)
         else
           (\<lparr>allowed = True, v_limit = max_requests l,
             v_remaining = max 0 (max_requests l - current_count - 1), v_reset = window_seconds l\<rparr>,
            l\<lparr>requests := (requests l)(key := requests l key @ [now])\<rparr>))"

section \<open>The key of a request and the middleware\<close>

record rl_request =
  rl_path :: string
  rl_auth :: "string option"        \<comment> \<open>\<^verbatim>\<open>request.state.auth.user_id\<close>\<close>
  rl_client :: "string option"      \<comment> \<open>\<^verbatim>\<open>request.client.host\<close>\<close>
  rl_forwarded :: "string option"   \<comment> \<open>the \<^verbatim>\<open>X-Forwarded-For\<close> header\<close>

definition get_rate_limit_key :: "rl_request \<Rightarrow> string" where
  "get_rate_limit_key r =
     (case rl_auth r of
        Some user \<Rightarrow> ''user:'' @ user
      | None \<Rightarrow>
          let client_ip = (case rl_client r of Some h \<Rightarrow> h | None \<Rightarrow> ''unknown'')
          in ''ip:'' @ (case rl_forwarded r of
                          Some f \<Rightarrow> if f \<noteq> [] then py_strip (split_head CHR '','' f) else client_ip
                        | None \<Rightarrow> client_ip))"

text \<open>
  \<^verbatim>\<open>RateLimitMiddleware.dispatch\<close>: \<open>call_next\<close> is the application behind it, acting on its own
  state. A response is a status and the rate-limit headers.
\<close>

record rl_response =
  rl_status :: nat
  rl_headers :: "(string \<times> int) list"

definition dispatch ::
  "(rl_request \<Rightarrow> 's \<Rightarrow> rl_response \<times> 's) \<Rightarrow> rl_request \<Rightarrow> time \<Rightarrow> rate_limiter \<times> 's \<Rightarrow>
   rl_response \<times> rate_limiter \<times> 's" where
  "dispatch call_next req now ls =
     (if rl_path req \<in> {''/health'', ''/metrics'', ''/ready''} then
        (case call_next req (snd ls) of (resp, s) \<Rightarrow> (resp, fst ls, s))
      else
        (case check (fst ls) (get_rate_limit_key req) now of (v, l) \<Rightarrow>
           if \<not> allowed v then
             (\<lparr>rl_status = 429,
               rl_headers = [(''X-RateLimit-Limit'', v_limit v), (''X-RateLimit-Remaining'', 0),
                             (''X-RateLimit-Reset'', v_reset v), (''Retry-After'', v_reset v)]\<rparr>, l, snd ls)
           else
             (case call_next req (snd ls) of (resp, s) \<Rightarrow>
                (resp\<lparr>rl_headers := rl_headers resp @ [(''X-RateLimit-Limit'', v_limit v),
                   (''X-RateLimit-Remaining'', v_remaining v), (''X-RateLimit-Reset'', v_reset v)]\<rparr>, l, s))))"

section \<open>A reference limiter\<close>

text \<open>
  The reference keeps the whole history of grants and counts those inside the window. \<open>granted\<close>
  is the history the limiter itself produces for one key.
\<close>

definition in_window :: "int \<Rightarrow> time \<Rightarrow> time list \<Rightarrow> time list" where
  "in_window w now ts = filter (\<lambda>t. now - of_int w < t) ts"

type_synonym check_call = "string \<times> time"

definition limiter_step :: "rate_limiter \<Rightarrow> check_call \<Rightarrow> verdict \<times> rate_limiter" where
  "limiter_step l q = check l (fst q) (snd q)"

fun granted :: "string \<Rightarrow> rate_limiter \<Rightarrow> check_call list \<Rightarrow> time list" where
  "granted key l [] = []"
| "granted key l (q # qs) =
     (if fst q = key \<and> allowed (fst (limiter_step l q)) then [snd q] else []) @ granted key (snd (limiter_step l q)) qs"

definition clock_ok :: "check_call list \<Rightarrow> bool" where
  "clock_ok qs \<longleftrightarrow> sorted (map snd qs)"

lemma granted_append [simp]:
  "granted key l (xs @ ys) = granted key l xs @ granted key (run limiter_step l xs) ys"
  by (induction xs arbitrary: l) auto

lemma granted_times: "set (granted key l qs) \<subseteq> set (map snd qs)"
  by (induction qs arbitrary: l) auto

lemma check_limits [simp]:
  "max_requests (snd (check l k t)) = max_requests l" "window_seconds (snd (check l k t)) = window_seconds l"
  by (simp_all add: check_def cleanup_def Let_def)

lemma run_limits [simp]:
  "max_requests (run limiter_step l qs) = max_requests l" "window_seconds (run limiter_step l qs) = window_seconds l"
  by (induction qs arbitrary: l) (simp_all add: limiter_step_def)

lemma check_requests:
  "requests (snd (check l k t)) k' =
     (if k' = k then in_window (window_seconds l) t (requests l k) @ (if allowed (fst (check l k t)) then [t] else [])
      else requests l k')"
  by (simp add: check_def cleanup_def in_window_def Let_def)

lemma check_allowed:
  "allowed (fst (check l k t)) \<longleftrightarrow> int (length (in_window (window_seconds l) t (requests l k))) < max_requests l"
  by (simp add: check_def cleanup_def in_window_def Let_def not_le)

lemma limiter_step_eqs:
  "fst (limiter_step l q) = fst (check l (fst q) (snd q))"
  "snd (limiter_step l q) = snd (check l (fst q) (snd q))"
  by (simp_all add: limiter_step_def)

text \<open>What the pruned list of a key still holds of the history, when the last call was at \<open>now\<close>.\<close>

definition pruned :: "int \<Rightarrow> time \<Rightarrow> time list \<Rightarrow> time list \<Rightarrow> bool" where
  "pruned w now ts history \<longleftrightarrow> (\<exists>c. c \<le> now - of_int w \<and> ts = filter (\<lambda>t. c < t) history)"

lemma pruned_intro: "c \<le> now - of_int w \<Longrightarrow> pruned w now (filter (\<lambda>t. c < t) h) h"
  by (auto simp: pruned_def)

lemma pruned_later: "pruned w now ts h \<Longrightarrow> now \<le> now' \<Longrightarrow> pruned w now' ts h"
proof -
  assume "pruned w now ts h" and later: "now \<le> now'"
  then obtain c where c: "c \<le> now - of_int w" "ts = filter (\<lambda>t. c < t) h" by (auto simp: pruned_def)
  from c(1) later have "c \<le> now' - of_int w" by simp
  then show ?thesis unfolding c(2) by (rule pruned_intro)
qed

lemma pruned_window:
  assumes "pruned w now ts h" and "now \<le> now'"
  shows "in_window w now' ts = in_window w now' h"
proof -
  obtain c where c: "c \<le> now - of_int w" "ts = filter (\<lambda>t. c < t) h" using assms(1) by (auto simp: pruned_def)
  have "c < t \<and> now' - of_int w < t \<longleftrightarrow> now' - of_int w < t" for t using c(1) assms(2) by auto
  then show ?thesis by (simp add: in_window_def c(2))
qed

lemma run_pruned:
  assumes "clock_ok (qs @ [q])" and "0 < w"
  shows "pruned w (snd q) (requests (run limiter_step (limiter_init n w) qs) key) (granted key (limiter_init n w) qs)"
  using assms(1)
proof (induction qs arbitrary: q rule: rev_induct)
  case Nil
  have "requests (limiter_init n w) key = filter (\<lambda>t. snd q - of_int w < t) []" by (simp add: limiter_init_def)
  then show ?case unfolding pruned_def by auto
next
  case (snoc p qs)
  let ?l = "run limiter_step (limiter_init n w) qs" and ?h = "granted key (limiter_init n w) qs"
  have ord: "snd p \<le> snd q" and prev: "pruned w (snd p) (requests ?l key) ?h"
    using snoc by (auto simp: clock_ok_def sorted_append)
  show ?case
  proof (cases "fst p = key")
    case True
    let ?new = "if allowed (fst (limiter_step ?l p)) then [snd p] else []"
    have w: "window_seconds (limiter_init n w) = w" by (simp add: limiter_init_def)
    have "requests (snd (limiter_step ?l p)) key = in_window w (snd p) ?h @ ?new"
      using True pruned_window [OF prev order_refl] by (simp add: limiter_step_eqs check_requests w)
    then have r: "requests (run limiter_step (limiter_init n w) (qs @ [p])) key =
        filter (\<lambda>t. snd p - of_int w < t) (?h @ ?new)"
      using assms(2) by (simp add: in_window_def)
    have g: "granted key (limiter_init n w) (qs @ [p]) = ?h @ ?new" using True by simp
    show ?thesis unfolding r g using ord by (intro pruned_intro) simp
  next
    case False
    with pruned_later [OF prev ord] show ?thesis by (simp add: limiter_step_eqs check_requests)
  qed
qed

lemma check_decision:
  assumes "clock_ok (qs @ [(key, now)])" and "0 < w"
  shows "allowed (fst (check (run limiter_step (limiter_init n w) qs) key now)) \<longleftrightarrow>
    int (length (in_window w now (granted key (limiter_init n w) qs))) < n"
  using pruned_window [OF run_pruned [OF assms], of now]
  by (simp add: check_allowed limiter_init_def)

lemma sorted_granted: "clock_ok qs \<Longrightarrow> sorted (granted key l qs)"
proof (induction qs rule: rev_induct)
  case (snoc q qs)
  then show ?case
    using granted_times [of key l qs] by (auto simp: clock_ok_def sorted_append)
qed simp

lemma sorted_requests:
  assumes "clock_ok (qs @ [(key, now)])" and "0 < w"
  shows "sorted (requests (run limiter_step (limiter_init n w) qs) key)"
    and "t \<in> set (requests (run limiter_step (limiter_init n w) qs) key) \<Longrightarrow> t \<le> now"
proof -
  obtain c where c: "requests (run limiter_step (limiter_init n w) qs) key =
      filter (\<lambda>t. c < t) (granted key (limiter_init n w) qs)"
    using run_pruned [OF assms, of n key] unfolding pruned_def by blast
  have ok: "clock_ok qs" "\<forall>q \<in> set qs. snd q \<le> now" using assms(1) by (auto simp: clock_ok_def sorted_append)
  show "sorted (requests (run limiter_step (limiter_init n w) qs) key)"
    unfolding c using sorted_granted [OF ok(1)] by (rule sorted_wrt_filter)
  show "t \<le> now" if "t \<in> set (requests (run limiter_step (limiter_init n w) qs) key)"
    using that ok(2) granted_times [of key "limiter_init n w" qs] unfolding c by auto
qed

text \<open>No list ever outgrows the limit.\<close>

lemma requests_bounded:
  "0 \<le> n \<Longrightarrow> int (length (requests (run limiter_step (limiter_init n w) qs) key)) \<le> n"
proof (induction qs rule: rev_induct)
  case Nil
  then show ?case by (simp add: limiter_init_def)
next
  case (snoc q qs)
  let ?l = "run limiter_step (limiter_init n w) qs"
  have "int (length (in_window (window_seconds ?l) (snd q) (requests ?l (fst q)))) \<le> int (length (requests ?l (fst q)))"
    by (simp add: in_window_def)
  with snoc show ?case
    by (auto simp: limiter_step_eqs check_requests check_allowed)
qed

section \<open>Properties\<close>

text \<open>
  C13: The pruned limiter decides like one with a perfect memory. With a clock that never runs
  backwards and a positive window, a request of a key is allowed exactly when fewer than
  \<^verbatim>\<open>max_requests\<close> of the requests ever granted to that key lie in the window ending now.
\<close>

theorem limiter_matches_full_history:
  assumes "clock_ok (qs @ [(key, now)])" and "0 < w"
  shows "allowed (fst (check (run limiter_step (limiter_init n w) qs) key now)) \<longleftrightarrow>
    int (length (in_window w now (granted key (limiter_init n w) qs))) < n"
  by (rule check_decision [OF assms])

theorem limiter_matches_full_history_witness:
  "\<not> allowed (fst (check (run limiter_step (limiter_init 2 60) [(''a'', 1), (''a'', 2), (''b'', 2)]) ''a'' 3))"
  using limiter_matches_full_history [of "[(''a'', 1), (''a'', 2), (''b'', 2)]" "''a''" 3 60 2]
  by (simp add: clock_ok_def in_window_def limiter_step_eqs check_def cleanup_def limiter_init_def Let_def)

text \<open>
  C14: No burst at a window boundary. Over any sequence of requests with a clock that never runs
  backwards, no half-open interval of the window's length, wherever it is placed, holds more than
  \<^verbatim>\<open>max_requests\<close> granted requests of one key.
\<close>

theorem limiter_every_window_bounded:
  assumes "clock_ok qs" and "0 < w" and "0 \<le> n"
  shows "int (length (filter (\<lambda>t. T - of_int w < t \<and> t \<le> T) (granted key (limiter_init n w) qs))) \<le> n"
  using assms(1)
proof (induction qs rule: rev_induct)
  case Nil
  with assms(3) show ?case by simp
next
  case (snoc q qs)
  let ?l = "limiter_init n w"
  let ?in = "filter (\<lambda>t. T - of_int w < t \<and> t \<le> T)"
  have IH: "int (length (?in (granted key ?l qs))) \<le> n"
    using snoc by (simp add: clock_ok_def sorted_append)
  show ?case
  proof (cases "fst q = key \<and> allowed (fst (limiter_step (run limiter_step ?l qs) q)) \<and> snd q \<le> T")
    case True
    have "clock_ok (qs @ [(key, snd q)])" using snoc.prems True by (simp add: clock_ok_def)
    from check_decision [OF this assms(2)] True
    have "int (length (in_window w (snd q) (granted key ?l qs))) < n" by (metis limiter_step_eqs(1))
    moreover have "length (?in (granted key ?l qs)) \<le> length (in_window w (snd q) (granted key ?l qs))"
      unfolding in_window_def using True by (intro length_filter_imp) auto
    ultimately show ?thesis using True by simp
  next
    case False
    with IH show ?thesis by auto
  qed
qed

theorem limiter_every_window_bounded_witness:
  "int (length (filter (\<lambda>t. 2 - of_int 60 < t \<and> t \<le> 2)
     (granted ''a'' (limiter_init 2 60) [(''a'', 1), (''a'', 1), (''a'', 2)]))) \<le> 2"
  by (rule limiter_every_window_bounded) (simp_all add: clock_ok_def)

text \<open>
  \<^verbatim>\<open>Retry-After\<close> is honest. When a request is rejected, the advertised number of seconds is at
  least 1 and at most one more than the window, and a request of the same key made that many seconds
  later, with no other request of that key in between, is allowed.
\<close>

theorem limiter_retry_after:
  assumes "clock_ok (qs @ [(key, now)])" and "0 < w" and "0 < n"
    and "check (run limiter_step (limiter_init n w) qs) key now = (v, l)" and "\<not> allowed v"
  shows "1 \<le> v_reset v \<and> v_reset v \<le> w + 1 \<and> allowed (fst (check l key (now + of_int (v_reset v))))"
proof -
  let ?s = "run limiter_step (limiter_init n w) qs"
  let ?ts = "in_window w now (requests ?s key)"
  have lim: "max_requests ?s = n" "window_seconds ?s = w" by simp_all
  have le: "int (length ?ts) \<le> n"
    using requests_bounded [of n w qs key] assms(3) length_filter_le [of _ "requests ?s key"]
    unfolding in_window_def by (meson less_imp_le of_nat_mono order_trans)
  have full: "int (length ?ts) \<ge> n"
    using assms(4,5) check_allowed [of ?s key now] by (simp add: lim)
  then obtain t ts where ts: "?ts = t # ts" using assms(3) by (cases ?ts) auto
  have t: "now - of_int w < t" using ts by (auto simp: in_window_def filter_eq_Cons_iff)
  have l: "requests l key = ?ts" "max_requests l = n" "window_seconds l = w"
    using assms(4,5) check_requests [of ?s key now key] check_limits [of ?s key now] by (simp_all add: lim)
  have reset: "v_reset v = py_int (t + of_int w - now) + 1"
    using assms(4,5) ts by (auto simp: check_def cleanup_def in_window_def Let_def lim split: if_splits)
  have pos: "0 \<le> t + of_int w - now" using t by simp
  note b = py_int_bounds [OF pos]
  have "set (t # ts) \<subseteq> set (requests ?s key)" using ts by (metis filter_is_subset in_window_def)
  then have tn: "t \<le> now" using sorted_requests(2) [OF assms(1,2), of t n] by auto
  have "int (length (in_window w (now + of_int (v_reset v)) ?ts)) < n"
  proof -
    have "\<not> now + of_int (v_reset v) - of_int w < t" using b by (simp add: reset)
    then have "length (in_window w (now + of_int (v_reset v)) ?ts) \<le> length ts"
      by (simp add: ts) (simp add: in_window_def)
    then show ?thesis using le ts by simp
  qed
  with l have "allowed (fst (check l key (now + of_int (v_reset v))))" by (simp add: check_allowed)
  moreover have "py_int (t + of_int w - now) \<le> w"
    using b tn by (simp add: py_int_def pos floor_le_iff)
  ultimately show ?thesis using b reset by simp
qed

theorem limiter_retry_after_witness:
  "let v = fst (check (run limiter_step (limiter_init 1 60) [(''a'', 1)]) ''a'' 11) in
     \<not> allowed v \<and> v_reset v = 51 \<and>
     allowed (fst (check (snd (check (run limiter_step (limiter_init 1 60) [(''a'', 1)]) ''a'' 11)) ''a'' (11 + of_int (v_reset v))))"
proof -
  let ?c = "check (run limiter_step (limiter_init 1 60) [(''a'', 1)]) ''a'' 11"
  have v: "\<not> allowed (fst ?c)" "v_reset (fst ?c) = 51"
    by (simp_all add: limiter_step_eqs check_def cleanup_def limiter_init_def Let_def py_int_def)
  have "allowed (fst (check (snd ?c) ''a'' (11 + of_int (v_reset (fst ?c)))))"
    using limiter_retry_after [of "[(''a'', 1)]" "''a''" 11 60 1 "fst ?c" "snd ?c"] v by (simp add: clock_ok_def)
  with v show ?thesis by (simp add: Let_def)
qed

end
