(* ===== verification/Http_Client.thy ===== *)
theory Http_Client
  imports Prelude
begin

text \<open>
  The resilient HTTP client of \<^verbatim>\<open>core/http.py\<close>: the circuit breaker and the retry loop with
  exponential backoff. Time enters as the successive readings of the clock, jitter as the draws of
  \<^verbatim>\<open>random.random()\<close>; the network is a parameter \<open>send\<close>, one exchange acting on a world.
\<close>

section \<open>The circuit breaker\<close>

datatype circuit_state = CLOSED | OPEN | HALF_OPEN

record circuit_breaker =
  failure_threshold :: int
  recovery_timeout :: rat
  cb_name :: string
  cb_state :: circuit_state
  failure_count :: int
  last_state_change :: time

definition breaker_init :: "int \<Rightarrow> rat \<Rightarrow> string \<Rightarrow> time \<Rightarrow> circuit_breaker" where
  "breaker_init threshold timeout name now =
     \<lparr>failure_threshold = threshold, recovery_timeout = timeout, cb_name = name, cb_state = CLOSED,
      failure_count = 0, last_state_change = now\<rparr>"

text \<open>\<^verbatim>\<open>_check_state\<close> reads the clock once for the comparison and once for the new time stamp.\<close>

definition check_state :: "time \<Rightarrow> time \<Rightarrow> circuit_breaker \<Rightarrow> circuit_breaker" where
  "check_state now now' b =
     (if cb_state b = OPEN then
        let elapsed = now - last_state_change b
        in if elapsed > recovery_timeout b then b\<lparr>cb_state := HALF_OPEN, last_state_change := now'\<rparr> else b
      else b)"

definition record_success :: "time \<Rightarrow> circuit_breaker \<Rightarrow> circuit_breaker" where
  "record_success now b = b\<lparr>cb_state := CLOSED, failure_count := 0, last_state_change := now\<rparr>"

definition record_failure :: "time \<Rightarrow> circuit_breaker \<Rightarrow> circuit_breaker" where
  "record_failure now b0 =
     (let b = b0\<lparr>failure_count := failure_count b0 + 1\<rparr>
      in if cb_state b = CLOSED \<and> failure_count b \<ge> failure_threshold b
         then b\<lparr>cb_state := OPEN, last_state_change := now\<rparr>
         else if cb_state b = HALF_OPEN then b\<lparr>cb_state := OPEN, last_state_change := now\<rparr>
         else b)"

section \<open>The client\<close>

record http_client =
  client_base_url :: "string option"
  client_timeout :: rat
  max_retries :: int

text \<open>
  \<^verbatim>\<open>response.raise_for_status()\<close> returns for 2xx only. The exceptions the loop catches are
  \<^verbatim>\<open>httpx.RequestError\<close> (a \<open>TransportError\<close>) and \<^verbatim>\<open>httpx.HTTPStatusError\<close>.
\<close>

definition raise_for_status :: "http_response \<Rightarrow> http_response outcome" where
  "raise_for_status r = (if 200 \<le> status_code r \<and> status_code r < 300 then Inr r else Inl (HTTPStatusError (status_code r)))"

fun retryable :: "py_exn \<Rightarrow> bool" where
  "retryable (TransportError m) = True"
| "retryable (HTTPStatusError c) = True"
| "retryable e = False"

fun checked :: "http_response outcome \<Rightarrow> http_response outcome" where
  "checked (Inl e) = Inl e"
| "checked (Inr r) = raise_for_status r"

text \<open>Full jitter: \<^verbatim>\<open>random.uniform(0, 0.2 * 2 ** attempt)\<close> for the draw \<open>u\<close>.\<close>

definition backoff :: "rat \<Rightarrow> nat \<Rightarrow> rat" where
  "backoff u attempt = u * (1 / 5 * 2 ^ attempt)"

text \<open>
  The state the loop works on: the breaker, the world behind the network, the number of requests
  sent, the sleeps taken, and the clock.
\<close>

record 'w client_run =
  breaker :: circuit_breaker
  net :: 'w
  sent :: nat
  sleeps :: "rat list"

text \<open>
  The \<^verbatim>\<open>while attempt <= self.max_retries\<close> loop; \<open>clock n\<close> is the clock when the breaker is told
  after \<open>n\<close> sends, \<open>draw n\<close> the jitter drawn after \<open>n\<close> sends.
\<close>

function retry_loop ::
  "(nat \<Rightarrow> time) \<Rightarrow> (nat \<Rightarrow> rat) \<Rightarrow> ('w \<Rightarrow> http_response outcome \<times> 'w) \<Rightarrow> int \<Rightarrow> nat \<Rightarrow> 'w client_run \<Rightarrow>
   http_response outcome \<times> 'w client_run" where
  "retry_loop clock draw send retries attempt st =
     (if int attempt \<le> retries then
        (case send (net st) of (r, w) \<Rightarrow>
           let st = st\<lparr>net := w, sent := Suc (sent st)\<rparr>
           in (case checked r of
                 Inr response \<Rightarrow> (Inr response, st\<lparr>breaker := record_success (clock (sent st)) (breaker st)\<rparr>)
               | Inl e \<Rightarrow>
                   if \<not> retryable e then (Inl e, st)
                   else if int (Suc attempt) > retries then
                     (Inl e, st\<lparr>breaker := record_failure (clock (sent st)) (breaker st)\<rparr>)
                   else
                     retry_loop clock draw send retries (Suc attempt)
                       (st\<lparr>sleeps := sleeps st @ [backoff (draw (sent st)) (Suc attempt)]\<rparr>)))
      else (Inl (RuntimeError ''Unexpected end of retry loop''), st))"
  by pat_completeness auto
termination
  by (relation "measure (\<lambda>(clock, draw, send, retries, attempt, st). nat (retries + 1 - int attempt))") auto

declare retry_loop.simps [simp del]

text \<open>
  \<^verbatim>\<open>request\<close>: the breaker is asked first; the request carries the caller's headers and, unless they
  name one, the correlation id of the context.
\<close>

definition request_headers :: "(string \<times> string) list option \<Rightarrow> string option \<Rightarrow> (string \<times> string) list" where
  "request_headers headers correlation_id =
     (let req_headers = (case headers of Some h \<Rightarrow> h | None \<Rightarrow> [])
      in (case correlation_id of
            Some cid \<Rightarrow> if cid \<noteq> [] \<and> ''X-Correlation-ID'' \<notin> set (map fst req_headers)
                        then req_headers @ [(''X-Correlation-ID'', cid)] else req_headers
          | None \<Rightarrow> req_headers))"

definition request ::
  "http_client \<Rightarrow> (nat \<Rightarrow> time) \<Rightarrow> time \<Rightarrow> time \<Rightarrow> (nat \<Rightarrow> rat) \<Rightarrow>
   ((string \<times> string) list \<Rightarrow> 'w \<Rightarrow> http_response outcome \<times> 'w) \<Rightarrow>
   (string \<times> string) list option \<Rightarrow> string option \<Rightarrow> circuit_breaker \<Rightarrow> 'w \<Rightarrow>
   http_response outcome \<times> 'w client_run" where
  "request client clock now now' draw send headers cid b0 w =
     (let b = check_state now now' b0;
          st = \<lparr>breaker = b, net = w, sent = 0, sleeps = []\<rparr>
      in if cb_state b = OPEN then
           (Inl (CircuitBreakerOpenException (''Circuit '' @ [CHR 0x27] @ cb_name b @ [CHR 0x27] @ '' is OPEN. Requests blocked.'')), st)
         else retry_loop clock draw (send (request_headers headers cid)) (max_retries client) 0 st)"

section \<open>Attempts\<close>

text \<open>
  The world before the \<open>n\<close>-th send of a request, and what the loop sees of that send.
\<close>

fun net_after :: "('w \<Rightarrow> http_response outcome \<times> 'w) \<Rightarrow> 'w \<Rightarrow> nat \<Rightarrow> 'w" where
  "net_after send w 0 = w"
| "net_after send w (Suc n) = snd (send (net_after send w n))"

definition answer :: "('w \<Rightarrow> http_response outcome \<times> 'w) \<Rightarrow> 'w \<Rightarrow> nat \<Rightarrow> http_response outcome" where
  "answer send w n = checked (fst (send (net_after send w n)))"

fun is_response :: "http_response outcome \<Rightarrow> bool" where
  "is_response (Inr r) = True"
| "is_response (Inl e) = False"

fun loop_handles :: "http_response outcome \<Rightarrow> bool" where
  "loop_handles (Inr r) = True"
| "loop_handles (Inl e) = retryable e"

text \<open>The index of the first answer that is a response, among the attempts from \<open>i\<close> to \<open>n\<close>.\<close>

definition first_response :: "('w \<Rightarrow> http_response outcome \<times> 'w) \<Rightarrow> 'w \<Rightarrow> nat \<Rightarrow> nat \<Rightarrow> nat option" where
  "first_response send w i n = find (\<lambda>k. is_response (answer send w k)) [i..<Suc n]"

lemma first_response_step:
  "i \<le> n \<Longrightarrow> first_response send w i n =
     (if is_response (answer send w i) then Some i else if i = n then None else first_response send w (Suc i) n)"
  by (auto simp: first_response_def upt_conv_Cons)

lemma is_response_last:
  "is_response (answer send w (case first_response send w 0 n of Some k \<Rightarrow> k | None \<Rightarrow> n)) \<longleftrightarrow>
     first_response send w 0 n \<noteq> None"
proof (cases "first_response send w 0 n")
  case None
  then have "\<not> is_response (answer send w n)" by (auto simp: first_response_def find_None_iff)
  with None show ?thesis by simp
next
  case (Some k)
  then have "is_response (answer send w k)" by (auto simp: first_response_def dest: find_SomeD)
  with Some show ?thesis by simp
qed

lemma retry_loop_outcome:
  assumes "i \<le> n" and "net st = net_after send w i" and "sent st = i"
    and "\<And>k. k \<le> n \<Longrightarrow> loop_handles (answer send w k)"
  shows "\<exists>st'. retry_loop clock draw send (int n) i st =
      (answer send w (case first_response send w i n of Some k \<Rightarrow> k | None \<Rightarrow> n), st') \<and>
    sent st' = Suc (case first_response send w i n of Some k \<Rightarrow> k | None \<Rightarrow> n) \<and>
    net st' = net_after send w (sent st') \<and>
    breaker st' = (if first_response send w i n = None then record_failure else record_success)
                    (clock (sent st')) (breaker st)"
  using assms
proof (induction "n - i" arbitrary: i st)
  case 0
  then have "i = n" by simp
  moreover have "loop_handles (answer send w n)" using 0 by simp
  ultimately show ?case using "0.prems"
    by (cases "answer send w n")
       (auto simp: retry_loop.simps [of clock draw send "int n" n st] first_response_step answer_def Let_def
          split: prod.splits)
next
  case (Suc m)
  then have i: "i < n" by simp
  obtain r w' where send: "send (net st) = (r, w')" by fastforce
  show ?case
  proof (cases "answer send w i")
    case (Inr resp)
    with Suc.prems i send show ?thesis
      by (auto simp: retry_loop.simps [of clock draw send "int n" i st] first_response_step answer_def Let_def)
  next
    case (Inl e)
    let ?st = "st\<lparr>net := w', sent := Suc i, sleeps := sleeps st @ [backoff (draw (Suc i)) (Suc i)]\<rparr>"
    have e: "retryable e" using Suc.prems(4) [of i] Inl i by simp
    have step: "retry_loop clock draw send (int n) i st = retry_loop clock draw send (int n) (Suc i) ?st"
      using Inl e i send Suc.prems
      by (auto simp: retry_loop.simps [of clock draw send "int n" i st] answer_def Let_def)
    have fr: "first_response send w i n = first_response send w (Suc i) n"
      using Inl i by (simp add: first_response_step)
    have "net ?st = net_after send w (Suc i)" using Suc.prems send by simp
    then show ?thesis
      unfolding step fr using Suc.hyps(1) [of "Suc i" ?st] Suc.hyps(2) Suc.prems(4) i by simp
  qed
qed

section \<open>A service that is down\<close>

text \<open>
  Requests made one after the other to a service that cannot be reached; each request takes place
  at one moment. \<open>total_sent\<close> is the load they put on the service.
\<close>

definition refused :: "(string \<times> string) list \<Rightarrow> unit \<Rightarrow> http_response outcome \<times> unit" where
  "refused hs u = (Inl (TransportError ''ConnectError''), u)"

fun total_sent :: "http_client \<Rightarrow> (nat \<Rightarrow> rat) \<Rightarrow> circuit_breaker \<Rightarrow> time list \<Rightarrow> nat" where
  "total_sent client draw b [] = 0"
| "total_sent client draw b (t # ts) =
     (case request client (\<lambda>_. t) t t draw refused None None b () of
        (r, st) \<Rightarrow> sent st + total_sent client draw (breaker st) ts)"

lemma answer_refused: "answer (refused hs) w k = Inl (TransportError ''ConnectError'')"
  by (simp add: answer_def refused_def)

lemma first_response_refused: "first_response (refused hs) w i n = None"
  by (auto simp: first_response_def answer_refused find_None_iff)

lemma request_refused:
  assumes "max_retries client = int n" and "cb_state b = CLOSED"
  shows "\<exists>st. request client clock now now' draw refused None None b () =
      (Inl (TransportError ''ConnectError''), st) \<and> sent st = Suc n \<and>
      breaker st = record_failure (clock (Suc n)) b"
  using retry_loop_outcome [of 0 n "\<lparr>breaker = b, net = (), sent = 0, sleeps = []\<rparr>" "refused (request_headers None None)" "()" clock draw] assms
  by (auto simp: request_def check_state_def Let_def answer_refused first_response_refused)

lemma request_open:
  assumes "cb_state b = OPEN" and "now - last_state_change b \<le> recovery_timeout b"
  shows "request client clock now now' draw send hs cid b w =
    (Inl (CircuitBreakerOpenException (''Circuit '' @ [CHR 0x27] @ cb_name b @ [CHR 0x27] @ '' is OPEN. Requests blocked.'')),
     \<lparr>breaker = b, net = w, sent = 0, sleeps = []\<rparr>)"
  using assms by (simp add: request_def check_state_def Let_def)

lemma total_sent_open:
  assumes "cb_state b = OPEN" and "\<forall>t \<in> set ts. t \<le> last_state_change b + recovery_timeout b"
  shows "total_sent client draw b ts = 0"
  using assms
proof (induction ts)
  case (Cons t ts)
  then have "t - last_state_change b \<le> recovery_timeout b" by (simp add: algebra_simps)
  with Cons show ?case by (simp add: request_open)
qed simp

lemma total_sent_closed:
  assumes "max_retries client = int n" and "cb_state b = CLOSED"
    and "0 \<le> failure_count b" and "failure_count b < failure_threshold b"
    and "\<forall>t \<in> set ts. t0 \<le> t \<and> t \<le> t0 + recovery_timeout b"
  shows "total_sent client draw b ts = min (length ts) (nat (failure_threshold b - failure_count b)) * Suc n"
  using assms
proof (induction ts arbitrary: b)
  case (Cons t ts)
  obtain st where st: "request client (\<lambda>_. t) t t draw refused None None b () = (Inl (TransportError ''ConnectError''), st)"
    "sent st = Suc n" "breaker st = record_failure t b"
    using request_refused [OF Cons.prems(1,2), of "\<lambda>_. t" t t draw] by auto
  let ?b = "record_failure t b" and ?left = "nat (failure_threshold b - failure_count b)"
  have times: "\<forall>t \<in> set ts. t0 \<le> t \<and> t \<le> t0 + recovery_timeout b" and t: "t0 \<le> t" using Cons.prems(5) by auto
  show ?case
  proof (cases "failure_count b + 1 \<ge> failure_threshold b")
    case True
    then have b: "?b = b\<lparr>failure_count := failure_count b + 1, cb_state := OPEN, last_state_change := t\<rparr>"
      using Cons.prems(2) by (simp add: record_failure_def Let_def)
    have "\<forall>x \<in> set ts. x \<le> t + recovery_timeout b" using times t by force
    then have "total_sent client draw ?b ts = 0" by (intro total_sent_open) (simp_all add: b)
    moreover have "?left = 1" using True Cons.prems(4) by simp
    ultimately show ?thesis by (simp add: st)
  next
    case False
    then have b: "?b = b\<lparr>failure_count := failure_count b + 1\<rparr>"
      using Cons.prems(2) by (simp add: record_failure_def Let_def)
    have "total_sent client draw ?b ts = min (length ts) (nat (failure_threshold ?b - failure_count ?b)) * Suc n"
      by (rule Cons.IH) (use Cons.prems False times in \<open>simp_all add: b\<close>)
    moreover have "?left = Suc (nat (failure_threshold ?b - failure_count ?b))" using False by (simp add: b)
    ultimately show ?thesis by (simp add: st)
  qed
qed simp

text \<open>A network that plays back a list of answers, then is unreachable.\<close>

fun scripted :: "(string \<times> string) list \<Rightarrow> http_response outcome list \<Rightarrow> http_response outcome \<times> http_response outcome list" where
  "scripted hs [] = (Inl (TransportError ''ConnectError''), [])"
| "scripted hs (r # rs) = (r, rs)"

abbreviation flaky :: "http_response outcome list" where
  "flaky \<equiv> [Inl (TransportError ''ReadTimeout''), Inr \<lparr>status_code = 503, body_json = []\<rparr>, Inr \<lparr>status_code = 200, body_json = []\<rparr>]"

abbreviation patient_client :: http_client where
  "patient_client \<equiv> \<lparr>client_base_url = None, client_timeout = 5, max_retries = 3\<rparr>"

lemma flaky_answers:
  "answer (scripted hs) flaky 0 = Inl (TransportError ''ReadTimeout'')" "answer (scripted hs) flaky (Suc 0) = Inl (HTTPStatusError 503)"
  "answer (scripted hs) flaky 2 = Inr \<lparr>status_code = 200, body_json = []\<rparr>"
  "answer (scripted hs) flaky 3 = Inl (TransportError ''ConnectError'')"
  by (simp_all add: answer_def raise_for_status_def numeral_2_eq_2 numeral_3_eq_3)

lemma flaky_handled: "\<forall>k \<le> 3. loop_handles (answer (scripted hs) flaky k)"
proof (intro allI impI)
  fix k :: nat assume "k \<le> 3"
  then have "k = 0 \<or> k = Suc 0 \<or> k = 2 \<or> k = 3" by arith
  then show "loop_handles (answer (scripted hs) flaky k)" by (auto simp: flaky_answers)
qed

lemma flaky_first: "first_response (scripted hs) flaky 0 3 = Some 2"
  by (simp add: first_response_step flaky_answers) (simp add: numeral_2_eq_2 [symmetric] first_response_step flaky_answers)

section \<open>Properties\<close>

text \<open>
  The retry loop. If the circuit lets the request through and every answer is a response or an
  error the loop catches, the client sends until the first 2xx response and returns that one, or
  gives up after \<^verbatim>\<open>max_retries + 1\<close> sends with the last error; the breaker is told exactly once, of a
  success in the first case and of a failure in the second.
\<close>

theorem request_retries:
  assumes "cb_state (check_state now now' b) \<noteq> OPEN" and "max_retries client = int n"
    and "\<forall>k \<le> n. loop_handles (answer (send (request_headers hs cid)) w k)"
  shows "let a = answer (send (request_headers hs cid)) w;
             last = (case first_response (send (request_headers hs cid)) w 0 n of Some k \<Rightarrow> k | None \<Rightarrow> n)
         in \<exists>st. request client clock now now' draw send hs cid b w = (a last, st) \<and>
              sent st = Suc last \<and> net st = net_after (send (request_headers hs cid)) w (Suc last) \<and>
              breaker st = (if is_response (a last) then record_success else record_failure)
                             (clock (Suc last)) (check_state now now' b)"
proof -
  let ?s = "send (request_headers hs cid)"
  show ?thesis
    using is_response_last [of ?s w n] retry_loop_outcome [of 0 n "\<lparr>breaker = check_state now now' b, net = w, sent = 0, sleeps = []\<rparr>" ?s w clock draw] assms
    by (auto simp: request_def Let_def)
qed

theorem request_retries_witness:
  "\<exists>st. request patient_client (\<lambda>_. 7) 0 0 (\<lambda>_. 1) scripted None None (breaker_init 5 30 ''pay'' 0) flaky =
      (Inr \<lparr>status_code = 200, body_json = []\<rparr>, st) \<and> sent st = 3"
  using request_retries [of 0 0 "breaker_init 5 30 ''pay'' 0" patient_client 3 scripted None None flaky "\<lambda>_. 7" "\<lambda>_. 1"]
  by (auto simp: flaky_handled flaky_first flaky_answers check_state_def breaker_init_def Let_def)

text \<open>
  C12: The breaker bounds the load on a service that is down. Of any number of requests made while
  it is unreachable, within one recovery timeout, only the first \<^verbatim>\<open>failure_threshold\<close> reach the
  network, each with \<^verbatim>\<open>max_retries + 1\<close> sends; all later ones are refused without a send.
\<close>

theorem breaker_bounds_load:
  assumes "0 < threshold" and "max_retries client = int n" and "\<forall>t \<in> set ts. t0 \<le> t \<and> t \<le> t0 + timeout"
  shows "total_sent client draw (breaker_init threshold timeout name now) ts = min (length ts) (nat threshold) * (n + 1)"
  using total_sent_closed [of client n "breaker_init threshold timeout name now" ts t0 draw] assms
  by (simp add: breaker_init_def)

theorem breaker_bounds_load_witness:
  "total_sent \<lparr>client_base_url = None, client_timeout = 5, max_retries = 3\<rparr> (\<lambda>_. 0) (breaker_init 5 30 ''pay'' 0)
     [1, 2, 3, 4, 5, 6, 7] = 20"
  using breaker_bounds_load [of 5 "\<lparr>client_base_url = None, client_timeout = 5, max_retries = 3\<rparr>" 3
      "[1, 2, 3, 4, 5, 6, 7]" 0 30 "\<lambda>_. 0" "''pay''" 0] by simp

text \<open>
  The half-open probe. When the recovery timeout has passed, the next request of an open circuit
  is sent as a probe: if it is answered with a 2xx response the circuit is closed with its failure
  count cleared, and if all its attempts fail the circuit is open again, from that moment.
\<close>

theorem breaker_probe:
  assumes "cb_state b = OPEN" and "recovery_timeout b < now - last_state_change b" and "max_retries client = int n"
    and "\<forall>k \<le> n. loop_handles (answer (send (request_headers hs cid)) w k)"
    and "request client clock now now' draw send hs cid b w = (r, st)"
  shows "0 < sent st \<and> last_state_change (breaker st) = clock (sent st) \<and>
    (if is_response r then cb_state (breaker st) = CLOSED \<and> failure_count (breaker st) = 0
     else cb_state (breaker st) = OPEN)"
proof -
  let ?s = "send (request_headers hs cid)"
  have c: "check_state now now' b = b\<lparr>cb_state := HALF_OPEN, last_state_change := now'\<rparr>"
    using assms(1,2) by (simp add: check_state_def Let_def)
  show ?thesis
    using is_response_last [of ?s w n] retry_loop_outcome [of 0 n "\<lparr>breaker = check_state now now' b, net = w, sent = 0, sleeps = []\<rparr>" ?s w clock draw] assms(3-5)
    by (auto simp: request_def Let_def c record_success_def record_failure_def split: if_splits)
qed

theorem breaker_probe_witness:
  "\<exists>r st. request patient_client (\<lambda>_. 47) 40 40 (\<lambda>_. 1) scripted None None
      ((breaker_init 5 30 ''pay'' 0)\<lparr>cb_state := OPEN, failure_count := 5\<rparr>) flaky = (r, st) \<and>
    (if is_response r then cb_state (breaker st) = CLOSED else cb_state (breaker st) = OPEN)"
proof -
  let ?b = "(breaker_init 5 30 ''pay'' 0)\<lparr>cb_state := OPEN, failure_count := 5\<rparr>"
  obtain r st where run: "request patient_client (\<lambda>_. 47) 40 40 (\<lambda>_. 1) scripted None None ?b flaky = (r, st)"
    by fastforce
  have "0 < sent st \<and> last_state_change (breaker st) = 47 \<and>
    (if is_response r then cb_state (breaker st) = CLOSED \<and> failure_count (breaker st) = 0
     else cb_state (breaker st) = OPEN)"
    by (rule breaker_probe [OF _ _ _ flaky_handled run]) (simp_all add: breaker_init_def)
  with run show ?thesis by auto
qed

end
