(* ===== verification/Outbox.thy ===== *)
theory Outbox
  imports Prelude
begin

text \<open>
  Events and the transactional outbox: the event envelope of \<^verbatim>\<open>contracts/events.py\<close> with its stream
  encoding, the outbox table, the relay and the synchronous publisher of \<^verbatim>\<open>core/outbox.py\<close>. Redis is
  the parameter \<open>xadd\<close>, of which only its documented behaviour is assumed: a successful call appends
  one entry, a failed call appends it or not.
\<close>

section \<open>Events\<close>

datatype event_type =
    ORDER_CREATED | PAYMENT_AUTHORIZED | EV_PAYMENT_FAILED | PAYMENT_REFUNDED
  | INVENTORY_RESERVED | INVENTORY_OUT_OF_STOCK | INVENTORY_RELEASED
  | ETA_PREDICTED | ORDER_CONFIRMED | ORDER_CANCELLED | ORDER_DELIVERED

fun event_type_value :: "event_type \<Rightarrow> string" where
  "event_type_value ORDER_CREATED = ''order.created''"
| "event_type_value PAYMENT_AUTHORIZED = ''payment.authorized''"
| "event_type_value EV_PAYMENT_FAILED = ''payment.failed''"
| "event_type_value PAYMENT_REFUNDED = ''payment.refunded''"
| "event_type_value INVENTORY_RESERVED = ''inventory.reserved''"
| "event_type_value INVENTORY_OUT_OF_STOCK = ''inventory.out_of_stock''"
| "event_type_value INVENTORY_RELEASED = ''inventory.released''"
| "event_type_value ETA_PREDICTED = ''eta.predicted''"
| "event_type_value ORDER_CONFIRMED = ''order.confirmed''"
| "event_type_value ORDER_CANCELLED = ''order.cancelled''"
| "event_type_value ORDER_DELIVERED = ''order.delivered''"

definition event_types :: "event_type list" where
  "event_types = [ORDER_CREATED, PAYMENT_AUTHORIZED, EV_PAYMENT_FAILED, PAYMENT_REFUNDED, INVENTORY_RESERVED,
     INVENTORY_OUT_OF_STOCK, INVENTORY_RELEASED, ETA_PREDICTED, ORDER_CONFIRMED, ORDER_CANCELLED, ORDER_DELIVERED]"

text \<open>\<^verbatim>\<open>EventType(v)\<close>, which raises on a value that names no member.\<close>

definition event_type_of :: "string option \<Rightarrow> event_type outcome" where
  "event_type_of v =
     (case v of
        None \<Rightarrow> Inl (ValueError ''None is not a valid EventType'')
      | Some s \<Rightarrow>
          (case find (\<lambda>t. event_type_value t = s) event_types of
             Some t \<Rightarrow> Inr t
           | None \<Rightarrow> Inl (ValueError (s @ '' is not a valid EventType''))))"

lemma event_type_of_value [simp]: "event_type_of (Some (event_type_value t)) = Inr t"
  by (cases t) (simp_all add: event_type_of_def event_types_def)

record event_envelope =
  event_id :: string
  event_type :: event_type
  event_version :: string
  occurred_at :: string
  ev_correlation_id :: string
  ev_idempotency_key :: "string option"
  traceparent :: "string option"
  ev_payload :: json_dict

text \<open>
  The fields of a stream entry are strings; \<open>RawText\<close> is a plain one, \<open>JsonText\<close> one that was
  written by \<^verbatim>\<open>json.dumps\<close>.
\<close>

type_synonym stream_fields = "(string \<times> json json_text) list"

definition or_empty :: "string option \<Rightarrow> string" where
  "or_empty s = (case s of Some v \<Rightarrow> v | None \<Rightarrow> [])"

definition or_none :: "string \<Rightarrow> string option" where
  "or_none s = (if s = [] then None else Some s)"

definition to_stream_dict :: "event_envelope \<Rightarrow> stream_fields" where
  "to_stream_dict e =
     [(''event_id'', RawText (event_id e)),
      (''event_type'', RawText (event_type_value (event_type e))),
      (''event_version'', RawText (event_version e)),
      (''occurred_at'', RawText (occurred_at e)),
      (''correlation_id'', RawText (ev_correlation_id e)),
      (''idempotency_key'', RawText (or_empty (ev_idempotency_key e))),
      (''traceparent'', RawText (or_empty (traceparent e))),
      (''payload'', json_dumps (JDict (ev_payload e)))]"

text \<open>
  \<^verbatim>\<open>from_stream_dict\<close>. \<open>render\<close> is the text of a JSON value, wanted when a field that should be plain
  holds JSON; \<open>defaults\<close> are the generated event id, time and correlation id for missing fields.
\<close>

fun field_str :: "(json \<Rightarrow> string) \<Rightarrow> json json_text \<Rightarrow> string" where
  "field_str render (RawText s) = s"
| "field_str render (JsonText j) = render j"

definition get_field :: "(json \<Rightarrow> string) \<Rightarrow> stream_fields \<Rightarrow> string \<Rightarrow> string option" where
  "get_field render d k = map_option (field_str render) (map_of d k)"

definition from_stream_dict ::
  "(json \<Rightarrow> string) \<Rightarrow> string \<times> string \<times> string \<Rightarrow> stream_fields \<Rightarrow> event_envelope outcome" where
  "from_stream_dict render defaults d =
     (case json_loads (case map_of d ''payload'' of Some t \<Rightarrow> t | None \<Rightarrow> JsonText (JDict [])) of
        Inl e \<Rightarrow> Inl e
      | Inr payload \<Rightarrow>
          (case event_type_of (get_field render d ''event_type'') of
             Inl e \<Rightarrow> Inl e
           | Inr ty \<Rightarrow>
               (case payload of
                  JDict p \<Rightarrow>
                    Inr \<lparr>event_id = (case get_field render d ''event_id'' of Some s \<Rightarrow> s | None \<Rightarrow> fst defaults),
                         event_type = ty,
                         event_version = (case get_field render d ''event_version'' of Some s \<Rightarrow> s | None \<Rightarrow> ''1.0.0''),
                         occurred_at = (case get_field render d ''occurred_at'' of Some s \<Rightarrow> s | None \<Rightarrow> fst (snd defaults)),
                         ev_correlation_id = (case get_field render d ''correlation_id'' of Some s \<Rightarrow> s | None \<Rightarrow> snd (snd defaults)),
                         ev_idempotency_key = (case get_field render d ''idempotency_key'' of Some s \<Rightarrow> or_none s | None \<Rightarrow> None),
                         traceparent = (case get_field render d ''traceparent'' of Some s \<Rightarrow> or_none s | None \<Rightarrow> None),
                         ev_payload = p\<rparr>
                | _ \<Rightarrow> Inl (ValueError ''Input should be a valid dictionary''))))"

definition normal_text :: "string option \<Rightarrow> string option" where
  "normal_text s = or_none (or_empty s)"

lemma normal_text_id: "s \<noteq> Some [] \<Longrightarrow> normal_text s = s"
  by (cases s) (auto simp: normal_text_def or_none_def or_empty_def)

lemma from_to_stream_dict:
  "from_stream_dict render dflt (to_stream_dict e) =
     Inr (e\<lparr>ev_idempotency_key := normal_text (ev_idempotency_key e), traceparent := normal_text (traceparent e)\<rparr>)"
  by (simp add: from_stream_dict_def to_stream_dict_def get_field_def json_dumps_def normal_text_def)

section \<open>The outbox table\<close>

datatype outbox_status = PENDING | PUBLISHED | OUTBOX_FAILED

text \<open>
  The value of a key in an outbox payload: a string, as \<^verbatim>\<open>to_stream_dict\<close> produces, or another JSON
  value.
\<close>

datatype out_value = OutText "json json_text" | OutJson json

type_synonym out_payload = "(string \<times> out_value) list"

record outbox_event =
  oe_event_id :: string
  oe_event_type :: string
  stream_name :: string
  oe_payload :: "out_payload json_text"
  oe_status :: outbox_status
  retry_count :: int
  published_at :: "time option"

text \<open>\<^verbatim>\<open>write_outbox_event\<close>: \<open>uuid\<close> is used when no event id is given.\<close>

definition write_outbox_event ::
  "string \<Rightarrow> string \<Rightarrow> string \<Rightarrow> out_payload \<Rightarrow> string option \<Rightarrow> outbox_event list \<Rightarrow> outbox_event list" where
  "write_outbox_event uuid ty stream payload eid table =
     table @ [\<lparr>oe_event_id = (case eid of Some i \<Rightarrow> if i \<noteq> [] then i else uuid | None \<Rightarrow> uuid),
               oe_event_type = ty, stream_name = stream, oe_payload = json_dumps payload, oe_status = PENDING,
               retry_count = 0, published_at = None\<rparr>]"

section \<open>The publisher and the relay\<close>

text \<open>\<^verbatim>\<open>publish_sync\<close> flattens nested values to strings; \<open>str_of\<close> is Python's \<^verbatim>\<open>str\<close>.\<close>

fun flatten :: "(json \<Rightarrow> string) \<Rightarrow> out_value \<Rightarrow> json json_text" where
  "flatten str_of (OutText t) = t"
| "flatten str_of (OutJson (JDict d)) = json_dumps (JDict d)"
| "flatten str_of (OutJson (JList xs)) = json_dumps (JList xs)"
| "flatten str_of (OutJson j) = RawText (str_of j)"

type_synonym 'b xadd = "string \<Rightarrow> stream_fields \<Rightarrow> 'b \<Rightarrow> string outcome \<times> 'b"

definition publish_sync :: "'b xadd \<Rightarrow> (json \<Rightarrow> string) \<Rightarrow> string \<Rightarrow> out_payload \<Rightarrow> 'b \<Rightarrow> string outcome \<times> 'b" where
  "publish_sync xadd str_of stream data b = xadd stream (map (\<lambda>(k, v). (k, flatten str_of v)) data) b"

abbreviation MAX_RETRIES :: int where
  "MAX_RETRIES \<equiv> 5"

text \<open>One entry of the batch: loaded, published and marked, or counted as a failed attempt.\<close>

definition relay_entry ::
  "'b xadd \<Rightarrow> (json \<Rightarrow> string) \<Rightarrow> time \<Rightarrow> outbox_event \<Rightarrow> 'b \<Rightarrow> bool \<times> outbox_event \<times> 'b" where
  "relay_entry xadd str_of now entry b =
     (let failed = (\<lambda>e. let e' = e\<lparr>retry_count := retry_count e + 1\<rparr>
                        in if retry_count e' \<ge> MAX_RETRIES then e'\<lparr>oe_status := OUTBOX_FAILED\<rparr> else e')
      in (case json_loads (oe_payload entry) of
            Inl err \<Rightarrow> (False, failed entry, b)
          | Inr payload \<Rightarrow>
              (case publish_sync xadd str_of (stream_name entry) payload b of
                 (Inr msg_id, b') \<Rightarrow> (True, entry\<lparr>oe_status := PUBLISHED, published_at := Some now\<rparr>, b')
               | (Inl err, b') \<Rightarrow> (False, failed entry, b'))))"

text \<open>
  \<^verbatim>\<open>relay_batch\<close>: the first \<open>batch\<close> pending rows in id order. The loop runs over the whole table with
  the number of rows the batch still takes. \<open>commit_ok\<close> is whether \<^verbatim>\<open>session.commit()\<close> succeeds; if
  not, the rollback restores every row, while what was published stays published.
\<close>

fun relay_rows ::
  "'b xadd \<Rightarrow> (json \<Rightarrow> string) \<Rightarrow> time \<Rightarrow> nat \<Rightarrow> outbox_event list \<Rightarrow> 'b \<Rightarrow> nat \<times> outbox_event list \<times> 'b" where
  "relay_rows xadd str_of now n [] b = (0, [], b)"
| "relay_rows xadd str_of now n (e # es) b =
     (if oe_status e = PENDING \<and> 0 < n then
        (case relay_entry xadd str_of now e b of (ok, e', b') \<Rightarrow>
          (case relay_rows xadd str_of now (n - 1) es b' of (c, es', b'') \<Rightarrow>
             (if ok then Suc c else c, e' # es', b'')))
      else
        (case relay_rows xadd str_of now n es b of (c, es', b') \<Rightarrow> (c, e # es', b')))"

definition relay_batch ::
  "'b xadd \<Rightarrow> (json \<Rightarrow> string) \<Rightarrow> nat \<Rightarrow> time \<Rightarrow> bool \<Rightarrow> outbox_event list \<times> 'b \<Rightarrow> nat \<times> outbox_event list \<times> 'b" where
  "relay_batch xadd str_of batch now commit_ok tb =
     (case relay_rows xadd str_of now batch (fst tb) (snd tb) of (c, table', b') \<Rightarrow>
        (c, if commit_ok then table' else fst tb, b'))"

section \<open>What the relay delivers\<close>

text \<open>
  \<open>delivered\<close> reads the entries of all streams off the broker's state, in the order they were added.
\<close>

definition appends :: "'b xadd \<Rightarrow> ('b \<Rightarrow> (string \<times> stream_fields) list) \<Rightarrow> bool" where
  "appends xadd delivered \<longleftrightarrow>
     (\<forall>s f b r b'. xadd s f b = (r, b') \<longrightarrow>
        (case r of
           Inr i \<Rightarrow> delivered b' = delivered b @ [(s, f)]
         | Inl e \<Rightarrow> delivered b' = delivered b \<or> delivered b' = delivered b @ [(s, f)]))"

definition available :: "'b xadd \<Rightarrow> bool" where
  "available xadd \<longleftrightarrow> (\<forall>s f b. \<exists>i b'. xadd s f b = (Inr i, b'))"

lemma appends_success:
  assumes "appends xadd delivered" and "xadd s f b = (Inr i, b')"
  shows "delivered b' = delivered b @ [(s, f)]"
  using assms(1) [unfolded appends_def, rule_format, OF assms(2)] by simp

text \<open>The stream entry an outbox row stands for, if its payload is the JSON text it should be.\<close>

definition message :: "(json \<Rightarrow> string) \<Rightarrow> outbox_event \<Rightarrow> (string \<times> stream_fields) option" where
  "message str_of e =
     (case json_loads (oe_payload e) of
        Inl err \<Rightarrow> None
      | Inr p \<Rightarrow> Some (stream_name e, map (\<lambda>(k, v). (k, flatten str_of v)) p))"

lemma message_written:
  "message str_of (last (write_outbox_event uuid ty stream (map (\<lambda>(k, t). (k, OutText t)) d) eid table)) = Some (stream, d)"
  by (simp add: write_outbox_event_def message_def) (rule map_idI, auto)

abbreviation row_id :: "outbox_event \<Rightarrow> string \<times> string \<times> out_payload json_text" where
  "row_id e \<equiv> (oe_event_id e, stream_name e, oe_payload e)"

fun row_ok :: "(json \<Rightarrow> string) \<Rightarrow> (string \<times> stream_fields) set \<Rightarrow> outbox_event \<Rightarrow> bool" where
  "row_ok str_of sent e \<longleftrightarrow>
     (case oe_status e of
        PENDING \<Rightarrow> 0 \<le> retry_count e \<and> retry_count e < MAX_RETRIES
      | PUBLISHED \<Rightarrow> (\<exists>m \<in> sent. message str_of e = Some m)
      | OUTBOX_FAILED \<Rightarrow> retry_count e = MAX_RETRIES)"

lemma row_ok_mono: "row_ok str_of sent e \<Longrightarrow> sent \<subseteq> sent' \<Longrightarrow> row_ok str_of sent' e"
  by (auto split: outbox_status.splits)

lemma relay_entry_ok:
  assumes "appends xadd delivered" and "relay_entry xadd str_of now e b = (ok, e', b')"
    and "oe_status e = PENDING" and "row_ok str_of (set (delivered b)) e"
  shows "row_ok str_of (set (delivered b')) e' \<and> set (delivered b) \<subseteq> set (delivered b') \<and> row_id e' = row_id e \<and>
    (ok \<longleftrightarrow> oe_status e' = PUBLISHED)"
proof (cases "json_loads (oe_payload e)")
  case (Inl err)
  with assms show ?thesis by (auto simp: relay_entry_def Let_def split: if_splits)
next
  case (Inr p)
  obtain r b1 where pub: "publish_sync xadd str_of (stream_name e) p b = (r, b1)" by fastforce
  have b: "case r of Inr i \<Rightarrow> delivered b1 = delivered b @ [(stream_name e, map (\<lambda>(k, v). (k, flatten str_of v)) p)]
      | Inl err \<Rightarrow> delivered b1 = delivered b \<or>
          delivered b1 = delivered b @ [(stream_name e, map (\<lambda>(k, v). (k, flatten str_of v)) p)]"
    using assms(1) pub unfolding publish_sync_def appends_def by blast
  show ?thesis
    using assms(2-4) Inr pub b by (cases r) (auto simp: relay_entry_def Let_def message_def split: if_splits)
qed

lemma relay_rows_ok:
  assumes "appends xadd delivered" and "relay_rows xadd str_of now n es b = (c, es', b')"
    and "\<forall>e \<in> set es. row_ok str_of (set (delivered b)) e"
  shows "(\<forall>e \<in> set es'. row_ok str_of (set (delivered b')) e) \<and> set (delivered b) \<subseteq> set (delivered b') \<and>
    map row_id es' = map row_id es"
  using assms(2,3)
proof (induction es arbitrary: n b c es' b')
  case (Cons e es)
  show ?case
  proof (cases "oe_status e = PENDING \<and> 0 < n")
    case True
    obtain ok e1 b1 where e1: "relay_entry xadd str_of now e b = (ok, e1, b1)" by (metis prod_cases3)
    obtain c2 es2 b2 where es2: "relay_rows xadd str_of now (n - 1) es b1 = (c2, es2, b2)" by (metis prod_cases3)
    have 1: "row_ok str_of (set (delivered b1)) e1" "set (delivered b) \<subseteq> set (delivered b1)" "row_id e1 = row_id e"
      using relay_entry_ok [OF assms(1) e1] True Cons.prems(2) by auto
    have "\<forall>x \<in> set es. row_ok str_of (set (delivered b1)) x" using Cons.prems(2) row_ok_mono [OF _ 1(2)] by auto
    note 2 = Cons.IH [OF es2 this]
    have "es' = e1 # es2" "b' = b2" using Cons.prems(1) True e1 es2 by auto
    with 1 2 row_ok_mono [OF 1(1)] show ?thesis by auto
  next
    case False
    obtain c2 es2 b2 where es2: "relay_rows xadd str_of now n es b = (c2, es2, b2)" by (metis prod_cases3)
    have eq: "es' = e # es2" "b' = b2" using Cons.prems(1) False es2 by auto
    have "\<forall>x \<in> set es. row_ok str_of (set (delivered b)) x" using Cons.prems(2) by auto
    note 2 = Cons.IH [OF es2 this]
    then have "row_ok str_of (set (delivered b2)) e" using Cons.prems(2) row_ok_mono by (meson list.set_intros(1))
    with eq 2 show ?thesis by auto
  qed
qed simp

text \<open>The life of an outbox: rows are written, and the relay runs.\<close>

datatype outbox_op =
    WriteEvent string string string out_payload "string option"
  | RelayBatch nat time bool

fun outbox_step :: "'b xadd \<Rightarrow> (json \<Rightarrow> string) \<Rightarrow> outbox_event list \<times> 'b \<Rightarrow> outbox_op \<Rightarrow> nat \<times> outbox_event list \<times> 'b" where
  "outbox_step xadd str_of (table, b) (WriteEvent uuid ty stream payload eid) =
     (0, write_outbox_event uuid ty stream payload eid table, b)"
| "outbox_step xadd str_of (table, b) (RelayBatch batch now commit_ok) =
     relay_batch xadd str_of batch now commit_ok (table, b)"

definition outbox_ok :: "(json \<Rightarrow> string) \<Rightarrow> ('b \<Rightarrow> (string \<times> stream_fields) list) \<Rightarrow> outbox_event list \<times> 'b \<Rightarrow> bool" where
  "outbox_ok str_of delivered tb \<longleftrightarrow> (\<forall>e \<in> set (fst tb). row_ok str_of (set (delivered (snd tb))) e)"

lemma outbox_step_ok:
  assumes "appends xadd delivered" and "outbox_ok str_of delivered tb"
  shows "outbox_ok str_of delivered (snd (outbox_step xadd str_of tb q)) \<and>
    set (map row_id (fst tb)) \<subseteq> set (map row_id (fst (snd (outbox_step xadd str_of tb q))))"
proof -
  obtain table b where tb: "tb = (table, b)" by fastforce
  show ?thesis
  proof (cases q)
    case (WriteEvent uuid ty stream payload eid)
    with assms(2) show ?thesis by (auto simp: tb outbox_ok_def write_outbox_event_def)
  next
    case (RelayBatch batch now ok)
    obtain c t' b' where rows: "relay_rows xadd str_of now batch table b = (c, t', b')" by (metis prod_cases3)
    have "\<forall>e \<in> set table. row_ok str_of (set (delivered b)) e" using assms(2) by (simp add: outbox_ok_def tb)
    note post = relay_rows_ok [OF assms(1) rows this]
    have "\<forall>e \<in> set table. row_ok str_of (set (delivered b')) e"
      using assms(2) post row_ok_mono by (fastforce simp: outbox_ok_def tb simp del: row_ok.simps)
    with post show ?thesis
      by (auto simp: tb RelayBatch relay_batch_def rows outbox_ok_def simp del: row_ok.simps set_map)
  qed
qed

lemma outbox_run_ok:
  assumes "appends xadd delivered" and "outbox_ok str_of delivered tb"
  shows "outbox_ok str_of delivered (run (outbox_step xadd str_of) tb qs) \<and>
    set (map row_id (fst tb)) \<subseteq> set (map row_id (fst (run (outbox_step xadd str_of) tb qs)))"
  using assms(2)
proof (induction qs arbitrary: tb)
  case (Cons q qs)
  note step = outbox_step_ok [OF assms(1) Cons.prems, of q]
  from Cons.IH [OF conjunct1 [OF step]] step show ?case by (simp del: set_map) blast
qed simp

text \<open>With Redis available the relay publishes the pending rows in order, a batch at a time.\<close>

abbreviation pending :: "outbox_event list \<Rightarrow> outbox_event list" where
  "pending table \<equiv> filter (\<lambda>e. oe_status e = PENDING) table"

lemma relay_entry_available:
  assumes "appends xadd delivered" and "available xadd" and "message str_of e = Some m"
  shows "\<exists>b'. relay_entry xadd str_of now e b = (True, e\<lparr>oe_status := PUBLISHED, published_at := Some now\<rparr>, b') \<and>
    delivered b' = delivered b @ [m]"
proof -
  obtain p where p: "json_loads (oe_payload e) = Inr p" "m = (stream_name e, map (\<lambda>(k, v). (k, flatten str_of v)) p)"
    using assms(3) by (auto simp: message_def split: sum.splits)
  obtain i b' where x: "xadd (stream_name e) (map (\<lambda>(k, v). (k, flatten str_of v)) p) b = (Inr i, b')"
    using assms(2) unfolding available_def by blast
  have "delivered b' = delivered b @ [m]" using appends_success [OF assms(1) x] by (simp add: p(2))
  with x p show ?thesis by (simp add: relay_entry_def publish_sync_def Let_def)
qed

lemma relay_rows_available:
  assumes "appends xadd delivered" and "available xadd" and "\<forall>e \<in> set (pending es). message str_of e \<noteq> None"
  shows "\<exists>es' b'. relay_rows xadd str_of now n es b = (min n (length (pending es)), es', b') \<and>
    pending es' = drop n (pending es) \<and>
    delivered b' = delivered b @ map (\<lambda>e. the (message str_of e)) (take n (pending es))"
  using assms(3)
proof (induction es arbitrary: n b)
  case (Cons e es)
  show ?case
  proof (cases "oe_status e = PENDING \<and> 0 < n")
    case True
    then obtain m where m: "message str_of e = Some m" using Cons.prems by auto
    from relay_entry_available [OF assms(1,2) m] obtain b1 where
      b1: "relay_entry xadd str_of now e b = (True, e\<lparr>oe_status := PUBLISHED, published_at := Some now\<rparr>, b1)"
        "delivered b1 = delivered b @ [m]" by blast
    have "\<forall>x \<in> set (pending es). message str_of x \<noteq> None" using Cons.prems by auto
    from Cons.IH [OF this, of "n - 1" b1] b1 m True show ?thesis by (cases n) auto
  next
    case False
    have "\<forall>x \<in> set (pending es). message str_of x \<noteq> None" using Cons.prems by auto
    from Cons.IH [OF this, of n b] False show ?thesis by auto
  qed
qed simp

definition relay_now :: "'b xadd \<Rightarrow> (json \<Rightarrow> string) \<Rightarrow> nat \<Rightarrow> time \<Rightarrow> outbox_event list \<times> 'b \<Rightarrow> outbox_event list \<times> 'b" where
  "relay_now xadd str_of batch now tb = snd (relay_batch xadd str_of batch now True tb)"

lemma relay_now_available:
  assumes "appends xadd delivered" and "available xadd" and "\<forall>e \<in> set (pending (fst tb)). message str_of e \<noteq> None"
  shows "pending (fst (relay_now xadd str_of batch now tb)) = drop batch (pending (fst tb)) \<and>
    delivered (snd (relay_now xadd str_of batch now tb)) =
      delivered (snd tb) @ map (\<lambda>e. the (message str_of e)) (take batch (pending (fst tb)))"
  using relay_rows_available [OF assms, of now batch "snd tb"] by (auto simp: relay_now_def relay_batch_def)

text \<open>A stand-in for Redis that records its entries and fails while told to.\<close>

record redis_stub =
  entries :: "(string \<times> stream_fields) list"
  failures :: nat

definition stub_xadd :: "redis_stub xadd" where
  "stub_xadd s f b =
     (if failures b > 0 then (Inl (ConnectionError ''redis''), b\<lparr>failures := failures b - 1\<rparr>)
      else (Inr ''1-0'', b\<lparr>entries := entries b @ [(s, f)]\<rparr>))"

lemma stub_appends: "appends stub_xadd entries"
  by (auto simp: appends_def stub_xadd_def split: if_splits sum.splits)

definition list_xadd :: "(string \<times> stream_fields) list xadd" where
  "list_xadd s f b = (Inr ''1-0'', b @ [(s, f)])"

lemma list_available: "appends list_xadd (\<lambda>b. b) \<and> available list_xadd"
  by (auto simp: appends_def available_def list_xadd_def)

section \<open>Properties\<close>

text \<open>
  At-least-once delivery. Whatever happens to an outbox that starts out consistent, rows
  written, batches relayed with Redis failing at any point, commits failing after the events went
  out, no row is ever lost or altered in its id, stream and payload, and every row is in one of three
  conditions: pending with fewer than five failed attempts, published with its event really among
  the delivered entries, or failed after exactly five attempts.
\<close>

theorem outbox_at_least_once:
  assumes "appends xadd delivered" and "outbox_ok str_of delivered (table, b)"
    and "run (outbox_step xadd str_of) (table, b) ops = (table', b')"
  shows "outbox_ok str_of delivered (table', b') \<and> set (map row_id table) \<subseteq> set (map row_id table')"
  using outbox_run_ok [OF assms(1,2), of ops] assms(3) by simp

theorem outbox_at_least_once_witness:
  "outbox_ok (\<lambda>_. []) entries
     (run (outbox_step stub_xadd (\<lambda>_. [])) ([], \<lparr>entries = [], failures = 1\<rparr>)
        [WriteEvent ''e1'' ''order.created'' ''order.created'' [] None, RelayBatch 50 0 True, RelayBatch 50 1 False,
         RelayBatch 50 2 True])" (is "outbox_ok _ _ ?end")
proof -
  obtain table' b' where run: "?end = (table', b')" by fastforce
  have "outbox_ok (\<lambda>_. []) entries ([], \<lparr>entries = [], failures = 1\<rparr>)" by (simp add: outbox_ok_def)
  from outbox_at_least_once [OF stub_appends this run] show ?thesis unfolding run by (rule conjunct1)
qed

text \<open>
  C11: The outbox drains. While Redis is available and commits succeed, relaying batches of a positive
  size until they add up to the backlog leaves nothing pending, and has delivered exactly the pending
  events, each once, in the order they were written.
\<close>

theorem outbox_drains:
  assumes "appends xadd delivered" and "available xadd"
    and "\<forall>e \<in> set (pending (fst tb)). message str_of e \<noteq> None"
    and "length (pending (fst tb)) \<le> n * batch"
  shows "pending (fst ((relay_now xadd str_of batch now ^^ n) tb)) = [] \<and>
    delivered (snd ((relay_now xadd str_of batch now ^^ n) tb)) =
      delivered (snd tb) @ map (\<lambda>e. the (message str_of e)) (pending (fst tb))"
  using assms(3,4)
proof (induction n arbitrary: tb)
  case (Suc n)
  let ?tb = "relay_now xadd str_of batch now tb"
  note step = relay_now_available [OF assms(1,2) Suc.prems(1), of batch now]
  have "\<forall>e \<in> set (pending (fst ?tb)). message str_of e \<noteq> None"
    using Suc.prems(1) unfolding conjunct1 [OF step] by (blast dest: in_set_dropD)
  moreover have "length (pending (fst ?tb)) \<le> n * batch" using Suc.prems(2) step by simp
  ultimately have "pending (fst ((relay_now xadd str_of batch now ^^ n) ?tb)) = [] \<and>
    delivered (snd ((relay_now xadd str_of batch now ^^ n) ?tb)) =
      delivered (snd ?tb) @ map (\<lambda>e. the (message str_of e)) (pending (fst ?tb))"
    by (rule Suc.IH)
  moreover have "delivered (snd ?tb) @ map (\<lambda>e. the (message str_of e)) (pending (fst ?tb)) =
      delivered (snd tb) @ map (\<lambda>e. the (message str_of e)) (pending (fst tb))"
    by (simp only: step append.assoc map_append [symmetric] append_take_drop_id)
  ultimately show ?case by (simp only: funpow_Suc_right comp_apply)
qed simp

theorem outbox_drains_witness:
  "let tb = (write_outbox_event ''e2'' ''t'' ''s'' [] None (write_outbox_event ''e1'' ''t'' ''s'' [] None []), [])
   in pending (fst ((relay_now list_xadd (\<lambda>_. []) 1 0 ^^ 2) tb)) = [] \<and>
      length (snd ((relay_now list_xadd (\<lambda>_. []) 1 0 ^^ 2) tb)) = 2"
  using outbox_drains [OF conjunct1 [OF list_available] conjunct2 [OF list_available],
      of "(write_outbox_event ''e2'' ''t'' ''s'' [] None (write_outbox_event ''e1'' ''t'' ''s'' [] None []), [])" "\<lambda>_. []" 2 1 0]
  by (simp add: write_outbox_event_def message_def Let_def)

text \<open>
  An event survives the outbox. The entry the relay publishes for an event written to the outbox
  decodes back to that event, provided its optional key and trace id, where given, are not empty
  strings.
\<close>

theorem event_roundtrip:
  assumes "ev_idempotency_key e \<noteq> Some []" and "traceparent e \<noteq> Some []"
    and "row = last (write_outbox_event uuid ty stream (map (\<lambda>(k, t). (k, OutText t)) (to_stream_dict e)) eid table)"
  shows "\<exists>fields. message str_of row = Some (stream, fields) \<and> from_stream_dict render dflt fields = Inr e"
  using assms by (auto simp: message_written from_to_stream_dict normal_text_id)

theorem event_roundtrip_witness:
  "let e = \<lparr>event_id = ''e1'', event_type = ORDER_CREATED, event_version = ''1.0.0'', occurred_at = ''now'',
            ev_correlation_id = ''O1'', ev_idempotency_key = Some ''k'', traceparent = None,
            ev_payload = [(''order_id'', JStr ''O1'')]\<rparr>
   in \<exists>fields. from_stream_dict (\<lambda>_. []) ([], [], []) fields = Inr e"
  using event_roundtrip [of "\<lparr>event_id = ''e1'', event_type = ORDER_CREATED, event_version = ''1.0.0'', occurred_at = ''now'',
            ev_correlation_id = ''O1'', ev_idempotency_key = Some ''k'', traceparent = None,
            ev_payload = [(''order_id'', JStr ''O1'')]\<rparr>" _ "''u''" "''t''" "''s''" None "[]" "\<lambda>_. []" "\<lambda>_. []" "([], [], [])"]
  by (auto simp: Let_def)

end
