(* ===== verification/Streams.thy ===== *)
theory Streams
  imports Outbox
begin

text \<open>
  Consuming events: the Redis Streams consumer of \<^verbatim>\<open>core/streams.py\<close> with its dead-letter queue, and
  the idempotent notification handler of \<^verbatim>\<open>services/notifier/app.py\<close>. The reads of the consumer group
  and the success of each Redis command are inputs of the loop.
\<close>

section \<open>The consumer\<close>

text \<open>
  The consumer's effects: the handler's own state, the acknowledged message ids, the dead-letter
  stream, and the fate of the Redis commands still to come (all succeed when the list is used up).
\<close>

record 'h consumer =
  handler_state :: 'h
  acked :: "string list"
  dlq :: "(string \<times> stream_fields json_text) list"
  redis_script :: "bool list"

definition redis_op :: "('h consumer \<Rightarrow> 'h consumer) \<Rightarrow> 'h consumer \<Rightarrow> unit outcome \<times> 'h consumer" where
  "redis_op effect c =
     (case redis_script c of
        [] \<Rightarrow> (Inr (), effect c)
      | True # rest \<Rightarrow> (Inr (), effect (c\<lparr>redis_script := rest\<rparr>))
      | False # rest \<Rightarrow> (Inl (ConnectionError ''redis''), c\<lparr>redis_script := rest\<rparr>))"

definition xack :: "string \<Rightarrow> 'h consumer \<Rightarrow> unit outcome \<times> 'h consumer" where
  "xack msg_id = redis_op (\<lambda>c. c\<lparr>acked := acked c @ [msg_id]\<rparr>)"

definition send_to_dlq :: "stream_fields \<Rightarrow> string \<Rightarrow> 'h consumer \<Rightarrow> unit outcome \<times> 'h consumer" where
  "send_to_dlq raw reason = redis_op (\<lambda>c. c\<lparr>dlq := dlq c @ [(reason, json_dumps raw)]\<rparr>)"

type_synonym 'h handler = "event_envelope \<Rightarrow> 'h \<Rightarrow> unit outcome \<times> 'h"

text \<open>
  One message: decode, handle, acknowledge; an exception from any of the three sends it to the
  dead-letter queue and acknowledges it. \<open>decode\<close> is \<open>from_stream_dict\<close> with its defaults.
\<close>

definition handle_message ::
  "(stream_fields \<Rightarrow> event_envelope outcome) \<Rightarrow> 'h handler \<Rightarrow> string \<times> stream_fields \<Rightarrow> 'h consumer \<Rightarrow>
   unit outcome \<times> 'h consumer" where
  "handle_message decode h msg c =
     (case decode (snd msg) of
        Inl e \<Rightarrow> (Inl e, c)
      | Inr envelope \<Rightarrow>
          (case h envelope (handler_state c) of
             (Inl e, s) \<Rightarrow> (Inl e, c\<lparr>handler_state := s\<rparr>)
           | (Inr _, s) \<Rightarrow> xack (fst msg) (c\<lparr>handler_state := s\<rparr>)))"

definition process_message ::
  "(stream_fields \<Rightarrow> event_envelope outcome) \<Rightarrow> 'h handler \<Rightarrow> string \<times> stream_fields \<Rightarrow> 'h consumer \<Rightarrow>
   unit outcome \<times> 'h consumer" where
  "process_message decode h msg c =
     (case handle_message decode h msg c of
        (Inr _, c') \<Rightarrow> (Inr (), c')
      | (Inl err, c') \<Rightarrow>
          (case send_to_dlq (snd msg) (exn_str err) c' of
             (Inl e, c'') \<Rightarrow> (Inl e, c'')
           | (Inr _, c'') \<Rightarrow> xack (fst msg) c''))"

text \<open>A batch: an exception that escapes a message abandons the rest of it.\<close>

fun consume_batch ::
  "(stream_fields \<Rightarrow> event_envelope outcome) \<Rightarrow> 'h handler \<Rightarrow> (string \<times> stream_fields) list \<Rightarrow> 'h consumer \<Rightarrow>
   unit outcome \<times> 'h consumer" where
  "consume_batch decode h [] c = (Inr (), c)"
| "consume_batch decode h (m # ms) c =
     (case process_message decode h m c of
        (Inl e, c') \<Rightarrow> (Inl e, c')
      | (Inr _, c') \<Rightarrow> consume_batch decode h ms c')"

text \<open>
  \<^verbatim>\<open>consume_loop\<close>, given what each \<^verbatim>\<open>xreadgroup\<close> brings until the stop event: a batch (empty when the
  read timed out), an error, which is logged and slept over, or the task's cancellation.
\<close>

datatype stream_read = Messages "(string \<times> stream_fields) list" | ReadFailed py_exn | Cancelled

fun consume_loop ::
  "(stream_fields \<Rightarrow> event_envelope outcome) \<Rightarrow> 'h handler \<Rightarrow> stream_read list \<Rightarrow> 'h consumer \<Rightarrow> 'h consumer" where
  "consume_loop decode h [] c = c"
| "consume_loop decode h (Messages ms # rs) c = consume_loop decode h rs (snd (consume_batch decode h ms c))"
| "consume_loop decode h (ReadFailed e # rs) c = consume_loop decode h rs c"
| "consume_loop decode h (Cancelled # rs) c = c"

section \<open>The broker\<close>

text \<open>
  \<^verbatim>\<open>RedisStreamBroker\<close> as a client: it connects at the first use. Creating a group that exists is no error (\<^verbatim>\<open>BUSYGROUP\<close>);
  any other exception ends \<^verbatim>\<open>consume_loop\<close> before it reads anything.
\<close>

definition publish :: "'b xadd \<Rightarrow> string \<Rightarrow> event_envelope \<Rightarrow> 'b \<Rightarrow> string outcome \<times> 'b" where
  "publish xadd name event b = xadd name (to_stream_dict event) b"

definition create_consumer_group ::
  "(string \<Rightarrow> string \<Rightarrow> 'b \<Rightarrow> unit outcome \<times> 'b) \<Rightarrow> string \<Rightarrow> string \<Rightarrow> 'b \<Rightarrow> unit outcome \<times> 'b" where
  "create_consumer_group xgroup_create name grp b =
     (case xgroup_create name grp b of
        (Inr _, b') \<Rightarrow> (Inr (), b')
      | (Inl e, b') \<Rightarrow> if py_in ''BUSYGROUP'' (exn_str e) then (Inr (), b') else (Inl e, b'))"

definition dlq_name :: "string option \<Rightarrow> string \<Rightarrow> string" where
  "dlq_name dlq_stream name = (case dlq_stream of Some (c # s) \<Rightarrow> c # s | _ \<Rightarrow> ''dlq:'' @ name)"

text \<open>The whole of \<^verbatim>\<open>consume_loop\<close>: \<open>created\<close> is what the creation of the group gave.\<close>

definition run_consumer ::
  "(stream_fields \<Rightarrow> event_envelope outcome) \<Rightarrow> 'h handler \<Rightarrow> unit outcome \<Rightarrow> stream_read list \<Rightarrow> 'h consumer \<Rightarrow>
   unit outcome \<times> 'h consumer" where
  "run_consumer decode h created rs c =
     (case created of Inl e \<Rightarrow> (Inl e, c) | Inr _ \<Rightarrow> (Inr (), consume_loop decode h rs c))"

section \<open>The notifier\<close>

record notification =
  n_event_id :: string
  n_type :: string
  n_order_id :: json
  n_message :: string

record notifier =
  processed_events :: "string set"
  notifications :: "notification list"

definition notifier_init :: notifier where
  "notifier_init = \<lparr>processed_events = {}, notifications = []\<rparr>"

definition handle_event ::
  "(json \<Rightarrow> string) \<Rightarrow> string \<Rightarrow> string \<Rightarrow> json_dict \<Rightarrow> notifier \<Rightarrow> bool \<times> notifier" where
  "handle_event str_of ty eid payload s =
     (if eid \<in> processed_events s then (False, s)
      else
        let order_id = dict_get_or payload ''order_id'' (JStr ''unknown'');
            send = (\<lambda>n. (True, s\<lparr>processed_events := insert eid (processed_events s), notifications := notifications s @ [n]\<rparr>))
        in if ty = ''order.confirmed'' then
             send \<lparr>n_event_id = eid, n_type = ''ORDER_CONFIRMED'', n_order_id = order_id,
                   n_message = ''Your order '' @ str_of order_id @ '' has been confirmed! Estimated delivery: '' @
                     str_of (dict_get_or payload ''eta_minutes'' (JStr ''N/A'')) @ '' minutes.''\<rparr>
           else if ty = ''order.cancelled'' then
             send \<lparr>n_event_id = eid, n_type = ''ORDER_CANCELLED'', n_order_id = order_id,
                   n_message = ''Your order '' @ str_of order_id @ '' has been cancelled. Reason: '' @
                     str_of (dict_get_or payload ''reason'' (JStr ''N/A'')) @ ''. Refund will be processed.''\<rparr>
           else (False, s))"

definition processed_count :: "notifier \<Rightarrow> nat" where
  "processed_count s = card (processed_events s)"

definition clear_notifier :: "notifier \<Rightarrow> notifier" where
  "clear_notifier s = s\<lparr>processed_events := {}, notifications := []\<rparr>"

text \<open>The notifier as a stream handler: \<^verbatim>\<open>handle_event\<close> never raises.\<close>

definition notify_handler :: "(json \<Rightarrow> string) \<Rightarrow> notifier handler" where
  "notify_handler str_of e s =
     (Inr (), snd (handle_event str_of (event_type_value (event_type e)) (event_id e) (ev_payload e) s))"

section \<open>What the consumer does\<close>

text \<open>
  With Redis answering, a message is rejected when it does not decode or the handler raises.
\<close>

fun consume_spec ::
  "(stream_fields \<Rightarrow> event_envelope outcome) \<Rightarrow> 'h handler \<Rightarrow> (string \<times> stream_fields) list \<Rightarrow> 'h \<Rightarrow>
   (string \<times> stream_fields json_text) list \<times> 'h" where
  "consume_spec decode h [] s = ([], s)"
| "consume_spec decode h (m # ms) s =
     (case decode (snd m) of
        Inl e \<Rightarrow> (case consume_spec decode h ms s of (d, s') \<Rightarrow> ((exn_str e, json_dumps (snd m)) # d, s'))
      | Inr env \<Rightarrow>
          (case h env s of
             (Inl e, s1) \<Rightarrow> (case consume_spec decode h ms s1 of (d, s') \<Rightarrow> ((exn_str e, json_dumps (snd m)) # d, s'))
           | (Inr _, s1) \<Rightarrow> consume_spec decode h ms s1))"

lemma consume_spec_append:
  "consume_spec decode h (xs @ ys) s =
     (case consume_spec decode h xs s of (d, s1) \<Rightarrow> (case consume_spec decode h ys s1 of (d', s2) \<Rightarrow> (d @ d', s2)))"
  by (induction xs arbitrary: s) (auto split: sum.splits prod.splits)

lemma consume_batch_spec:
  assumes "redis_script c = []"
  shows "consume_batch decode h ms c =
    (Inr (), c\<lparr>handler_state := snd (consume_spec decode h ms (handler_state c)),
       acked := acked c @ map fst ms, dlq := dlq c @ fst (consume_spec decode h ms (handler_state c))\<rparr>)"
  using assms
proof (induction ms arbitrary: c)
  case (Cons m ms)
  then show ?case
    by (auto simp: process_message_def handle_message_def xack_def send_to_dlq_def redis_op_def
        split: sum.splits prod.splits)
qed simp

fun batch_of :: "stream_read \<Rightarrow> (string \<times> stream_fields) list" where
  "batch_of (Messages ms) = ms"
| "batch_of r = []"

lemma consume_loop_spec:
  assumes "redis_script c = []" and "Cancelled \<notin> set rs"
  shows "consume_loop decode h rs c =
    c\<lparr>handler_state := snd (consume_spec decode h (concat (map batch_of rs)) (handler_state c)),
      acked := acked c @ map fst (concat (map batch_of rs)),
      dlq := dlq c @ fst (consume_spec decode h (concat (map batch_of rs)) (handler_state c))\<rparr>"
  using assms
proof (induction decode h rs c rule: consume_loop.induct)
  case (2 decode h ms rs c)
  then show ?case
    by (auto simp: consume_batch_spec consume_spec_append split: prod.splits)
qed auto

section \<open>What the notifier does\<close>

type_synonym notifier_event = "string \<times> string \<times> json_dict"

definition notifier_step :: "(json \<Rightarrow> string) \<Rightarrow> notifier \<Rightarrow> notifier_event \<Rightarrow> bool \<times> notifier" where
  "notifier_step str_of s e = handle_event str_of (fst e) (fst (snd e)) (snd (snd e)) s"

definition known_event :: "notifier_event \<Rightarrow> bool" where
  "known_event e \<longleftrightarrow> fst e \<in> {''order.confirmed'', ''order.cancelled''}"

text \<open>The elements of a list at their first occurrence.\<close>

definition firsts :: "'a list \<Rightarrow> 'a list" where
  "firsts xs = rev (remdups (rev xs))"

lemma firsts_snoc: "firsts (xs @ [x]) = (if x \<in> set xs then firsts xs else firsts xs @ [x])"
  by (simp add: firsts_def)

lemma set_firsts [simp]: "set (firsts xs) = set xs"
  by (simp add: firsts_def)

lemma notifier_step_effect:
  "processed_events (snd (notifier_step str_of s e)) =
     (if known_event e then insert (fst (snd e)) (processed_events s) else processed_events s)"
  "map n_event_id (notifications (snd (notifier_step str_of s e))) =
     map n_event_id (notifications s) @
     (if known_event e \<and> fst (snd e) \<notin> processed_events s then [fst (snd e)] else [])"
  "fst (notifier_step str_of s e) \<longleftrightarrow> known_event e \<and> fst (snd e) \<notin> processed_events s"
  by (auto simp: notifier_step_def handle_event_def known_event_def Let_def)

lemma notifier_run:
  "processed_events (run (notifier_step str_of) notifier_init es) = set (map (fst \<circ> snd) (filter known_event es)) \<and>
   map n_event_id (notifications (run (notifier_step str_of) notifier_init es)) =
     firsts (map (fst \<circ> snd) (filter known_event es))"
proof (induction es rule: rev_induct)
  case Nil
  show ?case by (simp add: notifier_init_def firsts_def)
next
  case (snoc e es)
  then show ?case
    by (auto simp: notifier_step_effect firsts_snoc simp del: set_map)
qed

section \<open>Batches given up\<close>

lemma process_message_acked:
  "process_message decode h m c = (r, c') \<Longrightarrow> set (acked c') \<subseteq> insert (fst m) (set (acked c))"
  by (auto simp: process_message_def handle_message_def xack_def send_to_dlq_def redis_op_def
      split: sum.splits prod.splits list.splits bool.splits)

lemma consume_batch_acked:
  "consume_batch decode h ms c = (r, c') \<Longrightarrow> set (acked c') \<subseteq> set (map fst ms) \<union> set (acked c)"
proof (induction ms arbitrary: c)
  case (Cons m ms)
  obtain x c1 where c1: "process_message decode h m c = (x, c1)" by fastforce
  show ?case
  proof (cases x)
    case (Inl e)
    with Cons.prems c1 process_message_acked [OF c1] show ?thesis by auto
  next
    case (Inr u)
    with Cons.prems c1 have "consume_batch decode h ms c1 = (r, c')" by simp
    from Cons.IH [OF this] process_message_acked [OF c1] show ?thesis by auto
  qed
qed simp

lemma consume_loop_acked:
  "set (acked (consume_loop decode h rs c)) \<subseteq> set (map fst (concat (map batch_of rs))) \<union> set (acked c)"
proof (induction decode h rs c rule: consume_loop.induct)
  case (2 decode h ms rs c)
  obtain r c1 where c1: "consume_batch decode h ms c = (r, c1)" by fastforce
  from consume_batch_acked [OF this] "2.IH" c1 show ?case by auto
qed auto

text \<open>An abandoned batch ends with a message whose exception escaped; what follows it is not looked at.\<close>

lemma consume_batch_abandoned:
  assumes "consume_batch decode h ms c = (Inl e, c')"
  obtains xs m ys where "ms = xs @ m # ys" and "\<forall>zs. consume_batch decode h (xs @ m # zs) c = (Inl e, c')"
  using assms
proof (induction ms arbitrary: c thesis)
  case (Cons m ms)
  obtain x c1 where c1: "process_message decode h m c = (x, c1)" by fastforce
  show ?case
  proof (cases x)
    case (Inl e1)
    with Cons.prems(2) c1 show ?thesis by (intro Cons.prems(1) [of "[]" m ms]) simp_all
  next
    case (Inr u)
    with Cons.prems(2) c1 have "consume_batch decode h ms c1 = (Inl e, c')" by simp
    then obtain xs m1 ys where "ms = xs @ m1 # ys" "\<forall>zs. consume_batch decode h (xs @ m1 # zs) c1 = (Inl e, c')"
      by (rule Cons.IH [rotated]) blast
    with c1 Inr show ?thesis by (intro Cons.prems(1) [of "m # xs" m1 ys]) simp_all
  qed
qed simp

section \<open>Properties\<close>

text \<open>
  No message is dropped silently. While Redis answers, after any sequence of reads every message
  delivered to the consumer has been acknowledged, in order, and the dead-letter queue has received
  exactly the messages that did not decode or whose handler raised, each with the reason and its
  original fields; the handler has seen the others, in order. A poison message never stops the ones
  behind it.
\<close>

theorem consumer_accounts_for_every_message:
  assumes "redis_script c = []" and "Cancelled \<notin> set rs"
  shows "let ms = concat (map batch_of rs); c' = consume_loop decode h rs c in
    acked c' = acked c @ map fst ms \<and>
    dlq c' = dlq c @ fst (consume_spec decode h ms (handler_state c)) \<and>
    handler_state c' = snd (consume_spec decode h ms (handler_state c))"
  by (simp add: consume_loop_spec [OF assms] Let_def)

theorem consumer_accounts_for_every_message_witness:
  "let c = \<lparr>handler_state = notifier_init, acked = [], dlq = [], redis_script = []\<rparr>;
       c' = consume_loop (from_stream_dict (\<lambda>_. []) ([], [], [])) (notify_handler (\<lambda>_. []))
              [Messages [(''1-0'', [(''payload'', RawText ''x'')])], Messages []] c
   in acked c' = [''1-0''] \<and> length (dlq c') = 1"
  using consumer_accounts_for_every_message [of "\<lparr>handler_state = notifier_init, acked = [], dlq = [], redis_script = []\<rparr>"
      "[Messages [(''1-0'', [(''payload'', RawText ''x'')])], Messages []]"
      "from_stream_dict (\<lambda>_. []) ([], [], [])" "notify_handler (\<lambda>_. [])"]
  by (simp add: Let_def from_stream_dict_def)

text \<open>
  C15: Exactly one notification per event. However often events are redelivered and in whatever order
  they arrive, the notifications sent carry exactly the ids of the confirmation and cancellation
  events received, each once, in the order of first arrival.
\<close>

theorem notifier_exactly_once:
  "map n_event_id (notifications (run (notifier_step str_of) notifier_init es)) =
     firsts (map (fst \<circ> snd) (filter known_event es))"
  by (rule conjunct2 [OF notifier_run])

text \<open>
  C16: A message can be lost between the stream and the handler. The group hands out each message once: a read asks for new
  ones only. When Redis fails while a batch is handled, so that an exception escapes a message, the messages behind it
  are neither handled nor put in the dead-letter queue nor acknowledged, then or at any later read: the consumer goes on
  exactly as if they had not been in the batch.\<close>

theorem abandoned_messages_lost:
  assumes "consume_batch decode h ms c = (Inl e, c')" and "distinct (map fst (ms @ concat (map batch_of rs)))"
    and "set (acked c) \<inter> set (map fst ms) = {}"
  shows "\<exists>xs m ys. ms = xs @ m # ys \<and>
    consume_loop decode h (Messages ms # rs) c = consume_loop decode h (Messages (xs @ [m]) # rs) c \<and>
    set (acked (consume_loop decode h (Messages ms # rs) c)) \<inter> set (map fst ys) = {}"
proof -
  from assms(1) obtain xs m ys where ms: "ms = xs @ m # ys"
    and same: "\<forall>zs. consume_batch decode h (xs @ m # zs) c = (Inl e, c')"
    by (rule consume_batch_abandoned)
  have loop: "consume_loop decode h (Messages ms # rs) c = consume_loop decode h (Messages (xs @ [m]) # rs) c"
    unfolding ms by (simp add: same)
  have "set (acked (consume_loop decode h (Messages (xs @ [m]) # rs) c)) \<subseteq>
      set (map fst (concat (map batch_of (Messages (xs @ [m]) # rs)))) \<union> set (acked c)" by (rule consume_loop_acked)
  moreover have "set (map fst (concat (map batch_of (Messages (xs @ [m]) # rs)))) \<inter> set (map fst ys) = {}"
  proof -
    have "set (map fst ((xs @ [m]) @ l)) \<inter> set (map fst ys) = {}" if "distinct (map fst ((xs @ m # ys) @ l))" for l
      using that by (auto simp del: set_map)
    from this [OF assms(2) [unfolded ms]] show ?thesis by simp
  qed
  moreover have "set (acked c) \<inter> set (map fst ys) = {}" using assms(3) unfolding ms by auto
  ultimately have lost: "set (acked (consume_loop decode h (Messages (xs @ [m]) # rs) c)) \<inter> set (map fst ys) = {}" by blast
  show ?thesis by (intro exI conjI) (rule ms, rule loop, simp only: loop lost)
qed

text \<open>Of three messages the second can neither be decoded nor written to the dead-letter queue: the third is lost.\<close>

definition poison :: "string \<Rightarrow> string \<times> stream_fields" where
  "poison i = (i, [(''payload'', RawText ''x'')])"

definition lossy :: "stream_read list \<Rightarrow> notifier consumer" where
  "lossy rs = consume_loop (from_stream_dict (\<lambda>_. []) ([], [], [])) (notify_handler (\<lambda>_. [])) rs
     \<lparr>handler_state = notifier_init, acked = [], dlq = [], redis_script = [True, True, False]\<rparr>"

theorem abandoned_messages_lost_witness:
  "\<exists>xs m ys. map poison [''1-0'', ''2-0'', ''3-0''] = xs @ m # ys \<and>
     set (acked (lossy [Messages (map poison [''1-0'', ''2-0'', ''3-0'']), Messages [poison ''4-0'']])) \<inter> set (map fst ys) = {} \<and>
     acked (lossy [Messages (map poison [''1-0'', ''2-0'', ''3-0'']), Messages [poison ''4-0'']]) = [''1-0'', ''4-0'']"
proof -
  let ?c = "\<lparr>handler_state = notifier_init, acked = [], dlq = [], redis_script = [True, True, False]\<rparr>"
  let ?ms = "map poison [''1-0'', ''2-0'', ''3-0'']" and ?rs = "[Messages [poison ''4-0'']]"
  have "\<exists>e c'. consume_batch (from_stream_dict (\<lambda>_. []) ([], [], [])) (notify_handler (\<lambda>_. [])) ?ms ?c = (Inl e, c')"
    by (simp add: poison_def from_stream_dict_def process_message_def handle_message_def send_to_dlq_def xack_def redis_op_def)
  then obtain e c' where batch:
      "consume_batch (from_stream_dict (\<lambda>_. []) ([], [], [])) (notify_handler (\<lambda>_. [])) ?ms ?c = (Inl e, c')" by blast
  have acked: "acked (lossy (Messages ?ms # ?rs)) = [''1-0'', ''4-0'']"
    by (simp add: lossy_def poison_def from_stream_dict_def process_message_def handle_message_def send_to_dlq_def xack_def redis_op_def)
  have "distinct (map fst (?ms @ concat (map batch_of ?rs)))" and "set (acked ?c) \<inter> set (map fst ?ms) = {}" by (simp_all add: poison_def)
  from abandoned_messages_lost [OF batch this] acked show ?thesis unfolding lossy_def by blast
qed

end
