(* ===== verification/Idempotency.thy ===== *)
theory Idempotency
  imports Prelude
begin

text \<open>
  The idempotency store of \<^verbatim>\<open>core/idempotency.py\<close>, the derivation of idempotency keys, and the
  contract every keyed endpoint keeps with it, as the locale \<open>idempotent_service\<close>.
\<close>

section \<open>The store\<close>

record 'r idem_entry =
  ie_response :: 'r
  ie_status_code :: nat
  ie_cached_at :: time

type_synonym 'r idem_store = "string \<rightharpoonup> 'r idem_entry"

definition idem_init :: "'r idem_store" where
  "idem_init = Map.empty"

text \<open>
  \<^verbatim>\<open>get\<close> returns the stored dict; callers test it with \<^verbatim>\<open>if cached:\<close>, and a stored dict always has
  its three keys, so it is truthy whenever it is there.
\<close>

definition idem_get :: "'r idem_store \<Rightarrow> string \<Rightarrow> 'r idem_entry option" where
  "idem_get st key = st key"

definition idem_set :: "'r idem_store \<Rightarrow> string \<Rightarrow> 'r \<Rightarrow> nat \<Rightarrow> time \<Rightarrow> 'r idem_store" where
  "idem_set st key response code now =
     st(key \<mapsto> \<lparr>ie_response = response, ie_status_code = code, ie_cached_at = now\<rparr>)"

definition idem_exists :: "'r idem_store \<Rightarrow> string \<Rightarrow> bool" where
  "idem_exists st key \<longleftrightarrow> key \<in> dom st"

definition idem_clear :: "'r idem_store \<Rightarrow> 'r idem_store" where
  "idem_clear st = Map.empty"

lemma idem_get_set [simp]:
  "idem_get (idem_set st k r c t) k' =
     (if k' = k then Some \<lparr>ie_response = r, ie_status_code = c, ie_cached_at = t\<rparr> else idem_get st k')"
  by (simp add: idem_get_def idem_set_def)

lemma dom_idem_set [simp]: "dom (idem_set st k r c t) = insert k (dom st)"
  by (auto simp: idem_set_def)

lemma idem_exists_get: "idem_exists st k \<longleftrightarrow> idem_get st k \<noteq> None"
  by (auto simp: idem_exists_def idem_get_def)

section \<open>Key derivation\<close>

text \<open>
  \<^verbatim>\<open>generate_idempotency_key(*parts)\<close>: the first 32 hex digits of the SHA-256 of the parts joined
  with colons. The digest is the parameter \<open>sha256_hex\<close>.
\<close>

definition generate_idempotency_key :: "(string \<Rightarrow> string) \<Rightarrow> string list \<Rightarrow> string" where
  "generate_idempotency_key sha256_hex parts = take 32 (sha256_hex (py_join '':'' parts))"

text \<open>
  Two lists of parts without a colon give the same key only if they are equal or the truncated
  digest collides on them.
\<close>

lemma generate_idempotency_key_inj:
  assumes "length xs = length ys"
    and "\<forall>x \<in> set xs. CHR '':'' \<notin> set x" and "\<forall>y \<in> set ys. CHR '':'' \<notin> set y"
    and "inj_on (\<lambda>m. take 32 (sha256_hex m)) {py_join '':'' xs, py_join '':'' ys}"
    and "generate_idempotency_key sha256_hex xs = generate_idempotency_key sha256_hex ys"
  shows "xs = ys"
proof (rule py_join_char_inj [OF assms(1-3)])
  have "take 32 (sha256_hex (py_join '':'' xs)) = take 32 (sha256_hex (py_join '':'' ys))"
    using assms(5) unfolding generate_idempotency_key_def .
  then show "py_join [CHR '':''] xs = py_join [CHR '':''] ys"
    by (rule inj_onD [OF assms(4)]) (rule insertI1, rule insertI2, rule singletonI)
qed

section \<open>The contract of a keyed endpoint\<close>

text \<open>
  A service whose requests carry a key: a request whose key is cached is answered from the cache
  and changes nothing (\<open>hit\<close>), a request that returns leaves its response in the cache (\<open>fill\<close>),
  and no request drops or overwrites a cached entry (\<open>keep\<close>).
\<close>

locale idempotent_service =
  fixes step :: "'s \<Rightarrow> 'q \<Rightarrow> 'r outcome \<times> 's"
    and key :: "'q \<Rightarrow> string"
    and cache :: "'s \<Rightarrow> 'r idem_store"
  assumes hit: "idem_get (cache s) (key q) = Some e \<Longrightarrow> step s q = (Inr (ie_response e), s)"
    and fill: "step s q = (Inr r, s') \<Longrightarrow> \<exists>e. idem_get (cache s') (key q) = Some e \<and> ie_response e = r"
    and keep: "idem_get (cache s) k = Some e \<Longrightarrow> idem_get (cache (snd (step s q))) k = Some e"
begin

lemma run_keep: "idem_get (cache s) k = Some e \<Longrightarrow> idem_get (cache (run step s qs)) k = Some e"
  by (induction qs arbitrary: s) (auto intro: keep)

text \<open>
  Once a request has been answered, every later request with the same key gets the same answer
  and has no effect, whatever other requests came between.
\<close>

lemma replay:
  assumes "step s q = (Inr r, s')" and "key q' = key q"
  shows "step (run step s' qs) q' = (Inr r, run step s' qs)"
proof -
  obtain e where e: "idem_get (cache s') (key q) = Some e" "ie_response e = r"
    using fill [OF assms(1)] by blast
  from run_keep [OF e(1)] have "idem_get (cache (run step s' qs)) (key q') = Some e"
    using assms(2) by simp
  from hit [OF this] e(2) show ?thesis by simp
qed

text \<open>So a duplicate can be deleted from the sequence of requests without changing its effect.\<close>

lemma drop_duplicate:
  assumes "step s q = (Inr r, s')" and "key q' = key q"
  shows "run step s (q # qs @ q' # qs') = run step s (q # qs @ qs')"
  using replay [OF assms, of qs] assms(1) by simp

end

end
