(* ===== verification/Payment.thy ===== *)
theory Payment
  imports Idempotency
begin

text \<open>
  The payment service, \<^verbatim>\<open>services/payment/app.py\<close>, with its contracts in \<^verbatim>\<open>contracts/payment.py\<close>:
  authorisation, compensating refund, and the chaos configuration endpoints. The payments table
  and the idempotency store are the service's state.
\<close>

section \<open>Data\<close>

datatype payment_status = AUTHORIZED | DECLINED | REFUNDED | FAILED

fun payment_status_value :: "payment_status \<Rightarrow> string" where
  "payment_status_value AUTHORIZED = ''AUTHORIZED''"
| "payment_status_value DECLINED = ''DECLINED''"
| "payment_status_value REFUNDED = ''REFUNDED''"
| "payment_status_value FAILED = ''FAILED''"

lemma payment_status_value_inj [simp]: "payment_status_value a = payment_status_value b \<longleftrightarrow> a = b"
  by (cases a; cases b) simp_all

record authorize_request =
  auth_order_id :: string
  auth_amount :: rat
  auth_key :: string

record refund_request =
  ref_order_id :: string
  ref_payment_id :: string
  ref_key :: string

record payment_response =
  pr_payment_id :: string
  pr_order_id :: string
  pr_amount :: rat
  pr_status :: payment_status
  pr_key :: string
  pr_message :: "string option"

text \<open>A row of the \<^verbatim>\<open>payments\<close> table and its unique constraints.\<close>

record payment =
  payment_id :: string
  pay_order_id :: string
  pay_amount :: rat
  pay_status :: string
  pay_key :: string

definition payments_ok :: "payment list \<Rightarrow> bool" where
  "payments_ok ps \<longleftrightarrow> distinct (map payment_id ps) \<and> distinct (map pay_key ps)"

record payment_service =
  payments :: "payment list"
  pay_store :: "payment_response idem_store"
  fail_rate :: rat
  latency_ms :: int
  always_fail_over :: rat

section \<open>Operations\<close>

text \<open>
  \<^verbatim>\<open>authorize_payment\<close>. The injected latency only sleeps. The row is inserted and committed before
  the response is cached.
\<close>

definition authorize_payment ::
  "payment_service \<Rightarrow> call_env \<Rightarrow> authorize_request \<Rightarrow> payment_response outcome \<times> payment_service" where
  [service_defs]: "authorize_payment s env req =
     (case idem_get (pay_store s) (auth_key req) of
        Some cached \<Rightarrow> (Inr (ie_response cached), s)
      | None \<Rightarrow>
          let pid = ''PAY-'' @ env_uuid env;
              should_fail = (auth_amount req > always_fail_over s \<or> env_random env < fail_rate s);
              st = (if should_fail then DECLINED else AUTHORIZED);
              message = (if should_fail then ''Payment declined by issuing bank''
                         else ''Payment authorized successfully'');
              row = \<lparr>payment_id = pid, pay_order_id = auth_order_id req, pay_amount = auth_amount req,
                     pay_status = payment_status_value st, pay_key = auth_key req\<rparr>;
              response = \<lparr>pr_payment_id = pid, pr_order_id = auth_order_id req,
                          pr_amount = auth_amount req, pr_status = st, pr_key = auth_key req,
                          pr_message = Some message\<rparr>
          in (case get_session payments_ok (\<lambda>db. (Inr (), db @ [row])) (payments s) of
                (Inl e, db) \<Rightarrow> (Inl e, s\<lparr>payments := db\<rparr>)
              | (Inr _, db) \<Rightarrow>
                  (Inr response,
                   s\<lparr>payments := db,
                     pay_store := idem_set (pay_store s) (auth_key req) response 200 (env_now env)\<rparr>)))"

text \<open>
  \<^verbatim>\<open>refund_payment\<close>: the session body finds the original row (404 when there is none), adds a row
  with the negated amount and marks the original refunded.
\<close>

definition refund_body ::
  "call_env \<Rightarrow> refund_request \<Rightarrow> payment list \<Rightarrow> (string \<times> rat) outcome \<times> payment list" where
  [service_defs]: "refund_body env req db =
     (case find (\<lambda>p. payment_id p = ref_payment_id req) db of
        None \<Rightarrow> (Inl (HTTPException 404 (''Payment '' @ ref_payment_id req @ '' not found'')), db)
      | Some original \<Rightarrow>
          let refund_id = ''REF-'' @ env_uuid env;
              refund = \<lparr>payment_id = refund_id, pay_order_id = ref_order_id req,
                        pay_amount = - pay_amount original,
                        pay_status = payment_status_value REFUNDED, pay_key = ref_key req\<rparr>
          in (Inr (refund_id, pay_amount original),
              update_first (\<lambda>p. payment_id p = ref_payment_id req)
                (\<lambda>p. p\<lparr>pay_status := payment_status_value REFUNDED\<rparr>) db @ [refund]))"

definition refund_payment ::
  "payment_service \<Rightarrow> call_env \<Rightarrow> refund_request \<Rightarrow> payment_response outcome \<times> payment_service" where
  [service_defs]: "refund_payment s env req =
     (case idem_get (pay_store s) (ref_key req) of
        Some cached \<Rightarrow> (Inr (ie_response cached), s)
      | None \<Rightarrow>
          (case get_session payments_ok (refund_body env req) (payments s) of
             (Inl e, db) \<Rightarrow> (Inl e, s\<lparr>payments := db\<rparr>)
           | (Inr (refund_id, amount), db) \<Rightarrow>
               let response = \<lparr>pr_payment_id = refund_id, pr_order_id = ref_order_id req,
                               pr_amount = amount, pr_status = REFUNDED, pr_key = ref_key req,
                               pr_message = Some (''Refund issued for original payment '' @ ref_payment_id req)\<rparr>
               in (Inr response,
                   s\<lparr>payments := db,
                     pay_store := idem_set (pay_store s) (ref_key req) response 200 (env_now env)\<rparr>)))"

text \<open>
  The chaos endpoints \<^verbatim>\<open>/config/latency\<close> and \<^verbatim>\<open>/config/fail-rate\<close>; the number is the parsed value of
  the body's field, absent meaning 0.
\<close>

definition set_latency :: "payment_service \<Rightarrow> int option \<Rightarrow> payment_service" where
  "set_latency s v = s\<lparr>latency_ms := (case v of Some n \<Rightarrow> n | None \<Rightarrow> 0)\<rparr>"

definition set_fail_rate :: "payment_service \<Rightarrow> rat option \<Rightarrow> payment_service" where
  "set_fail_rate s v = s\<lparr>fail_rate := (case v of Some r \<Rightarrow> r | None \<Rightarrow> 0)\<rparr>"

text \<open>
  The service as one step function over its keyed endpoints. Requests reach the handlers after
  validation; \<open>post_authorize\<close> is the endpoint with the \<^verbatim>\<open>gt=0\<close> check of the request schema in
  front.
\<close>

datatype payment_request = Authorize authorize_request | Refund refund_request

fun payment_step ::
  "payment_service \<Rightarrow> call_env \<times> payment_request \<Rightarrow> payment_response outcome \<times> payment_service" where
  "payment_step s (env, Authorize r) = authorize_payment s env r"
| "payment_step s (env, Refund r) = refund_payment s env r"

fun payment_key :: "call_env \<times> payment_request \<Rightarrow> string" where
  "payment_key (env, Authorize r) = auth_key r"
| "payment_key (env, Refund r) = ref_key r"

definition valid_authorize :: "authorize_request \<Rightarrow> bool" where
  "valid_authorize req \<longleftrightarrow> auth_amount req > 0"

definition post_authorize ::
  "payment_service \<Rightarrow> call_env \<Rightarrow> authorize_request \<Rightarrow> payment_response outcome \<times> payment_service" where
  "post_authorize s env req =
     (if valid_authorize req then authorize_payment s env req
      else (Inl (HTTPException 422 ''Input should be greater than 0''), s))"

section \<open>Idempotency\<close>

lemma payment_hit:
  "idem_get (pay_store s) (payment_key q) = Some e \<Longrightarrow> payment_step s q = (Inr (ie_response e), s)"
  by (induction s q rule: payment_step.induct) (auto simp: service_defs)

lemma payment_fill:
  "payment_step s q = (Inr r, s') \<Longrightarrow>
     \<exists>e. idem_get (pay_store s') (payment_key q) = Some e \<and> ie_response e = r"
  by (induction s q rule: payment_step.induct)
     (auto simp: authorize_payment_def refund_payment_def Let_def
           split: option.splits prod.splits sum.splits)

lemma payment_keep:
  "idem_get (pay_store s) k = Some e \<Longrightarrow> idem_get (pay_store (snd (payment_step s q))) k = Some e"
  by (induction s q rule: payment_step.induct)
     (auto simp: authorize_payment_def refund_payment_def Let_def
           split: option.splits prod.splits sum.splits)

interpretation pay: idempotent_service payment_step payment_key pay_store
  by unfold_locales (auto intro: payment_hit payment_fill payment_keep)

section \<open>The table and the store agree\<close>

text \<open>
  In a running process every cached key has exactly the row its response names, and every row was
  written by a request whose key is cached.
\<close>

abbreviation key_ids :: "payment list \<Rightarrow> (string \<times> string) list" where
  "key_ids ps \<equiv> map (\<lambda>p. (pay_key p, payment_id p)) ps"

definition payment_inv :: "payment_service \<Rightarrow> bool" where
  "payment_inv s \<longleftrightarrow>
     payments_ok (payments s) \<and>
     dom (pay_store s) = set (map pay_key (payments s)) \<and>
     (\<forall>k e. idem_get (pay_store s) k = Some e \<longrightarrow>
        (k, pr_payment_id (ie_response e)) \<in> set (key_ids (payments s)))"

lemma payments_ok_snoc:
  "payments_ok (ps @ [p]) \<longleftrightarrow>
     payments_ok ps \<and> payment_id p \<notin> set (map payment_id ps) \<and> pay_key p \<notin> set (map pay_key ps)"
  by (auto simp: payments_ok_def)

lemma payment_inv_insert:
  assumes "payment_inv s" and "map pay_key db = map pay_key (payments s)"
    and "key_ids db = key_ids (payments s)" and "payments_ok (db @ [row])"
    and "pr_payment_id r = payment_id row" and "k = pay_key row"
  shows "payment_inv (s\<lparr>payments := db @ [row], pay_store := idem_set (pay_store s) k r c t\<rparr>)"
  using assms
  by (auto simp: payment_inv_def simp del: set_map split: if_splits)

lemma authorize_payment_inv: "payment_inv s \<Longrightarrow> payment_inv (snd (authorize_payment s env r))"
  by (auto simp: authorize_payment_def Let_def get_session_commit
           dest: get_session_error intro!: payment_inv_insert
           split: option.splits prod.splits sum.splits)

lemma refund_payment_inv: "payment_inv s \<Longrightarrow> payment_inv (snd (refund_payment s env r))"
  by (auto simp: refund_payment_def refund_body_def Let_def get_session_commit
           dest: get_session_error intro!: payment_inv_insert
           split: option.splits prod.splits sum.splits)

lemma payment_step_inv: "payment_inv s \<Longrightarrow> payment_inv (snd (payment_step s q))"
  by (induction s q rule: payment_step.induct) (simp_all add: authorize_payment_inv refund_payment_inv)

interpretation ledger: guarded_service payment_step "\<lambda>_. True" payment_inv
  by unfold_locales (rule payment_step_inv)

lemma payment_run_inv: "payment_inv s \<Longrightarrow> payment_inv (run payment_step s qs)"
  by (rule ledger.run_inv) (simp_all add: list_all_iff)

section \<open>The ledger\<close>

text \<open>
  What an order has been charged on balance: the amounts of its rows that the bank did not
  decline, refunds being negative.
\<close>

definition net_charged :: "payment list \<Rightarrow> string \<Rightarrow> rat" where
  "net_charged ps oid =
     sum_list (map pay_amount (filter (\<lambda>p. pay_order_id p = oid \<and> pay_status p \<noteq> payment_status_value DECLINED) ps))"

lemma net_charged_append [simp]: "net_charged (ps @ qs) oid = net_charged ps oid + net_charged qs oid"
  by (simp add: net_charged_def)

lemma net_charged_Nil [simp]: "net_charged [] oid = 0"
  by (simp add: net_charged_def)

lemma net_charged_Cons:
  "net_charged (p # ps) oid =
     (if pay_order_id p = oid \<and> pay_status p \<noteq> payment_status_value DECLINED then pay_amount p else 0)
       + net_charged ps oid"
  by (simp add: net_charged_def)

lemma net_charged_mark:
  assumes "find q ps = Some p" and "pay_status p \<noteq> payment_status_value DECLINED"
    and "v \<noteq> payment_status_value DECLINED"
  shows "net_charged (update_first q (\<lambda>p. p\<lparr>pay_status := v\<rparr>) ps) oid = net_charged ps oid"
  using update_first_split [OF assms(1), of "\<lambda>p. p\<lparr>pay_status := v\<rparr>"] assms(2,3)
  by (auto simp: net_charged_Cons)

lemma authorize_payment_new:
  assumes inv: "payment_inv s" and new: "idem_get (pay_store s) (auth_key r) = None"
      "''PAY-'' @ env_uuid env \<notin> payment_id ` set (payments s)"
  shows "\<exists>resp s'. authorize_payment s env r = (Inr resp, s') \<and> pr_payment_id resp = ''PAY-'' @ env_uuid env \<and>
     pr_status resp = (if always_fail_over s < auth_amount r \<or> env_random env < fail_rate s then DECLINED else AUTHORIZED) \<and>
     dom (pay_store s') = insert (auth_key r) (dom (pay_store s)) \<and>
     payments s' = payments s @ [\<lparr>payment_id = ''PAY-'' @ env_uuid env, pay_order_id = auth_order_id r,
       pay_amount = auth_amount r, pay_status = payment_status_value (pr_status resp), pay_key = auth_key r\<rparr>]"
proof -
  have "auth_key r \<notin> set (map pay_key (payments s))"
    using inv new(1) by (auto simp: payment_inv_def idem_get_def simp del: set_map)
  then have "payments_ok (payments s @ [\<lparr>payment_id = ''PAY-'' @ env_uuid env, pay_order_id = auth_order_id r,
       pay_amount = auth_amount r, pay_status = x, pay_key = auth_key r\<rparr>])" for x
    using inv new(2) unfolding payments_ok_snoc by (simp add: payment_inv_def)
  with new(1) show ?thesis by (simp add: authorize_payment_def get_session_def Let_def)
qed

text \<open>
  A refund whose key and refund id are new succeeds as soon as the payment exists; nothing asks
  for the state of the original payment.
\<close>

lemma refund_payment_new:
  assumes inv: "payment_inv s"
    and orig: "find (\<lambda>p. payment_id p = ref_payment_id r) (payments s) = Some p"
    and new: "idem_get (pay_store s) (ref_key r) = None"
      "''REF-'' @ env_uuid env \<notin> payment_id ` set (payments s)"
  shows "\<exists>resp s'. refund_payment s env r = (Inr resp, s') \<and> pr_payment_id resp = ''REF-'' @ env_uuid env \<and>
     pr_amount resp = pay_amount p \<and> pr_status resp = REFUNDED \<and>
     dom (pay_store s') = insert (ref_key r) (dom (pay_store s)) \<and>
     payments s' = update_first (\<lambda>p. payment_id p = ref_payment_id r)
         (\<lambda>p. p\<lparr>pay_status := payment_status_value REFUNDED\<rparr>) (payments s)
       @ [\<lparr>payment_id = ''REF-'' @ env_uuid env, pay_order_id = ref_order_id r,
           pay_amount = - pay_amount p, pay_status = payment_status_value REFUNDED, pay_key = ref_key r\<rparr>]"
proof -
  have key: "ref_key r \<notin> set (map pay_key (payments s))"
    using inv new(1) by (auto simp: payment_inv_def idem_get_def simp del: set_map)
  have ok: "payments_ok (update_first (\<lambda>p. payment_id p = ref_payment_id r)
         (\<lambda>p. p\<lparr>pay_status := payment_status_value REFUNDED\<rparr>) (payments s)
       @ [\<lparr>payment_id = ''REF-'' @ env_uuid env, pay_order_id = ref_order_id r,
           pay_amount = - pay_amount p, pay_status = payment_status_value REFUNDED, pay_key = ref_key r\<rparr>])"
    using inv key new(2) unfolding payments_ok_snoc
    by (simp add: payment_inv_def payments_ok_def del: set_map) (simp add: image_def)
  show ?thesis
    using orig new(1) ok by (simp add: refund_payment_def refund_body_def get_session_def Let_def)
qed

lemma refund_find_again:
  "find (\<lambda>p. payment_id p = i) ps = Some p \<Longrightarrow>
   find (\<lambda>p. payment_id p = i) (update_first (\<lambda>p. payment_id p = i) (\<lambda>p. p\<lparr>pay_status := v\<rparr>) ps @ rs)
     = Some (p\<lparr>pay_status := v\<rparr>)"
  by (induction ps) (auto split: if_splits)

section \<open>Properties\<close>

text \<open>
  A payment request (authorisation or refund) that has been answered is answered the same way
  ever after: any later request with the same idempotency key returns the same response and
  changes neither the payments table nor the store, whatever requests were handled in between.
\<close>

theorem payment_replay:
  assumes "payment_step s q = (Inr r, s')" and "payment_key q' = payment_key q"
  shows "payment_step (run payment_step s' qs) q' = (Inr r, run payment_step s' qs)"
  using assms by (rule pay.replay)

text \<open>
  Starting from an empty table and an empty store, after any sequence of authorisations and
  refunds the payments table holds exactly one row for every idempotency key that was answered
  and none for any other key, and no two rows share a payment id.
\<close>

theorem payment_exactly_one_row:
  assumes "payments s = []" and "pay_store s = idem_init"
  shows "length (filter (\<lambda>p. pay_key p = k) (payments (run payment_step s qs)))
           = (if idem_exists (pay_store (run payment_step s qs)) k then 1 else 0)
       \<and> distinct (map payment_id (payments (run payment_step s qs)))"
proof -
  have "payment_inv s"
    using assms by (simp add: payment_inv_def payments_ok_def idem_init_def idem_get_def)
  then have inv: "payment_inv (run payment_step s qs)" (is "payment_inv ?t")
    by (rule payment_run_inv)
  have "k \<in> pay_key ` set (payments ?t) \<Longrightarrow> length (filter (\<lambda>p. pay_key p = k) (payments ?t)) = 1"
    using inv filter_key_singleton [of pay_key "payments ?t"]
    by (auto simp: payment_inv_def payments_ok_def)
  then show ?thesis
    using inv by (auto simp: payment_inv_def payments_ok_def idem_exists_def filter_empty_conv)
qed

text \<open>
  A new authorisation is declined exactly when the amount exceeds the always-fail threshold or
  the random draw falls below the failure rate; the row written carries that decision, and the
  order's net charge grows by the amount exactly when the payment was authorised.
\<close>

theorem authorize_decision:
  assumes "authorize_payment s env req = (Inr r, s')"
    and "idem_get (pay_store s) (auth_key req) = None"
  shows "(pr_status r = DECLINED \<longleftrightarrow> always_fail_over s < auth_amount req \<or> env_random env < fail_rate s)
    \<and> pr_status r \<in> {AUTHORIZED, DECLINED}
    \<and> payments s' = payments s @ [\<lparr>payment_id = pr_payment_id r, pay_order_id = auth_order_id req,
         pay_amount = auth_amount req, pay_status = payment_status_value (pr_status r),
         pay_key = auth_key req\<rparr>]
    \<and> net_charged (payments s') (auth_order_id req)
        = net_charged (payments s) (auth_order_id req) + (if pr_status r = AUTHORIZED then auth_amount req else 0)"
  using assms
  by (auto simp: authorize_payment_def Let_def get_session_commit net_charged_Cons
           split: prod.splits sum.splits if_splits)

text \<open>
  Refunding an authorised payment of the order under a new key and a new refund id succeeds,
  answers with the original amount, marks the original row refunded and lowers the order's net
  charge by exactly that amount.
\<close>

theorem refund_returns_the_charge:
  assumes "payment_inv s"
    and "find (\<lambda>p. payment_id p = ref_payment_id r) (payments s) = Some p"
    and "pay_status p = payment_status_value AUTHORIZED" and "pay_order_id p = ref_order_id r"
    and "idem_get (pay_store s) (ref_key r) = None"
    and "''REF-'' @ env_uuid env \<notin> payment_id ` set (payments s)"
  shows "\<exists>resp s'. refund_payment s env r = (Inr resp, s') \<and> pr_amount resp = pay_amount p \<and>
     find (\<lambda>p. payment_id p = ref_payment_id r) (payments s')
       = Some (p\<lparr>pay_status := payment_status_value REFUNDED\<rparr>) \<and>
     net_charged (payments s') (ref_order_id r) = net_charged (payments s) (ref_order_id r) - pay_amount p"
proof -
  obtain resp s' where s': "refund_payment s env r = (Inr resp, s')" "pr_amount resp = pay_amount p"
    "payments s' = update_first (\<lambda>p. payment_id p = ref_payment_id r)
         (\<lambda>p. p\<lparr>pay_status := payment_status_value REFUNDED\<rparr>) (payments s)
       @ [\<lparr>payment_id = ''REF-'' @ env_uuid env, pay_order_id = ref_order_id r,
           pay_amount = - pay_amount p, pay_status = payment_status_value REFUNDED, pay_key = ref_key r\<rparr>]"
    using refund_payment_new [OF assms(1,2,5,6)] by auto
  have "net_charged (payments s') (ref_order_id r) = net_charged (payments s) (ref_order_id r) - pay_amount p"
    unfolding s'(3) net_charged_append
    by (subst net_charged_mark [OF assms(2)]) (simp_all add: assms(3) net_charged_Cons)
  with s' refund_find_again [OF assms(2)] show ?thesis by simp
qed

text \<open>
  Nothing limits a payment to one refund. Two refund requests for the same authorised payment
  with different new keys both succeed, and together they return twice what was charged.
\<close>

theorem refund_twice_returns_double:
  assumes inv: "payment_inv s"
    and orig: "find (\<lambda>p. payment_id p = i) (payments s) = Some p"
    and auth: "pay_status p = payment_status_value AUTHORIZED"
    and keys: "k1 \<noteq> k2" "idem_get (pay_store s) k1 = None" "idem_get (pay_store s) k2 = None"
    and ids: "env_uuid e1 \<noteq> env_uuid e2" "''REF-'' @ env_uuid e1 \<notin> payment_id ` set (payments s)"
      "''REF-'' @ env_uuid e2 \<notin> payment_id ` set (payments s)"
  shows "\<exists>x1 s1 x2 s2.
     refund_payment s e1 \<lparr>ref_order_id = oid, ref_payment_id = i, ref_key = k1\<rparr> = (Inr x1, s1) \<and>
     refund_payment s1 e2 \<lparr>ref_order_id = oid, ref_payment_id = i, ref_key = k2\<rparr> = (Inr x2, s2) \<and>
     net_charged (payments s2) oid = net_charged (payments s) oid - 2 * pay_amount p"
proof -
  let ?r1 = "\<lparr>ref_order_id = oid, ref_payment_id = i, ref_key = k1\<rparr>"
  let ?r2 = "\<lparr>ref_order_id = oid, ref_payment_id = i, ref_key = k2\<rparr>"
  let ?mark = "update_first (\<lambda>p. payment_id p = i) (\<lambda>p. p\<lparr>pay_status := payment_status_value REFUNDED\<rparr>)"
  let ?row = "\<lambda>e k. \<lparr>payment_id = ''REF-'' @ env_uuid e, pay_order_id = oid, pay_amount = - pay_amount p,
     pay_status = payment_status_value REFUNDED, pay_key = k\<rparr>"
  obtain x1 s1 where s1: "refund_payment s e1 ?r1 = (Inr x1, s1)"
    "dom (pay_store s1) = insert k1 (dom (pay_store s))"
    "payments s1 = ?mark (payments s) @ [?row e1 k1]"
    using refund_payment_new [OF inv, of ?r1 p e1] orig keys ids by auto
  have inv1: "payment_inv s1" using refund_payment_inv [OF inv, of e1 ?r1] s1(1) by simp
  have find1: "find (\<lambda>p. payment_id p = i) (payments s1) = Some (p\<lparr>pay_status := payment_status_value REFUNDED\<rparr>)"
    unfolding s1(3) by (rule refund_find_again [OF orig])
  have new1: "idem_get (pay_store s1) k2 = None"
    using keys(1,3) s1(2) by (auto simp: idem_get_def dom_def)
  have ids1: "''REF-'' @ env_uuid e2 \<notin> payment_id ` set (payments s1)"
  proof -
    have "payment_id ` set (?mark (payments s)) = payment_id ` set (payments s)"
      by (simp flip: set_map)
    then show ?thesis using ids s1(3) by simp
  qed
  obtain x2 s2 where s2: "refund_payment s1 e2 ?r2 = (Inr x2, s2)"
    "payments s2 = ?mark (payments s1) @ [?row e2 k2]"
    using refund_payment_new [OF inv1, of ?r2 _ e2] find1 new1 ids1 by auto
  have "net_charged (payments s1) oid = net_charged (payments s) oid - pay_amount p"
    unfolding s1(3) net_charged_append
    by (subst net_charged_mark [OF orig]) (simp_all add: auth net_charged_Cons)
  moreover have "net_charged (payments s2) oid = net_charged (payments s1) oid - pay_amount p"
    unfolding s2(2) net_charged_append
    by (subst net_charged_mark [OF find1]) (simp_all add: net_charged_Cons)
  ultimately show ?thesis using s1(1) s2(1) by auto
qed

section \<open>Witnesses\<close>

definition demo_env :: "string \<Rightarrow> call_env" where
  "demo_env u = \<lparr>env_uuid = u, env_random = 1 / 2, env_now = 0\<rparr>"

definition demo_payments :: payment_service where
  "demo_payments = \<lparr>payments = [], pay_store = idem_init, fail_rate = 0, latency_ms = 0,
     always_fail_over = 999999\<rparr>"

definition demo_charge :: authorize_request where
  "demo_charge = \<lparr>auth_order_id = ''ORD-1'', auth_amount = 450, auth_key = ''k1''\<rparr>"

definition demo_charged :: payment_service where
  "demo_charged = snd (authorize_payment demo_payments (demo_env ''A'') demo_charge)"

lemmas demo_payment_defs = demo_env_def demo_payments_def demo_charge_def demo_charged_def

lemma demo_payments_inv: "payment_inv demo_payments"
  by (simp add: demo_payments_def payment_inv_def payments_ok_def idem_init_def idem_get_def)

lemma demo_charged_inv: "payment_inv demo_charged"
  unfolding demo_charged_def by (rule authorize_payment_inv) (rule demo_payments_inv)

lemma demo_charged_state:
  "payments demo_charged = [\<lparr>payment_id = ''PAY-A'', pay_order_id = ''ORD-1'', pay_amount = 450,
     pay_status = ''AUTHORIZED'', pay_key = ''k1''\<rparr>]"
  "dom (pay_store demo_charged) = {''k1''}"
  by (simp_all add: demo_payment_defs authorize_payment_def get_session_def payments_ok_def
      idem_get_def idem_init_def Let_def)

lemma demo_charged_new_key: "k \<noteq> ''k1'' \<Longrightarrow> idem_get (pay_store demo_charged) k = None"
  using demo_charged_state(2) by (metis domIff idem_get_def singletonD)

lemma demo_authorized:
  "authorize_payment demo_payments (demo_env ''A'') demo_charge =
     (Inr \<lparr>pr_payment_id = ''PAY-A'', pr_order_id = ''ORD-1'', pr_amount = 450, pr_status = AUTHORIZED,
           pr_key = ''k1'', pr_message = Some ''Payment authorized successfully''\<rparr>, demo_charged)"
  by (simp add: demo_payment_defs authorize_payment_def get_session_def payments_ok_def
      idem_get_def idem_init_def Let_def)

lemma demo_run: "run payment_step demo_payments [(demo_env ''A'', Authorize demo_charge)] = demo_charged"
  by (simp add: demo_charged_def)

theorem payment_replay_witness:
  "\<exists>r. payment_step demo_payments (demo_env ''A'', Authorize demo_charge) = (Inr r, demo_charged) \<and>
     payment_step demo_charged (demo_env ''B'', Authorize demo_charge) = (Inr r, demo_charged)"
  using payment_replay [of demo_payments "(demo_env ''A'', Authorize demo_charge)" _ _
      "(demo_env ''B'', Authorize demo_charge)" "[]"] demo_authorized by simp

theorem payment_exactly_one_row_witness:
  "length (filter (\<lambda>p. pay_key p = ''k1'')
     (payments (run payment_step demo_payments [(demo_env ''A'', Authorize demo_charge)]))) = 1"
proof -
  have "payments demo_payments = []" "pay_store demo_payments = idem_init"
    by (simp_all add: demo_payments_def)
  from payment_exactly_one_row [OF this, of "''k1''" "[(demo_env ''A'', Authorize demo_charge)]"]
  show ?thesis unfolding demo_run by (simp add: idem_exists_def demo_charged_state)
qed

theorem authorize_decision_witness:
  "\<exists>r. authorize_payment demo_payments (demo_env ''A'') demo_charge = (Inr r, demo_charged) \<and>
     pr_status r \<noteq> DECLINED \<and> net_charged (payments demo_charged) ''ORD-1'' = 450"
proof -
  have "idem_get (pay_store demo_payments) (auth_key demo_charge) = None"
    by (simp add: demo_payments_def idem_init_def idem_get_def)
  from authorize_decision [OF demo_authorized this] have "net_charged (payments demo_charged) ''ORD-1'' = 450"
    by (simp add: demo_payments_def demo_charge_def net_charged_Cons)
  with demo_authorized show ?thesis by simp
qed

theorem refund_returns_the_charge_witness:
  "\<exists>resp s'. refund_payment demo_charged (demo_env ''B'')
       \<lparr>ref_order_id = ''ORD-1'', ref_payment_id = ''PAY-A'', ref_key = ''k2''\<rparr> = (Inr resp, s') \<and>
     pr_amount resp = 450 \<and> net_charged (payments s') ''ORD-1'' = 0"
proof -
  let ?r = "\<lparr>ref_order_id = ''ORD-1'', ref_payment_id = ''PAY-A'', ref_key = ''k2''\<rparr>"
  have "\<exists>resp s'. refund_payment demo_charged (demo_env ''B'') ?r = (Inr resp, s') \<and>
      pr_amount resp = pay_amount (hd (payments demo_charged)) \<and>
      find (\<lambda>p. payment_id p = ref_payment_id ?r) (payments s')
        = Some ((hd (payments demo_charged))\<lparr>pay_status := payment_status_value REFUNDED\<rparr>) \<and>
      net_charged (payments s') (ref_order_id ?r)
        = net_charged (payments demo_charged) (ref_order_id ?r) - pay_amount (hd (payments demo_charged))"
    by (rule refund_returns_the_charge [OF demo_charged_inv])
       (simp_all add: demo_charged_state demo_charged_new_key demo_env_def)
  then show ?thesis by (auto simp: demo_charged_state net_charged_Cons)
qed

theorem refund_twice_returns_double_witness:
  "\<exists>x1 s1 x2 s2.
     refund_payment demo_charged (demo_env ''B'')
       \<lparr>ref_order_id = ''ORD-1'', ref_payment_id = ''PAY-A'', ref_key = ''k2''\<rparr> = (Inr x1, s1) \<and>
     refund_payment s1 (demo_env ''C'')
       \<lparr>ref_order_id = ''ORD-1'', ref_payment_id = ''PAY-A'', ref_key = ''k3''\<rparr> = (Inr x2, s2) \<and>
     net_charged (payments s2) ''ORD-1'' = - 450"
  using refund_twice_returns_double [OF demo_charged_inv, of "''PAY-A''" _ "''k2''" "''k3''"
      "demo_env ''B''" "demo_env ''C''" "''ORD-1''"]
  by (simp add: demo_charged_state demo_charged_new_key net_charged_Cons demo_env_def)

end
