(* ===== verification/Inventory.thy ===== *)
theory Inventory
  imports Idempotency
begin

text \<open>
  The inventory service, \<^verbatim>\<open>services/inventory/app.py\<close>, with its contracts in
  \<^verbatim>\<open>contracts/inventory.py\<close>: the seeded stock, reservation, compensating release and the
  set-stock endpoint. A handler is one transaction here: reservations take a row lock on every
  item they read (\<^verbatim>\<open>with_for_update\<close>) before changing it.
\<close>

section \<open>Data\<close>

datatype inventory_status = RESERVED | OUT_OF_STOCK | RELEASED

fun inventory_status_value :: "inventory_status \<Rightarrow> string" where
  "inventory_status_value RESERVED = ''RESERVED''"
| "inventory_status_value OUT_OF_STOCK = ''OUT_OF_STOCK''"
| "inventory_status_value RELEASED = ''RELEASED''"

lemma inventory_status_value_inj [simp]:
  "inventory_status_value a = inventory_status_value b \<longleftrightarrow> a = b"
  by (cases a; cases b) simp_all

record inventory_item =
  item_id :: string
  item_name :: string
  stock :: int

text \<open>
  The \<^verbatim>\<open>items\<close> column holds the JSON text of a list of strings; only \<^verbatim>\<open>json.dumps\<close> in
  \<^verbatim>\<open>reserve_stock\<close> writes it and only \<^verbatim>\<open>json.loads\<close> in \<^verbatim>\<open>release_stock\<close> reads it, so the row carries the
  list.
\<close>

record reservation =
  reservation_id :: string
  rsv_order_id :: string
  rsv_items :: "string list"
  rsv_status :: string
  rsv_key :: string

record inventory_db =
  inv_items :: "inventory_item list"
  reservations :: "reservation list"

record reserve_request =
  rq_order_id :: string
  rq_items :: "string list"
  rq_key :: string

record release_request =
  rl_order_id :: string
  rl_reservation_id :: string
  rl_key :: string

record reservation_response =
  rr_reservation_id :: string
  rr_order_id :: string
  rr_status :: inventory_status
  rr_items :: "string list"
  rr_key :: string
  rr_message :: "string option"

record inventory_service =
  inv_db :: inventory_db
  inv_store :: "reservation_response idem_store"

text \<open>The unique constraints of the two tables.\<close>

definition inventory_ok :: "inventory_db \<Rightarrow> bool" where
  "inventory_ok db \<longleftrightarrow> distinct (map item_id (inv_items db)) \<and>
     distinct (map reservation_id (reservations db)) \<and> distinct (map rsv_key (reservations db))"

text \<open>
  The seeding of an empty items table with \<^verbatim>\<open>ITEM-1\<close> to \<^verbatim>\<open>ITEM-20\<close>, 100 of each.
\<close>

definition seed_items :: "inventory_db \<Rightarrow> inventory_db" where
  "seed_items db =
     (if inv_items db = [] then
        db\<lparr>inv_items := map (\<lambda>i. \<lparr>item_id = ''ITEM-'' @ nat_str i, item_name = ''Menu Item '' @ nat_str i,
             stock = 100\<rparr>) [1..<21]\<rparr>
      else db)"

section \<open>Operations\<close>

text \<open>\<^verbatim>\<open>query(InventoryItem).filter(item_id == i).first()\<close> and the stock of an item.\<close>

definition find_item :: "string \<Rightarrow> inventory_db \<Rightarrow> inventory_item option" where
  "find_item i db = find (\<lambda>it. item_id it = i) (inv_items db)"

definition add_stock :: "int \<Rightarrow> string \<Rightarrow> inventory_db \<Rightarrow> inventory_db" where
  "add_stock d i db =
     db\<lparr>inv_items := update_first (\<lambda>it. item_id it = i) (\<lambda>it. it\<lparr>stock := stock it + d\<rparr>) (inv_items db)\<rparr>"

text \<open>\<^verbatim>\<open>get_item_stock\<close>: an unknown item has stock 0.\<close>

definition get_item_stock :: "inventory_service \<Rightarrow> string \<Rightarrow> int" where
  "get_item_stock s i = (case find_item i (inv_db s) of Some it \<Rightarrow> stock it | None \<Rightarrow> 0)"

text \<open>\<^verbatim>\<open>set_stock\<close>.\<close>

definition set_stock :: "inventory_service \<Rightarrow> string \<Rightarrow> int \<Rightarrow> unit outcome \<times> inventory_service" where
  [service_defs]: "set_stock s i n =
     (case get_session inventory_ok
        (\<lambda>db. (Inr (),
           case find_item i db of
             None \<Rightarrow> db\<lparr>inv_items := inv_items db @ [\<lparr>item_id = i, item_name = ''Flash Item '' @ i, stock = n\<rparr>]\<rparr>
           | Some _ \<Rightarrow> db\<lparr>inv_items := update_first (\<lambda>it. item_id it = i) (\<lambda>it. it\<lparr>stock := n\<rparr>) (inv_items db)\<rparr>))
        (inv_db s) of
       (x, db) \<Rightarrow> (x, s\<lparr>inv_db := db\<rparr>))"

text \<open>
  \<^verbatim>\<open>reserve_stock\<close>. The first loop looks for an item that is missing or has no stock and stops the
  reservation there; the second takes one unit per entry of the request's list.
\<close>

fun first_unavailable :: "inventory_db \<Rightarrow> string list \<Rightarrow> string option" where
  "first_unavailable db [] = None"
| "first_unavailable db (i # is) =
     (case find_item i db of
        None \<Rightarrow> Some i
      | Some it \<Rightarrow> if stock it \<le> 0 then Some i else first_unavailable db is)"

fun take_stock :: "string list \<Rightarrow> inventory_db \<Rightarrow> inventory_db" where
  "take_stock [] db = db"
| "take_stock (i # is) db = take_stock is (add_stock (- 1) i db)"

definition reserve_body ::
  "string \<Rightarrow> reserve_request \<Rightarrow> inventory_db \<Rightarrow> string option outcome \<times> inventory_db" where
  [service_defs]: "reserve_body rid req db =
     (case first_unavailable db (rq_items req) of
        Some i \<Rightarrow> (Inr (Some i), db)
      | None \<Rightarrow>
          let db' = take_stock (rq_items req) db in
          (Inr None,
           db'\<lparr>reservations := reservations db' @
             [\<lparr>reservation_id = rid, rsv_order_id = rq_order_id req,
               rsv_items = rq_items req,
               rsv_status = inventory_status_value RESERVED, rsv_key = rq_key req\<rparr>]\<rparr>))"

definition reserve_response ::
  "string \<Rightarrow> reserve_request \<Rightarrow> string option \<Rightarrow> reservation_response" where
  "reserve_response rid req unavailable =
     \<lparr>rr_reservation_id = rid, rr_order_id = rq_order_id req,
      rr_status = (case unavailable of Some i \<Rightarrow> OUT_OF_STOCK | None \<Rightarrow> RESERVED),
      rr_items = rq_items req, rr_key = rq_key req,
      rr_message = Some (case unavailable of Some i \<Rightarrow> ''Item '' @ i @ '' is out of stock''
                         | None \<Rightarrow> ''Stock reserved successfully'')\<rparr>"

definition reserve_stock ::
  "inventory_service \<Rightarrow> call_env \<Rightarrow> reserve_request \<Rightarrow> reservation_response outcome \<times> inventory_service" where
  [service_defs]: "reserve_stock s env req =
     (case idem_get (inv_store s) (rq_key req) of
        Some cached \<Rightarrow> (Inr (ie_response cached), s)
      | None \<Rightarrow>
          let rid = ''RSV-'' @ env_uuid env in
          (case get_session inventory_ok (reserve_body rid req) (inv_db s) of
             (Inl e, db) \<Rightarrow> (Inl e, s\<lparr>inv_db := db\<rparr>)
           | (Inr unavailable, db) \<Rightarrow>
               let response = reserve_response rid req unavailable in
               (Inr response,
                s\<lparr>inv_db := db,
                  inv_store := idem_set (inv_store s) (rq_key req) response 200 (env_now env)\<rparr>)))"

text \<open>
  \<^verbatim>\<open>release_stock\<close>: the items of the reservation are read back from its column, each gives one
  unit back to the item of that name if there is one, and the reservation is marked released.
\<close>

fun give_stock :: "string list \<Rightarrow> inventory_db \<Rightarrow> inventory_db" where
  "give_stock [] db = db"
| "give_stock (i # is) db = give_stock is (add_stock 1 i db)"

definition release_body ::
  "release_request \<Rightarrow> inventory_db \<Rightarrow> string list outcome \<times> inventory_db" where
  [service_defs]: "release_body req db =
     (case find (\<lambda>r. reservation_id r = rl_reservation_id req) (reservations db) of
        None \<Rightarrow> (Inl (HTTPException 404 (''Reservation '' @ rl_reservation_id req @ '' not found'')), db)
      | Some r \<Rightarrow>
          let db' = give_stock (rsv_items r) db in
          (Inr (rsv_items r),
           db'\<lparr>reservations := update_first (\<lambda>r. reservation_id r = rl_reservation_id req)
              (\<lambda>r. r\<lparr>rsv_status := inventory_status_value RELEASED\<rparr>) (reservations db')\<rparr>))"

definition release_stock ::
  "inventory_service \<Rightarrow> call_env \<Rightarrow> release_request \<Rightarrow> reservation_response outcome \<times> inventory_service" where
  [service_defs]: "release_stock s env req =
     (case idem_get (inv_store s) (rl_key req) of
        Some cached \<Rightarrow> (Inr (ie_response cached), s)
      | None \<Rightarrow>
          (case get_session inventory_ok (release_body req) (inv_db s) of
             (Inl e, db) \<Rightarrow> (Inl e, s\<lparr>inv_db := db\<rparr>)
           | (Inr is, db) \<Rightarrow>
               let response = \<lparr>rr_reservation_id = rl_reservation_id req, rr_order_id = rl_order_id req,
                               rr_status = RELEASED, rr_items = is, rr_key = rl_key req,
                               rr_message = Some ''Stock released (compensating action)''\<rparr>
               in (Inr response,
                   s\<lparr>inv_db := db,
                     inv_store := idem_set (inv_store s) (rl_key req) response 200 (env_now env)\<rparr>)))"

text \<open>The keyed endpoints as one step function.\<close>

datatype inventory_request = Reserve reserve_request | Release release_request

fun inventory_step ::
  "inventory_service \<Rightarrow> call_env \<times> inventory_request \<Rightarrow> reservation_response outcome \<times> inventory_service" where
  "inventory_step s (env, Reserve r) = reserve_stock s env r"
| "inventory_step s (env, Release r) = release_stock s env r"

fun inventory_key :: "call_env \<times> inventory_request \<Rightarrow> string" where
  "inventory_key (env, Reserve r) = rq_key r"
| "inventory_key (env, Release r) = rl_key r"

text \<open>
  \<^verbatim>\<open>POST /inventory/reserve\<close> with the \<^verbatim>\<open>min_length=1\<close> check of the request schema in front.
\<close>

definition post_reserve ::
  "inventory_service \<Rightarrow> call_env \<Rightarrow> reserve_request \<Rightarrow> reservation_response outcome \<times> inventory_service" where
  "post_reserve s env req =
     (if rq_items req \<noteq> [] then reserve_stock s env req
      else (Inl (HTTPException 422 ''List should have at least 1 item''), s))"

section \<open>Idempotency\<close>

lemma inventory_hit:
  "idem_get (inv_store s) (inventory_key q) = Some e \<Longrightarrow> inventory_step s q = (Inr (ie_response e), s)"
  by (induction s q rule: inventory_step.induct) (auto simp: reserve_stock_def release_stock_def)

lemma inventory_fill:
  "inventory_step s q = (Inr r, s') \<Longrightarrow>
     \<exists>e. idem_get (inv_store s') (inventory_key q) = Some e \<and> ie_response e = r"
  by (induction s q rule: inventory_step.induct)
     (auto simp: reserve_stock_def release_stock_def Let_def split: option.splits prod.splits sum.splits)

lemma inventory_keep:
  "idem_get (inv_store s) k = Some e \<Longrightarrow> idem_get (inv_store (snd (inventory_step s q))) k = Some e"
  by (induction s q rule: inventory_step.induct)
     (auto simp: reserve_stock_def release_stock_def Let_def split: option.splits prod.splits sum.splits)

interpretation inv: idempotent_service inventory_step inventory_key inv_store
  by unfold_locales (auto intro: inventory_hit inventory_fill inventory_keep)

section \<open>Stock arithmetic\<close>

definition stock_of :: "inventory_db \<Rightarrow> string \<Rightarrow> int" where
  "stock_of db i = (case find_item i db of Some it \<Rightarrow> stock it | None \<Rightarrow> 0)"

lemma find_item_add_stock:
  "find_item j (add_stock d i db) =
     (if j = i then map_option (\<lambda>it. it\<lparr>stock := stock it + d\<rparr>) (find_item i db) else find_item j db)"
proof -
  have "find (\<lambda>it. item_id it = j)
      (update_first (\<lambda>it. item_id it = i) (\<lambda>it. it\<lparr>stock := stock it + d\<rparr>) xs) =
    (if j = i then map_option (\<lambda>it. it\<lparr>stock := stock it + d\<rparr>) (find (\<lambda>it. item_id it = i) xs)
     else find (\<lambda>it. item_id it = j) xs)" for xs
    by (induction xs) auto
  from this [of "inv_items db"] show ?thesis unfolding find_item_def add_stock_def by simp
qed

lemma find_item_reservations [simp]: "find_item i (db\<lparr>reservations := rs\<rparr>) = find_item i db"
  by (simp add: find_item_def)

lemma stock_of_reservations [simp]: "stock_of (db\<lparr>reservations := rs\<rparr>) i = stock_of db i"
  by (simp add: stock_of_def)

lemma reservations_add_stock [simp]: "reservations (add_stock d i db) = reservations db"
  by (simp add: add_stock_def)

lemma item_ids_add_stock [simp]: "map item_id (inv_items (add_stock d i db)) = map item_id (inv_items db)"
  by (simp add: add_stock_def)

lemma take_stock_frame [simp]:
  "reservations (take_stock is db) = reservations db"
  "map item_id (inv_items (take_stock is db)) = map item_id (inv_items db)"
  by (induction "is" arbitrary: db) auto

lemma give_stock_frame [simp]:
  "reservations (give_stock is db) = reservations db"
  "map item_id (inv_items (give_stock is db)) = map item_id (inv_items db)"
  by (induction "is" arbitrary: db) auto

lemma find_item_None_add [simp]: "find_item j (add_stock d i db) = None \<longleftrightarrow> find_item j db = None"
  by (simp add: find_item_add_stock)

lemma find_item_take_None [simp]: "find_item j (take_stock is db) = None \<longleftrightarrow> find_item j db = None"
  by (induction "is" arbitrary: db) auto

lemma find_item_give_None [simp]: "find_item j (give_stock is db) = None \<longleftrightarrow> find_item j db = None"
  by (induction "is" arbitrary: db) auto

lemma stock_of_add_stock:
  "stock_of (add_stock d i db) j = stock_of db j + (if j = i \<and> find_item j db \<noteq> None then d else 0)"
  by (auto simp: stock_of_def find_item_add_stock split: option.splits)

lemma stock_of_take_stock:
  "find_item j db \<noteq> None \<Longrightarrow> stock_of (take_stock is db) j = stock_of db j - int (count_list is j)"
  by (induction "is" arbitrary: db) (simp_all add: stock_of_add_stock del: not_None_eq)

lemma stock_of_give_stock:
  "find_item j db \<noteq> None \<Longrightarrow> stock_of (give_stock is db) j = stock_of db j + int (count_list is j)"
  by (induction "is" arbitrary: db) (simp_all add: stock_of_add_stock del: not_None_eq)

lemma stock_of_missing: "find_item j db = None \<Longrightarrow> stock_of db j = 0"
  by (simp add: stock_of_def)

lemma first_unavailable_None:
  "first_unavailable db is = None \<longleftrightarrow> (\<forall>i \<in> set is. 0 < stock_of db i)"
  by (induction "is") (auto simp: stock_of_def split: option.splits)

lemma stock_of_pos_item: "0 < stock_of db i \<Longrightarrow> find_item i db \<noteq> None"
  by (auto simp: stock_of_def split: option.splits)

text \<open>
  Every keyed request leaves the tables' constraints intact, and while the process runs every
  reservation row belongs to a cached key.
\<close>

definition inventory_inv :: "inventory_service \<Rightarrow> bool" where
  "inventory_inv s \<longleftrightarrow> inventory_ok (inv_db s) \<and> set (map rsv_key (reservations (inv_db s))) \<subseteq> dom (inv_store s)"

lemma inventory_step_inv: "inventory_inv s \<Longrightarrow> inventory_inv (snd (inventory_step s q))"
proof (induction s q rule: inventory_step.induct)
  case (1 s env r)
  then show ?case
    by (auto simp: reserve_stock_def reserve_body_def Let_def get_session_commit inventory_inv_def
             dest!: get_session_error simp del: set_map split: option.splits prod.splits sum.splits)
next
  case (2 s env r)
  then show ?case
    by (auto simp: release_stock_def release_body_def Let_def get_session_commit inventory_inv_def
             dest!: get_session_error simp del: set_map split: option.splits prod.splits sum.splits)
qed

text \<open>What a reservation and a release under a new key do, when their ids are new.\<close>

lemma reserve_stock_new:
  assumes inv: "inventory_inv s" and key: "idem_get (inv_store s) (rq_key req) = None"
    and rid: "''RSV-'' @ env_uuid env \<notin> set (map reservation_id (reservations (inv_db s)))"
  shows "\<exists>s'. reserve_stock s env req
       = (Inr (reserve_response (''RSV-'' @ env_uuid env) req (first_unavailable (inv_db s) (rq_items req))), s')
     \<and> dom (inv_store s') = insert (rq_key req) (dom (inv_store s))
     \<and> inv_db s' = (if first_unavailable (inv_db s) (rq_items req) = None
         then (take_stock (rq_items req) (inv_db s))\<lparr>reservations := reservations (inv_db s) @
             [\<lparr>reservation_id = ''RSV-'' @ env_uuid env, rsv_order_id = rq_order_id req,
               rsv_items = rq_items req, rsv_status = inventory_status_value RESERVED, rsv_key = rq_key req\<rparr>]\<rparr>
         else inv_db s)"
proof -
  have "rq_key req \<notin> set (map rsv_key (reservations (inv_db s)))"
    using inv key by (auto simp: inventory_inv_def idem_get_def simp del: set_map)
  with inv rid show ?thesis
    by (auto simp: reserve_stock_def reserve_body_def get_session_def inventory_inv_def inventory_ok_def
          key Let_def simp del: set_map split: option.splits)
qed

lemma release_stock_new:
  assumes inv: "inventory_inv s" and key: "idem_get (inv_store s) (rl_key req) = None"
    and rsv: "find (\<lambda>r. reservation_id r = rl_reservation_id req) (reservations (inv_db s)) = Some r"
  shows "\<exists>resp s'. release_stock s env req = (Inr resp, s') \<and> rr_status resp = RELEASED
     \<and> rr_items resp = rsv_items r
     \<and> dom (inv_store s') = insert (rl_key req) (dom (inv_store s))
     \<and> inv_db s' = (give_stock (rsv_items r) (inv_db s))\<lparr>reservations :=
          update_first (\<lambda>r. reservation_id r = rl_reservation_id req)
            (\<lambda>r. r\<lparr>rsv_status := inventory_status_value RELEASED\<rparr>) (reservations (inv_db s))\<rparr>"
  using inv key rsv
  by (simp add: release_stock_def release_body_def get_session_def inventory_inv_def inventory_ok_def Let_def)

lemma reserve_outcome:
  assumes "reserve_stock s env req = (Inr r, s')" and "idem_get (inv_store s) (rq_key req) = None"
  shows "(rr_status r = RESERVED \<longleftrightarrow> (\<forall>i \<in> set (rq_items req). 0 < stock_of (inv_db s) i))
    \<and> (rr_status r = RESERVED \<longrightarrow>
         (\<forall>j. stock_of (inv_db s') j = stock_of (inv_db s) j - int (count_list (rq_items req) j)))
    \<and> (rr_status r \<noteq> RESERVED \<longrightarrow> rr_status r = OUT_OF_STOCK \<and> inv_db s' = inv_db s)"
proof (cases "first_unavailable (inv_db s) (rq_items req)")
  case None
  then have pos: "\<forall>i \<in> set (rq_items req). 0 < stock_of (inv_db s) i"
    by (simp add: first_unavailable_None)
  have s': "rr_status r = RESERVED" "\<exists>x. inv_db s' = (take_stock (rq_items req) (inv_db s))\<lparr>reservations := x\<rparr>"
    using assms None
    by (auto simp: reserve_stock_def reserve_body_def reserve_response_def get_session_commit Let_def
             split: prod.splits sum.splits)
  have "stock_of (inv_db s') j = stock_of (inv_db s) j - int (count_list (rq_items req) j)" for j
  proof (cases "find_item j (inv_db s)")
    case None
    with pos have "j \<notin> set (rq_items req)" by (auto dest: stock_of_pos_item)
    with None s'(2) show ?thesis by (auto simp: stock_of_missing)
  next
    case (Some it)
    then show ?thesis using s'(2) stock_of_take_stock [of j "inv_db s" "rq_items req"] by auto
  qed
  with pos s'(1) show ?thesis by simp
next
  case (Some i)
  then have "\<not> (\<forall>i \<in> set (rq_items req). 0 < stock_of (inv_db s) i)"
    using first_unavailable_None [of "inv_db s" "rq_items req"] by simp
  then show ?thesis using assms Some
    by (auto simp: reserve_stock_def reserve_body_def reserve_response_def get_session_commit Let_def
             split: prod.splits sum.splits)
qed

section \<open>Units of an item\<close>

text \<open>Units that live reservations hold, and the row update a release makes.\<close>

definition outstanding :: "inventory_db \<Rightarrow> string \<Rightarrow> int" where
  "outstanding db i =
     sum_list (map (\<lambda>r. int (count_list (rsv_items r) i))
       (filter (\<lambda>r. rsv_status r = inventory_status_value RESERVED) (reservations db)))"

lemma outstanding_frame [simp]:
  "outstanding (take_stock is db) i = outstanding db i"
  "outstanding (give_stock is db) i = outstanding db i"
  by (simp_all add: outstanding_def)

lemma outstanding_snoc:
  "outstanding (db\<lparr>reservations := rs @ [r]\<rparr>) i = outstanding (db\<lparr>reservations := rs\<rparr>) i +
     (if rsv_status r = inventory_status_value RESERVED then int (count_list (rsv_items r) i) else 0)"
  by (simp add: outstanding_def)

lemma outstanding_release:
  assumes "find q (reservations db) = Some r" and "rsv_status r = inventory_status_value RESERVED"
  shows "outstanding (db\<lparr>reservations := update_first q
            (\<lambda>r. r\<lparr>rsv_status := inventory_status_value RELEASED\<rparr>) (reservations db)\<rparr>) i
         = outstanding db i - int (count_list (rsv_items r) i)"
  using update_first_split [OF assms(1), of "\<lambda>r. r\<lparr>rsv_status := inventory_status_value RELEASED\<rparr>"] assms(2)
  by (auto simp: outstanding_def)

text \<open>A release is of a live reservation when the row it names, if any, is still reserved.\<close>

fun releases_live :: "inventory_service \<Rightarrow> call_env \<times> inventory_request \<Rightarrow> bool" where
  "releases_live s (env, Reserve r) = True"
| "releases_live s (env, Release r) =
     (case find (\<lambda>x. reservation_id x = rl_reservation_id r) (reservations (inv_db s)) of
        Some x \<Rightarrow> rsv_status x = inventory_status_value RESERVED | None \<Rightarrow> True)"

text \<open>An answered reservation that was granted.\<close>

abbreviation won :: "reservation_response outcome \<Rightarrow> bool" where
  "won out \<equiv> (case out of Inr r \<Rightarrow> rr_status r = RESERVED | Inl e \<Rightarrow> False)"

section \<open>Properties\<close>

text \<open>
  An inventory request (reservation or release) that has been answered, out-of-stock answers
  included, is answered the same way ever after: any later request with the same idempotency key
  returns the same response and changes no stock, no reservation and no cached entry.
\<close>

theorem inventory_replay:
  assumes "inventory_step s q = (Inr r, s')" and "inventory_key q' = inventory_key q"
  shows "inventory_step (run inventory_step s' qs) q' = (Inr r, run inventory_step s' qs)"
  using assms by (rule inv.replay)

text \<open>
  C17: A reservation under a new key is all or nothing. It succeeds exactly when every requested
  item exists with positive stock; then each item's stock drops by the number of times the request
  lists it; otherwise the answer is out of stock and the tables are unchanged.
\<close>

theorem reserve_all_or_nothing:
  assumes "reserve_stock s env req = (Inr r, s')" and "idem_get (inv_store s) (rq_key req) = None"
  shows "(rr_status r = RESERVED \<longleftrightarrow> (\<forall>i \<in> set (rq_items req). 0 < stock_of (inv_db s) i))
    \<and> (rr_status r = RESERVED \<longrightarrow>
         (\<forall>j. stock_of (inv_db s') j = stock_of (inv_db s) j - int (count_list (rq_items req) j)))
    \<and> (rr_status r \<noteq> RESERVED \<longrightarrow> rr_status r = OUT_OF_STOCK \<and> inv_db s' = inv_db s)"
  using assms by (rule reserve_outcome)

text \<open>
  No request whose item list has no repetition drives a stock below zero, whichever way it
  ends.
\<close>

theorem reserve_never_oversells:
  assumes "\<forall>i. 0 \<le> stock_of (inv_db s) i" and "distinct (rq_items req)"
  shows "\<forall>i. 0 \<le> stock_of (inv_db (snd (reserve_stock s env req))) i"
proof (cases "idem_get (inv_store s) (rq_key req)")
  case (Some e)
  with assms(1) show ?thesis by (simp add: reserve_stock_def)
next
  case None
  show ?thesis
  proof (cases "reserve_stock s env req")
    case (Pair out s')
    show ?thesis
    proof (cases out)
      case (Inl e)
      with Pair None have "inv_db s' = inv_db s"
        by (auto simp: reserve_stock_def Let_def dest!: get_session_error split: prod.splits sum.splits)
      with Pair assms(1) show ?thesis by simp
    next
      case (Inr r)
      with Pair have out: "reserve_stock s env req = (Inr r, s')" by simp
      have "0 \<le> stock_of (inv_db s') i" for i
      proof (cases "rr_status r = RESERVED \<and> i \<in> set (rq_items req)")
        case True
        with reserve_outcome [OF out None] have "0 < stock_of (inv_db s) i"
          and "stock_of (inv_db s') i = stock_of (inv_db s) i - int (count_list (rq_items req) i)" by auto
        moreover have "count_list (rq_items req) i = 1" using True assms(2) by (simp add: distinct_count_list)
        ultimately show ?thesis by simp
      next
        case False
        with reserve_outcome [OF out None] assms(1) show ?thesis
          by (cases "rr_status r = RESERVED") auto
      qed
      with Pair show ?thesis by simp
    qed
  qed
qed

text \<open>
  A request that lists an item more often than it is in stock is still accepted when every
  listed item has some stock, because availability is checked per entry before anything is taken;
  the stock of that item then becomes negative.
\<close>

theorem reserve_repeated_item_oversells:
  assumes "inventory_inv s" and "idem_get (inv_store s) (rq_key req) = None"
    and "''RSV-'' @ env_uuid env \<notin> set (map reservation_id (reservations (inv_db s)))"
    and "\<forall>i \<in> set (rq_items req). 0 < stock_of (inv_db s) i"
    and "stock_of (inv_db s) i < int (count_list (rq_items req) i)"
  shows "\<exists>r s'. reserve_stock s env req = (Inr r, s') \<and> rr_status r = RESERVED \<and> stock_of (inv_db s') i < 0"
proof -
  obtain s' where s': "reserve_stock s env req
      = (Inr (reserve_response (''RSV-'' @ env_uuid env) req (first_unavailable (inv_db s) (rq_items req))), s')"
    using reserve_stock_new [OF assms(1-3)] by blast
  moreover have "first_unavailable (inv_db s) (rq_items req) = None"
    using assms(4) by (simp add: first_unavailable_None)
  ultimately show ?thesis
    using reserve_outcome [OF s' assms(2)] assms(4,5) by (auto simp: reserve_response_def)
qed

text \<open>
  C18: The flash sale. A sequence of single-unit reservations of one item under distinct new keys
  (reservations of the same item are serialised by its row lock) wins exactly as many times as
  there are units, and leaves the stock at what remains, never below zero.
\<close>

theorem flash_sale:
  assumes "inventory_inv s" and "stock_of (inv_db s) i = int k"
    and "\<forall>(env, q) \<in> set qs. \<exists>r. q = Reserve r \<and> rq_items r = [i]"
    and "distinct (map inventory_key qs)" and "\<forall>q \<in> set qs. idem_get (inv_store s) (inventory_key q) = None"
    and "distinct (map (\<lambda>q. env_uuid (fst q)) qs)"
    and "\<forall>q \<in> set qs. ''RSV-'' @ env_uuid (fst q) \<notin> set (map reservation_id (reservations (inv_db s)))"
  shows "length (filter won (outcomes inventory_step s qs)) = min k (length qs)
       \<and> stock_of (inv_db (run inventory_step s qs)) i = int (k - length qs)"
  using assms
proof (induction qs arbitrary: s k)
  case Nil
  then show ?case by simp
next
  case (Cons q qs)
  obtain env r where q: "q = (env, Reserve r)" and items: "rq_items r = [i]"
    using Cons.prems(3) by (cases q) auto
  have key: "idem_get (inv_store s) (rq_key r) = None"
    and rid: "''RSV-'' @ env_uuid env \<notin> set (map reservation_id (reservations (inv_db s)))"
    using Cons.prems(5,7) q by auto
  let ?u = "first_unavailable (inv_db s) (rq_items r)"
  obtain s' where s': "reserve_stock s env r = (Inr (reserve_response (''RSV-'' @ env_uuid env) r ?u), s')"
    "dom (inv_store s') = insert (rq_key r) (dom (inv_store s))"
    "inv_db s' = (if ?u = None
         then (take_stock (rq_items r) (inv_db s))\<lparr>reservations := reservations (inv_db s) @
             [\<lparr>reservation_id = ''RSV-'' @ env_uuid env, rsv_order_id = rq_order_id r,
               rsv_items = rq_items r, rsv_status = inventory_status_value RESERVED, rsv_key = rq_key r\<rparr>]\<rparr>
         else inv_db s)"
    using reserve_stock_new [OF Cons.prems(1) key rid] by blast
  have u: "?u = None \<longleftrightarrow> 0 < k" using Cons.prems(2) items
    by (simp add: first_unavailable_None del: first_unavailable.simps)
  have stock': "stock_of (inv_db s') i = int (k - 1)"
    using reserve_outcome [OF s'(1) key] u Cons.prems(2) items
    by (cases "0 < k") (auto simp: reserve_response_def)
  have "length (filter won (outcomes inventory_step s' qs)) = min (k - 1) (length qs)
       \<and> stock_of (inv_db (run inventory_step s' qs)) i = int ((k - 1) - length qs)"
  proof (rule Cons.IH)
    show "inventory_inv s'" using inventory_step_inv [OF Cons.prems(1), of q] q s'(1) by simp
    show "stock_of (inv_db s') i = int (k - 1)" by (rule stock')
    show "\<forall>(env, q) \<in> set qs. \<exists>r. q = Reserve r \<and> rq_items r = [i]" using Cons.prems(3) by simp
    show "distinct (map inventory_key qs)" "distinct (map (\<lambda>q. env_uuid (fst q)) qs)" using Cons.prems(4,6) by auto
    show "\<forall>q' \<in> set qs. idem_get (inv_store s') (inventory_key q') = None"
    proof
      fix q' assume mem: "q' \<in> set qs"
      have "inventory_key q' \<noteq> rq_key r"
        using distinct_map_ConsD [OF Cons.prems(4) mem] q by simp
      moreover have "inventory_key q' \<notin> dom (inv_store s)"
        using Cons.prems(5) mem by (simp add: idem_get_def domIff)
      ultimately have "inventory_key q' \<notin> dom (inv_store s')" unfolding s'(2) by simp
      then show "idem_get (inv_store s') (inventory_key q') = None" by (simp add: idem_get_def domIff)
    qed
    show "\<forall>q' \<in> set qs. ''RSV-'' @ env_uuid (fst q') \<notin> set (map reservation_id (reservations (inv_db s')))"
    proof
      fix q' assume mem: "q' \<in> set qs"
      have "env_uuid (fst q') \<noteq> env_uuid env"
        using distinct_map_ConsD [OF Cons.prems(6) mem] q by simp
      then show "''RSV-'' @ env_uuid (fst q') \<notin> set (map reservation_id (reservations (inv_db s')))"
        using s'(3) Cons.prems(7) mem by auto
    qed
  qed
  then show ?case using q s'(1) u by (auto simp: reserve_response_def split: option.splits)
qed

text \<open>
  C23: Releasing a reservation undoes it. If a reservation under a new key succeeded, releasing it
  under another new key puts every item's stock back to what it was before the reservation.
\<close>

theorem release_undoes_reserve:
  assumes inv: "inventory_inv s" and key: "idem_get (inv_store s) (rq_key req) = None"
    and rid: "''RSV-'' @ env_uuid env \<notin> set (map reservation_id (reservations (inv_db s)))"
    and ok: "reserve_stock s env req = (Inr r, s')" "rr_status r = RESERVED"
    and rel: "rl_reservation_id rel = rr_reservation_id r" "rl_key rel \<noteq> rq_key req"
      "idem_get (inv_store s) (rl_key rel) = None"
  shows "\<exists>resp s''. release_stock s' env' rel = (Inr resp, s'') \<and> rr_status resp = RELEASED \<and>
     (\<forall>i. stock_of (inv_db s'') i = stock_of (inv_db s) i)"
proof -
  let ?u = "first_unavailable (inv_db s) (rq_items req)"
  have r: "r = reserve_response (''RSV-'' @ env_uuid env) req ?u"
    and dom: "dom (inv_store s') = insert (rq_key req) (dom (inv_store s))"
    and db: "?u = None \<Longrightarrow> inv_db s' = (take_stock (rq_items req) (inv_db s))\<lparr>reservations := reservations (inv_db s) @
        [\<lparr>reservation_id = ''RSV-'' @ env_uuid env, rsv_order_id = rq_order_id req,
          rsv_items = rq_items req, rsv_status = inventory_status_value RESERVED, rsv_key = rq_key req\<rparr>]\<rparr>"
    using reserve_stock_new [OF inv key rid] ok(1) by auto
  have u: "?u = None" using r ok(2) by (cases ?u) (auto simp: reserve_response_def)
  have inv': "inventory_inv s'" using inventory_step_inv [OF inv, of "(env, Reserve req)"] ok(1) by simp
  have key': "idem_get (inv_store s') (rl_key rel) = None"
    using dom rel(2,3) by (metis domIff idem_get_def insertE)
  have rel_id: "rl_reservation_id rel = ''RSV-'' @ env_uuid env"
    using rel(1) r by (simp add: reserve_response_def)
  have "find (\<lambda>x. reservation_id x = rl_reservation_id rel) (reservations (inv_db s)) = None"
    unfolding find_None_iff rel_id using rid by (metis image_eqI list.set_map)
  then have rsv: "find (\<lambda>x. reservation_id x = rl_reservation_id rel) (reservations (inv_db s'))
      = Some \<lparr>reservation_id = ''RSV-'' @ env_uuid env, rsv_order_id = rq_order_id req,
          rsv_items = rq_items req, rsv_status = inventory_status_value RESERVED, rsv_key = rq_key req\<rparr>"
    using db [OF u] rel_id by (simp add: find_snoc)
  obtain resp s'' where s'': "release_stock s' env' rel = (Inr resp, s'')" "rr_status resp = RELEASED"
    "\<exists>x. inv_db s'' = (give_stock (rq_items req) (inv_db s'))\<lparr>reservations := x\<rparr>"
    using release_stock_new [OF inv' key' rsv, of env'] by auto
  have "stock_of (inv_db s'') i = stock_of (inv_db s) i" for i
  proof (cases "find_item i (inv_db s)")
    case None
    with db [OF u] s''(3) show ?thesis by (auto simp: stock_of_missing)
  next
    case (Some it)
    then have "find_item i (inv_db s') \<noteq> None" using db [OF u] by simp
    from stock_of_give_stock [OF this] Some s''(3) db [OF u] show ?thesis
      using stock_of_take_stock [of i "inv_db s" "rq_items req"] by auto
  qed
  with s'' show ?thesis by blast
qed

text \<open>
  C22: Units are conserved. For every item of the table, the stock plus the units held by live
  reservations is unchanged by any reservation, and by any release whose reservation is still
  live, whether the request succeeds, is replayed or fails.
\<close>

theorem units_conserved:
  assumes item: "find_item i (inv_db s) \<noteq> None" and live: "releases_live s q"
  shows "stock_of (inv_db (snd (inventory_step s q))) i + outstanding (inv_db (snd (inventory_step s q))) i
       = stock_of (inv_db s) i + outstanding (inv_db s) i"
  using assms
proof (induction s q rule: inventory_step.induct)
  case (1 s env r)
  have same: "outstanding ((take_stock js (inv_db s))\<lparr>reservations := reservations (inv_db s)\<rparr>) i
     = outstanding (inv_db s) i" for js by (simp add: outstanding_def)
  from 1 show ?case
    by (auto simp: reserve_stock_def reserve_body_def Let_def get_session_commit outstanding_snoc same
          stock_of_take_stock dest!: get_session_error split: option.splits prod.splits sum.splits)
next
  case (2 s env r)
  have released: "outstanding ((give_stock js (inv_db s))\<lparr>reservations :=
        update_first (\<lambda>x. reservation_id x = rl_reservation_id r)
          (\<lambda>x. x\<lparr>rsv_status := inventory_status_value RELEASED\<rparr>) (reservations (inv_db s))\<rparr>) i
     = outstanding (inv_db s) i - int (count_list (rsv_items x) i)"
    if "find (\<lambda>x. reservation_id x = rl_reservation_id r) (reservations (inv_db s)) = Some x"
      "rsv_status x = inventory_status_value RESERVED" for x js
    using outstanding_release [of "\<lambda>x. reservation_id x = rl_reservation_id r" "give_stock js (inv_db s)" x i] that
    by simp
  from 2 show ?case
    by (auto simp: release_stock_def release_body_def Let_def get_session_commit released [simplified]
          stock_of_give_stock dest!: get_session_error split: option.splits prod.splits sum.splits)
qed

text \<open>
  Nothing limits a reservation to one release. A release of a reservation that has already
  been released, sent under a new key, succeeds and adds the reserved units to the stock again.
\<close>

theorem release_twice_inflates_stock:
  assumes "inventory_inv s" and "idem_get (inv_store s) (rl_key rel) = None"
    and "find (\<lambda>x. reservation_id x = rl_reservation_id rel) (reservations (inv_db s)) = Some x"
    and "rsv_status x = inventory_status_value RELEASED" and "find_item i (inv_db s) \<noteq> None"
  shows "\<exists>resp s'. release_stock s env rel = (Inr resp, s') \<and>
     stock_of (inv_db s') i = stock_of (inv_db s) i + int (count_list (rsv_items x) i)"
proof -
  obtain resp s' where "release_stock s env rel = (Inr resp, s')"
    "\<exists>y. inv_db s' = (give_stock (rsv_items x) (inv_db s))\<lparr>reservations := y\<rparr>"
    using release_stock_new [OF assms(1-3), of env] by auto
  with stock_of_give_stock [OF assms(5)] show ?thesis by auto
qed

section \<open>Witnesses\<close>

definition demo_call :: "string \<Rightarrow> call_env" where
  "demo_call u = \<lparr>env_uuid = u, env_random = 0, env_now = 0\<rparr>"

definition demo_inventory :: "int \<Rightarrow> inventory_service" where
  "demo_inventory n = \<lparr>inv_db = \<lparr>inv_items = [\<lparr>item_id = ''FLASH'', item_name = ''Flash Item FLASH'', stock = n\<rparr>],
     reservations = []\<rparr>, inv_store = idem_init\<rparr>"

definition demo_reserve :: "string \<Rightarrow> string list \<Rightarrow> reserve_request" where
  "demo_reserve k is = \<lparr>rq_order_id = ''ORD-1'', rq_items = is, rq_key = k\<rparr>"

lemma demo_inventory_inv: "inventory_inv (demo_inventory n)"
  by (simp add: demo_inventory_def inventory_inv_def inventory_ok_def)

lemma demo_inventory_new [simp]: "idem_get (inv_store (demo_inventory n)) k = None"
  by (simp add: demo_inventory_def idem_get_def idem_init_def)

lemma demo_inventory_rows [simp]: "reservations (inv_db (demo_inventory n)) = []"
  by (simp add: demo_inventory_def)

lemma demo_inventory_dom [simp]: "dom (inv_store (demo_inventory n)) = {}"
  by (simp add: demo_inventory_def idem_init_def)

lemma demo_inventory_stock: "stock_of (inv_db (demo_inventory n)) i = (if i = ''FLASH'' then n else 0)"
  by (simp add: demo_inventory_def stock_of_def find_item_def)

lemma demo_reserved:
  assumes "0 < n" and "\<forall>i \<in> set is. i = ''FLASH''"
  shows "\<exists>r s'. reserve_stock (demo_inventory n) (demo_call ''A'') (demo_reserve ''k1'' is) = (Inr r, s') \<and>
    rr_status r = RESERVED \<and> rr_reservation_id r = ''RSV-A'' \<and> dom (inv_store s') = {''k1''}"
proof -
  have "first_unavailable (inv_db (demo_inventory n)) is = None"
    using assms by (simp add: first_unavailable_None demo_inventory_stock)
  then show ?thesis
    using reserve_stock_new [OF demo_inventory_inv, of n "demo_reserve ''k1'' is" "demo_call ''A''"]
    by (auto simp: demo_reserve_def demo_call_def reserve_response_def)
qed

theorem inventory_replay_witness:
  "\<exists>r s'. inventory_step (demo_inventory 1) (demo_call ''A'', Reserve (demo_reserve ''k1'' [''FLASH''])) = (Inr r, s') \<and>
     inventory_step s' (demo_call ''B'', Reserve (demo_reserve ''k1'' [''FLASH''])) = (Inr r, s')"
proof -
  obtain r s' where "reserve_stock (demo_inventory 1) (demo_call ''A'') (demo_reserve ''k1'' [''FLASH'']) = (Inr r, s')"
    using demo_reserved [of 1 "[''FLASH'']"] by auto
  then show ?thesis
    using inventory_replay [of "demo_inventory 1" "(demo_call ''A'', Reserve (demo_reserve ''k1'' [''FLASH'']))" r s'
        "(demo_call ''B'', Reserve (demo_reserve ''k1'' [''FLASH'']))" "[]"] by auto
qed

theorem reserve_all_or_nothing_witness:
  "\<exists>r s'. reserve_stock (demo_inventory 3) (demo_call ''A'') (demo_reserve ''k1'' [''FLASH'', ''FLASH'']) = (Inr r, s') \<and>
     stock_of (inv_db s') ''FLASH'' = 1"
proof -
  obtain r s' where r: "reserve_stock (demo_inventory 3) (demo_call ''A'') (demo_reserve ''k1'' [''FLASH'', ''FLASH'']) = (Inr r, s')"
    "rr_status r = RESERVED"
    using demo_reserved [of 3 "[''FLASH'', ''FLASH'']"] by auto
  have "stock_of (inv_db s') ''FLASH'' = 1"
    using reserve_all_or_nothing [OF r(1)] r(2) by (simp add: demo_inventory_stock demo_reserve_def)
  with r(1) show ?thesis by blast
qed

theorem reserve_never_oversells_witness:
  "\<forall>i. 0 \<le> stock_of (inv_db (snd (reserve_stock (demo_inventory 1) (demo_call ''A'') (demo_reserve ''k1'' [''FLASH''])))) i"
  by (rule reserve_never_oversells) (simp_all add: demo_inventory_stock demo_reserve_def)

theorem reserve_repeated_item_oversells_witness:
  "\<exists>r s'. reserve_stock (demo_inventory 1) (demo_call ''A'') (demo_reserve ''k1'' [''FLASH'', ''FLASH'']) = (Inr r, s') \<and>
     rr_status r = RESERVED \<and> stock_of (inv_db s') ''FLASH'' < 0"
  by (rule reserve_repeated_item_oversells [OF demo_inventory_inv])
     (simp_all add: demo_inventory_stock demo_reserve_def)

theorem flash_sale_witness:
  "length (filter won (outcomes inventory_step (demo_inventory 1)
       [(demo_call ''A'', Reserve (demo_reserve ''k1'' [''FLASH''])), (demo_call ''B'', Reserve (demo_reserve ''k2'' [''FLASH'']))])) = 1"
  using flash_sale [OF demo_inventory_inv, of 1 "''FLASH''" 1
      "[(demo_call ''A'', Reserve (demo_reserve ''k1'' [''FLASH''])), (demo_call ''B'', Reserve (demo_reserve ''k2'' [''FLASH'']))]"]
  by (simp add: demo_inventory_stock demo_reserve_def demo_call_def)

theorem release_undoes_reserve_witness:
  "\<exists>r s' resp s''. reserve_stock (demo_inventory 1) (demo_call ''A'') (demo_reserve ''k1'' [''FLASH'']) = (Inr r, s') \<and>
     release_stock s' (demo_call ''B'') \<lparr>rl_order_id = ''ORD-1'', rl_reservation_id = ''RSV-A'', rl_key = ''k2''\<rparr> = (Inr resp, s'') \<and>
     stock_of (inv_db s'') ''FLASH'' = 1"
proof -
  obtain r s' where r: "reserve_stock (demo_inventory 1) (demo_call ''A'') (demo_reserve ''k1'' [''FLASH'']) = (Inr r, s')"
    "rr_status r = RESERVED" "rr_reservation_id r = ''RSV-A''"
    using demo_reserved [of 1 "[''FLASH'']"] by auto
  let ?rel = "\<lparr>rl_order_id = ''ORD-1'', rl_reservation_id = ''RSV-A'', rl_key = ''k2''\<rparr>"
  have "\<exists>resp s''. release_stock s' (demo_call ''B'') ?rel = (Inr resp, s'') \<and> rr_status resp = RELEASED \<and>
     (\<forall>i. stock_of (inv_db s'') i = stock_of (inv_db (demo_inventory 1)) i)"
    by (rule release_undoes_reserve [OF demo_inventory_inv _ _ r(1,2)])
       (simp_all add: r(3) demo_reserve_def)
  with r(1) show ?thesis by (auto simp: demo_inventory_stock)
qed

theorem units_conserved_witness:
  "stock_of (inv_db (snd (inventory_step (demo_inventory 1) (demo_call ''A'', Reserve (demo_reserve ''k1'' [''FLASH'']))))) ''FLASH''
     + outstanding (inv_db (snd (inventory_step (demo_inventory 1) (demo_call ''A'', Reserve (demo_reserve ''k1'' [''FLASH'']))))) ''FLASH'' = 1"
  using units_conserved [of "''FLASH''" "demo_inventory 1" "(demo_call ''A'', Reserve (demo_reserve ''k1'' [''FLASH'']))"]
  by (simp add: demo_inventory_stock outstanding_def) (simp add: demo_inventory_def find_item_def)

definition demo_released :: inventory_service where
  "demo_released = (demo_inventory 1)\<lparr>inv_db := (inv_db (demo_inventory 1))\<lparr>reservations :=
     [\<lparr>reservation_id = ''RSV-A'', rsv_order_id = ''ORD-1'', rsv_items = [''FLASH''],
       rsv_status = ''RELEASED'', rsv_key = ''k1''\<rparr>]\<rparr>,
     inv_store := idem_set idem_init ''k1'' (reserve_response ''RSV-A'' (demo_reserve ''k1'' [''FLASH'']) None) 200 0\<rparr>"

theorem release_twice_inflates_stock_witness:
  "\<exists>resp s'. release_stock demo_released (demo_call ''C'')
      \<lparr>rl_order_id = ''ORD-1'', rl_reservation_id = ''RSV-A'', rl_key = ''k3''\<rparr> = (Inr resp, s') \<and>
     stock_of (inv_db s') ''FLASH'' = 2"
proof -
  have inv: "inventory_inv demo_released"
    by (simp add: demo_released_def demo_inventory_def inventory_inv_def inventory_ok_def)
  show ?thesis
    using release_twice_inflates_stock [OF inv, of
        "\<lparr>rl_order_id = ''ORD-1'', rl_reservation_id = ''RSV-A'', rl_key = ''k3''\<rparr>" _ "''FLASH''" "demo_call ''C''"]
    by (simp add: demo_released_def demo_inventory_def find_item_def stock_of_def idem_init_def)
       (simp add: idem_get_def)
qed

end
