(* ===== verification/Security.thy ===== *)
theory Security
  imports Prelude
begin

text \<open>
  Tokens, passwords and signatures: \<^verbatim>\<open>core/security.py\<close>, the FastAPI dependencies of
  \<^verbatim>\<open>core/auth_middleware.py\<close>, and the roles and contexts of \<^verbatim>\<open>contracts/auth.py\<close>. PyJWT, bcrypt and HMAC
  are parameters; \<open>jwt_ok\<close> and \<open>bcrypt_ok\<close> state the documented behaviour the code relies on.
\<close>

section \<open>Contracts\<close>

datatype user_role = CUSTOMER | ADMIN | MERCHANT

fun user_role_value :: "user_role \<Rightarrow> string" where
  "user_role_value CUSTOMER = ''customer''"
| "user_role_value ADMIN = ''admin''"
| "user_role_value MERCHANT = ''merchant''"

text \<open>\<^verbatim>\<open>UserRole(v)\<close>.\<close>

definition user_role_of :: "json \<Rightarrow> user_role outcome" where
  "user_role_of v =
     (case find (\<lambda>r. JStr (user_role_value r) = v) [CUSTOMER, ADMIN, MERCHANT] of
        Some r \<Rightarrow> Inr r
      | None \<Rightarrow> Inl (ValueError ''not a valid UserRole''))"

lemma user_role_of_value [simp]: "user_role_of (JStr (user_role_value r)) = Inr r"
  by (cases r) (simp_all add: user_role_of_def)

record auth_context =
  user_id :: json
  auth_role :: user_role
  tenant_id :: json

section \<open>Tokens\<close>

text \<open>
  The JWT library: \<open>jwt_encode\<close> signs a payload, \<open>jwt_decode\<close> verifies the signature and the expiry at
  the given time and returns the payload.
\<close>

record 'tok jwt_lib =
  jwt_encode :: "string \<Rightarrow> json_dict \<Rightarrow> 'tok"
  jwt_decode :: "string \<Rightarrow> time \<Rightarrow> 'tok \<Rightarrow> json_dict outcome"

abbreviation ACCESS_TOKEN_EXPIRE :: rat where
  "ACCESS_TOKEN_EXPIRE \<equiv> 15 * 60"

abbreviation REFRESH_TOKEN_EXPIRE :: rat where
  "REFRESH_TOKEN_EXPIRE \<equiv> 7 * 24 * 60 * 60"

text \<open>
  \<^verbatim>\<open>jwt.encode\<close> turns \<^verbatim>\<open>datetime\<close> claims into whole seconds; the payloads below carry them as such.
\<close>

definition numeric_date :: "time \<Rightarrow> json" where
  "numeric_date t = JInt \<lfloor>t\<rfloor>"

definition create_access_token ::
  "'tok jwt_lib \<Rightarrow> string \<Rightarrow> time \<Rightarrow> string \<Rightarrow> string \<Rightarrow> string option \<Rightarrow> 'tok" where
  "create_access_token lib secret now uid role tenant =
     (let payload = [(''sub'', JStr uid), (''role'', JStr role), (''type'', JStr ''access''),
                     (''iat'', numeric_date now), (''exp'', numeric_date (now + ACCESS_TOKEN_EXPIRE))]
      in jwt_encode lib secret
           (case tenant of
              Some t \<Rightarrow> if t \<noteq> [] then payload @ [(''tenant_id'', JStr t)] else payload
            | None \<Rightarrow> payload))"

definition create_refresh_token :: "'tok jwt_lib \<Rightarrow> string \<Rightarrow> time \<Rightarrow> string \<Rightarrow> 'tok" where
  "create_refresh_token lib secret now uid =
     jwt_encode lib secret
       [(''sub'', JStr uid), (''type'', JStr ''refresh''), (''iat'', numeric_date now),
        (''exp'', numeric_date (now + REFRESH_TOKEN_EXPIRE))]"

definition decode_token :: "'tok jwt_lib \<Rightarrow> string \<Rightarrow> time \<Rightarrow> 'tok \<Rightarrow> json_dict outcome" where
  "decode_token lib secret now token = jwt_decode lib secret now token"

text \<open>The two verifiers translate the library's exceptions into \<^verbatim>\<open>ValueError\<close>.\<close>

fun token_error :: "string \<Rightarrow> py_exn \<Rightarrow> py_exn" where
  "token_error kind ExpiredSignatureError = ValueError (kind @ '' token has expired'')"
| "token_error kind (InvalidTokenError m) = ValueError (''Invalid token: '' @ m)"
| "token_error kind e = e"

definition verify_access_token :: "'tok jwt_lib \<Rightarrow> string \<Rightarrow> time \<Rightarrow> 'tok \<Rightarrow> json_dict outcome" where
  "verify_access_token lib secret now token =
     (case decode_token lib secret now token of
        Inl e \<Rightarrow> Inl (token_error ''Access'' e)
      | Inr payload \<Rightarrow>
          if dict_get payload ''type'' \<noteq> JStr ''access'' then Inl (ValueError ''Not an access token'') else Inr payload)"

definition verify_refresh_token :: "'tok jwt_lib \<Rightarrow> string \<Rightarrow> time \<Rightarrow> 'tok \<Rightarrow> json_dict outcome" where
  "verify_refresh_token lib secret now token =
     (case decode_token lib secret now token of
        Inl e \<Rightarrow> Inl (token_error ''Refresh'' e)
      | Inr payload \<Rightarrow>
          if dict_get payload ''type'' \<noteq> JStr ''refresh'' then Inl (ValueError ''Not a refresh token'') else Inr payload)"

section \<open>Dependencies\<close>

text \<open>The context of a verified payload; a missing claim or an unknown role raises.\<close>

definition context_of :: "json_dict \<Rightarrow> auth_context outcome" where
  "context_of payload =
     (case dict_index payload ''sub'' of
        Inl e \<Rightarrow> Inl e
      | Inr sub \<Rightarrow>
          (case dict_index payload ''role'' of
             Inl e \<Rightarrow> Inl e
           | Inr r \<Rightarrow>
               (case user_role_of r of
                  Inl e \<Rightarrow> Inl e
                | Inr role \<Rightarrow> Inr \<lparr>user_id = sub, auth_role = role, tenant_id = dict_get payload ''tenant_id''\<rparr>)))"

definition get_current_user :: "'tok jwt_lib \<Rightarrow> string \<Rightarrow> time \<Rightarrow> 'tok option \<Rightarrow> auth_context outcome" where
  "get_current_user lib secret now credentials =
     (case credentials of
        None \<Rightarrow> Inl (HTTPException 401 ''Missing authorization header. Send: Authorization: Bearer <token>'')
      | Some token \<Rightarrow>
          (case verify_access_token lib secret now token of
             Inl (ValueError m) \<Rightarrow> Inl (HTTPException 401 m)
           | Inl e \<Rightarrow> Inl e
           | Inr payload \<Rightarrow> context_of payload))"

definition require_role :: "user_role list \<Rightarrow> auth_context outcome \<Rightarrow> auth_context outcome" where
  "require_role allowed_roles auth =
     (case auth of
        Inl e \<Rightarrow> Inl e
      | Inr a \<Rightarrow>
          if auth_role a \<notin> set allowed_roles then
            Inl (HTTPException 403 (''Insufficient permissions. Required role: '' @
              py_join '', '' (map user_role_value allowed_roles)))
          else Inr a)"

definition get_optional_user :: "'tok jwt_lib \<Rightarrow> string \<Rightarrow> time \<Rightarrow> 'tok option \<Rightarrow> auth_context option outcome" where
  "get_optional_user lib secret now credentials =
     (case credentials of
        None \<Rightarrow> Inr None
      | Some token \<Rightarrow>
          (case (case verify_access_token lib secret now token of
                   Inl e \<Rightarrow> Inl e
                 | Inr payload \<Rightarrow> context_of payload) of
             Inr a \<Rightarrow> Inr (Some a)
           | Inl (ValueError m) \<Rightarrow> Inr None
           | Inl e \<Rightarrow> Inl e))"

section \<open>Passwords and signatures\<close>

text \<open>bcrypt: \<open>hashpw\<close> of a password and a salt, and \<open>checkpw\<close>.\<close>

record bcrypt_lib =
  hashpw :: "string \<Rightarrow> string \<Rightarrow> string"
  checkpw :: "string \<Rightarrow> string \<Rightarrow> bool"

definition hash_password :: "bcrypt_lib \<Rightarrow> string \<Rightarrow> string \<Rightarrow> string" where
  "hash_password lib salt plain_password = hashpw lib plain_password salt"

definition verify_password :: "bcrypt_lib \<Rightarrow> string \<Rightarrow> string \<Rightarrow> bool" where
  "verify_password lib plain_password hashed_password = checkpw lib plain_password hashed_password"

definition generate_api_key_pair :: "string \<Rightarrow> string \<Rightarrow> string \<times> string" where
  "generate_api_key_pair token_hex token_urlsafe = (''dlvq_live_'' @ token_hex, ''dlvq_sec_'' @ token_urlsafe)"

text \<open>\<open>hmac_hex\<close> is \<^verbatim>\<open>hmac.new(secret, payload, sha256).hexdigest()\<close>; the payload is of any type of bytes.\<close>

definition compute_hmac_signature :: "(string \<Rightarrow> 'b \<Rightarrow> string) \<Rightarrow> string \<Rightarrow> 'b \<Rightarrow> string" where
  "compute_hmac_signature hmac_hex secret payload_bytes = ''sha256='' @ hmac_hex secret payload_bytes"

definition verify_hmac_signature :: "(string \<Rightarrow> 'b \<Rightarrow> string) \<Rightarrow> string \<Rightarrow> 'b \<Rightarrow> string option \<Rightarrow> bool" where
  "verify_hmac_signature hmac_hex secret payload_bytes signature_header =
     (case signature_header of
        None \<Rightarrow> False
      | Some s \<Rightarrow> if s = [] then False else compute_hmac_signature hmac_hex secret payload_bytes = s)"

section \<open>Lemmas\<close>

text \<open>
  PyJWT: a token decodes under its own secret to its payload until the expiry it carries, and to
  \<^verbatim>\<open>ExpiredSignatureError\<close> from then on.
\<close>

definition jwt_ok :: "'tok jwt_lib \<Rightarrow> bool" where
  "jwt_ok lib \<longleftrightarrow>
     (\<forall>secret now payload e. map_of payload ''exp'' = Some (JInt e) \<longrightarrow>
        jwt_decode lib secret now (jwt_encode lib secret payload) =
          (if of_int e \<le> now then Inl ExpiredSignatureError else Inr payload))"

lemma decode_access:
  assumes "jwt_ok lib"
  shows "decode_token lib secret t (create_access_token lib secret now uid role tenant) =
    (if of_int \<lfloor>now + ACCESS_TOKEN_EXPIRE\<rfloor> \<le> t then Inl ExpiredSignatureError
     else Inr ([(''sub'', JStr uid), (''role'', JStr role), (''type'', JStr ''access''),
                (''iat'', numeric_date now), (''exp'', numeric_date (now + ACCESS_TOKEN_EXPIRE))] @
               (case tenant of Some t \<Rightarrow> if t \<noteq> [] then [(''tenant_id'', JStr t)] else [] | None \<Rightarrow> [])))"
  using assms
  by (auto simp: create_access_token_def decode_token_def jwt_ok_def numeric_date_def Let_def split: option.splits)

lemma decode_refresh:
  assumes "jwt_ok lib"
  shows "decode_token lib secret t (create_refresh_token lib secret now uid) =
    (if of_int \<lfloor>now + REFRESH_TOKEN_EXPIRE\<rfloor> \<le> t then Inl ExpiredSignatureError
     else Inr [(''sub'', JStr uid), (''type'', JStr ''refresh''), (''iat'', numeric_date now),
                (''exp'', numeric_date (now + REFRESH_TOKEN_EXPIRE))])"
  using assms by (auto simp: create_refresh_token_def decode_token_def jwt_ok_def numeric_date_def)

text \<open>Tokens as pairs of secret and payload satisfy the contract.\<close>

definition pair_jwt :: "(string \<times> json_dict) jwt_lib" where
  "pair_jwt =
     \<lparr>jwt_encode = (\<lambda>secret payload. (secret, payload)),
      jwt_decode = (\<lambda>secret now (s, payload).
        if s \<noteq> secret then Inl (InvalidTokenError ''Signature verification failed'')
        else (case map_of payload ''exp'' of
                Some (JInt e) \<Rightarrow> if of_int e \<le> now then Inl ExpiredSignatureError else Inr payload
              | _ \<Rightarrow> Inr payload))\<rparr>"

lemma pair_jwt_ok: "jwt_ok pair_jwt"
  by (simp add: jwt_ok_def pair_jwt_def)

section \<open>Properties\<close>

text \<open>
  An access token authenticates its user, and only while it is fresh. \<^verbatim>\<open>get_current_user\<close> on a
  token issued for a user, role and tenant returns exactly that context before the token's expiry,
  fifteen minutes after issue in whole seconds, and answers 401 from then on. A refresh token is never
  accepted in its place, and an access token is never accepted for a refresh.
\<close>

theorem access_token_authenticates:
  assumes "jwt_ok lib"
  shows "get_current_user lib secret t (Some (create_access_token lib secret now uid (user_role_value role) tenant)) =
      (if t < of_int \<lfloor>now + ACCESS_TOKEN_EXPIRE\<rfloor>
       then Inr \<lparr>user_id = JStr uid, auth_role = role,
                 tenant_id = (case tenant of Some x \<Rightarrow> if x \<noteq> [] then JStr x else JNull | None \<Rightarrow> JNull)\<rparr>
       else Inl (HTTPException 401 ''Access token has expired'')) \<and>
    (\<exists>m. get_current_user lib secret t (Some (create_refresh_token lib secret now uid)) = Inl (HTTPException 401 m)) \<and>
    (\<exists>m. verify_refresh_token lib secret t (create_access_token lib secret now uid (user_role_value role) tenant) =
       Inl (ValueError m))"
  by (auto simp: get_current_user_def verify_access_token_def verify_refresh_token_def decode_access [OF assms]
      decode_refresh [OF assms] context_of_def dict_get_or_def dict_index_def not_le split: option.splits)

theorem access_token_authenticates_witness:
  "get_current_user pair_jwt ''s'' 100 (Some (create_access_token pair_jwt ''s'' 0 ''u1'' (user_role_value ADMIN) None)) =
     Inr \<lparr>user_id = JStr ''u1'', auth_role = ADMIN, tenant_id = JNull\<rparr>"
  using access_token_authenticates [OF pair_jwt_ok, of "''s''" 100 0 "''u1''" ADMIN None] by simp

end
