(* ===== verification/Orders.thy ===== *)
theory Orders
  imports Idempotency Outbox Security
begin

text \<open>
  The order service, \<^verbatim>\<open>services/order/app.py\<close>, with its table and contracts
  (\<^verbatim>\<open>services/order/models.py\<close>, \<^verbatim>\<open>contracts/order.py\<close>): creation with the outbox event in the same
  transaction, paginated listing, lookup scoped to the caller, the internal status update and the
  legacy routes. The tables of the order database are the orders and the outbox.
\<close>

section \<open>Data\<close>

datatype order_status = O_CREATED | O_PENDING | O_CONFIRMED | O_CONFIRMED_DEGRADED | O_CANCELLED

fun order_status_value :: "order_status \<Rightarrow> string" where
  "order_status_value O_CREATED = ''CREATED''"
| "order_status_value O_PENDING = ''PENDING''"
| "order_status_value O_CONFIRMED = ''CONFIRMED''"
| "order_status_value O_CONFIRMED_DEGRADED = ''CONFIRMED_DEGRADED''"
| "order_status_value O_CANCELLED = ''CANCELLED''"

record create_order_request =
  co_customer_id :: string
  co_restaurant_id :: string
  co_items :: "string list"
  co_total_amount :: rat

text \<open>The schema's checks: at least one item, a positive total.\<close>

definition valid_create :: "create_order_request \<Rightarrow> bool" where
  "valid_create r \<longleftrightarrow> co_items r \<noteq> [] \<and> co_total_amount r > 0"

record order =
  order_id :: string
  customer_id :: json
  restaurant_id :: string
  order_items :: "string list json_text"
  total_amount :: rat
  order_status :: string
  order_key :: string
  eta_minutes :: "rat option"
  eta_lower :: "rat option"
  eta_upper :: "rat option"
  degraded :: int
  created_at :: time

record order_response =
  or_order_id :: string
  or_status :: order_status
  or_total_amount :: rat
  or_eta_minutes :: "rat option"
  or_eta_lower :: "rat option"
  or_eta_upper :: "rat option"
  or_degraded :: bool

record order_db =
  orders :: "order list"
  outbox :: "outbox_event list"

definition order_db_ok :: "order_db \<Rightarrow> bool" where
  "order_db_ok db \<longleftrightarrow>
     distinct (map order_id (orders db)) \<and> distinct (map order_key (orders db)) \<and>
     distinct (map oe_event_id (outbox db))"

record order_service =
  order_db :: order_db
  order_store :: "order_response idem_store"

record order_env = call_env +
  env_event_uuid :: string   \<comment> \<open>the uuid of the event envelope\<close>
  env_iso :: string          \<comment> \<open>the ISO form of the clock reading\<close>

section \<open>Creating orders\<close>

text \<open>The session of both creation routes: the order row and the outbox row, one transaction.\<close>

definition created_event :: "order_env \<Rightarrow> string \<Rightarrow> json \<Rightarrow> create_order_request \<Rightarrow> string \<Rightarrow> event_envelope" where
  "created_event env oid customer req key =
     \<lparr>event_id = env_event_uuid env, event_type = ORDER_CREATED, event_version = ''1.0.0'', occurred_at = env_iso env,
      ev_correlation_id = oid, ev_idempotency_key = Some key, traceparent = None,
      ev_payload = [(''order_id'', JStr oid), (''customer_id'', customer), (''restaurant_id'', JStr (co_restaurant_id req)),
                    (''items'', JList (map JStr (co_items req))), (''total_amount'', JFloat (co_total_amount req))]\<rparr>"

definition create_body ::
  "order_env \<Rightarrow> string \<Rightarrow> json \<Rightarrow> create_order_request \<Rightarrow> string \<Rightarrow> order_db \<Rightarrow> unit outcome \<times> order_db" where
  "create_body env oid customer req key db =
     (let row = \<lparr>order_id = oid, customer_id = customer, restaurant_id = co_restaurant_id req,
                 order_items = json_dumps (co_items req), total_amount = co_total_amount req,
                 order_status = order_status_value O_CREATED, order_key = key, eta_minutes = None, eta_lower = None,
                 eta_upper = None, degraded = 0, created_at = env_now env\<rparr>;
          event = created_event env oid customer req key
      in (Inr (), db\<lparr>orders := orders db @ [row],
                    outbox := write_outbox_event (env_uuid env) (event_type_value ORDER_CREATED) ''order.created''
                      (map (\<lambda>(k, t). (k, OutText t)) (to_stream_dict event)) (Some (event_id event)) (outbox db)\<rparr>))"

text \<open>What follows the idempotency check in both routes, for the customer the route determined.\<close>

definition place_order ::
  "order_service \<Rightarrow> order_env \<Rightarrow> json \<Rightarrow> create_order_request \<Rightarrow> string \<Rightarrow> order_response outcome \<times> order_service" where
  "place_order s env customer req key =
     (let oid = ''ORD-'' @ env_uuid env;
          response = \<lparr>or_order_id = oid, or_status = O_CREATED, or_total_amount = co_total_amount req,
                      or_eta_minutes = None, or_eta_lower = None, or_eta_upper = None, or_degraded = False\<rparr>
      in (case get_session order_db_ok (create_body env oid customer req key) (order_db s) of
            (Inl e, db) \<Rightarrow> (Inl e, s\<lparr>order_db := db\<rparr>)
          | (Inr _, db) \<Rightarrow>
              (Inr response, s\<lparr>order_db := db, order_store := idem_set (order_store s) key response 202 (env_now env)\<rparr>)))"

definition create_order ::
  "order_service \<Rightarrow> order_env \<Rightarrow> auth_context \<Rightarrow> create_order_request \<Rightarrow> string \<Rightarrow> order_response outcome \<times> order_service" where
  "create_order s env auth req key =
     (case idem_get (order_store s) key of
        Some cached \<Rightarrow> (Inr (ie_response cached), s)
      | None \<Rightarrow> place_order s env (user_id auth) req key)"

definition create_order_legacy ::
  "order_service \<Rightarrow> order_env \<Rightarrow> auth_context option \<Rightarrow> create_order_request \<Rightarrow> string \<Rightarrow> order_response outcome \<times> order_service" where
  "create_order_legacy s env auth req key =
     (let customer = (case auth of Some a \<Rightarrow> user_id a | None \<Rightarrow> JStr (co_customer_id req))
      in (case idem_get (order_store s) key of
            Some cached \<Rightarrow> (Inr (ie_response cached), s)
          | None \<Rightarrow> place_order s env customer req key))"

text \<open>
  The creation routes as one keyed step, after validation; \<open>post_order\<close> is a route with the schema's
  checks in front.
\<close>

datatype order_request =
    PostOrder auth_context create_order_request string
  | PostOrderLegacy "auth_context option" create_order_request string

fun order_step :: "order_service \<Rightarrow> order_env \<times> order_request \<Rightarrow> order_response outcome \<times> order_service" where
  "order_step s (env, PostOrder auth req key) = create_order s env auth req key"
| "order_step s (env, PostOrderLegacy auth req key) = create_order_legacy s env auth req key"

fun order_request_key :: "order_env \<times> order_request \<Rightarrow> string" where
  "order_request_key (env, PostOrder auth req key) = key"
| "order_request_key (env, PostOrderLegacy auth req key) = key"

fun order_request_body :: "order_request \<Rightarrow> create_order_request" where
  "order_request_body (PostOrder auth req key) = req"
| "order_request_body (PostOrderLegacy auth req key) = req"

definition post_order :: "order_service \<Rightarrow> order_env \<times> order_request \<Rightarrow> order_response outcome \<times> order_service" where
  "post_order s q =
     (if valid_create (order_request_body (snd q)) then order_step s q
      else (Inl (HTTPException 422 ''validation error''), s))"

section \<open>Reading orders\<close>

text \<open>The response for a row; a status that is no member of the enum is shown as CREATED.\<close>

definition order_view :: "order \<Rightarrow> order_response" where
  "order_view row =
     \<lparr>or_order_id = order_id row,
      or_status = (case find (\<lambda>st. order_status_value st = order_status row)
                          [O_CREATED, O_PENDING, O_CONFIRMED, O_CONFIRMED_DEGRADED, O_CANCELLED] of
                     Some st \<Rightarrow> st | None \<Rightarrow> O_CREATED),
      or_total_amount = total_amount row, or_eta_minutes = eta_minutes row, or_eta_lower = eta_lower row,
      or_eta_upper = eta_upper row, or_degraded = (degraded row \<noteq> 0)\<rparr>"

record order_page =
  pg_items :: "order_response list"
  pg_total :: int
  pg_page :: int
  pg_limit :: int
  pg_pages :: int
  pg_has_next :: bool
  pg_has_prev :: bool

text \<open>
  \<^verbatim>\<open>list_orders\<close>. \<open>upper\<close> is \<^verbatim>\<open>str.upper\<close>; \<open>arrange\<close> the \<^verbatim>\<open>ORDER BY\<close> the sort parameter selects, some
  rearrangement of the matching rows. Bounds on page and limit are the query schema's.
\<close>

definition valid_page :: "int \<Rightarrow> int \<Rightarrow> bool" where
  "valid_page page limit \<longleftrightarrow> 1 \<le> page \<and> 1 \<le> limit \<and> limit \<le> 100"

definition visible_to :: "auth_context \<Rightarrow> order \<Rightarrow> bool" where
  "visible_to auth row \<longleftrightarrow> (auth_role auth = CUSTOMER \<longrightarrow> customer_id row = user_id auth)"

definition matching :: "(string \<Rightarrow> string) \<Rightarrow> auth_context \<Rightarrow> string option \<Rightarrow> order_db \<Rightarrow> order list" where
  "matching upper auth status db =
     filter (\<lambda>row. visible_to auth row \<and>
        (case status of Some st \<Rightarrow> st \<noteq> [] \<longrightarrow> order_status row = upper st | None \<Rightarrow> True)) (orders db)"

definition list_orders ::
  "(string \<Rightarrow> string) \<Rightarrow> (order list \<Rightarrow> order list) \<Rightarrow> order_db \<Rightarrow> auth_context \<Rightarrow> int \<Rightarrow> int \<Rightarrow> string option \<Rightarrow>
   order_page outcome" where
  "list_orders upper arrange db auth page limit status =
     (if \<not> valid_page page limit then Inl (HTTPException 422 ''validation error'')
      else
        let rows = arrange (matching upper auth status db);
            total = int (length rows);
            offset = (page - 1) * limit;
            page_rows = take (nat limit) (drop (nat offset) rows);
            pages = (if total > 0 then \<lceil>(of_int total / of_int limit :: rat)\<rceil> else 1)
        in Inr \<lparr>pg_items = map order_view page_rows, pg_total = total, pg_page = page, pg_limit = limit, pg_pages = pages,
                pg_has_next = (page < pages), pg_has_prev = (page > 1)\<rparr>)"

definition order_not_found :: "string \<Rightarrow> py_exn" where
  "order_not_found oid = HTTPException 404 (''Order '' @ oid @ '' not found'')"

definition get_order :: "order_db \<Rightarrow> auth_context \<Rightarrow> string \<Rightarrow> order_response outcome" where
  "get_order db auth oid =
     (case find (\<lambda>row. order_id row = oid \<and> visible_to auth row) (orders db) of
        None \<Rightarrow> Inl (order_not_found oid)
      | Some row \<Rightarrow> Inr (order_view row))"

definition get_order_legacy :: "order_db \<Rightarrow> string \<Rightarrow> order_response outcome" where
  "get_order_legacy db oid =
     (case find (\<lambda>row. order_id row = oid) (orders db) of
        None \<Rightarrow> Inl (order_not_found oid)
      | Some row \<Rightarrow> Inr (order_view row))"

section \<open>Updating orders\<close>

text \<open>
  \<^verbatim>\<open>update_order_status\<close>: the parameters come from the query string, so \<^verbatim>\<open>new_status\<close> must be there;
  the ETA columns change only when an ETA is given.
\<close>

record update_params =
  up_new_status :: "string option"
  up_eta_minutes :: "rat option"
  up_eta_lower :: "rat option"
  up_eta_upper :: "rat option"
  up_degraded :: bool

definition apply_update :: "string \<Rightarrow> update_params \<Rightarrow> order \<Rightarrow> order" where
  "apply_update st q row =
     (let row = row\<lparr>order_status := st\<rparr>
      in (case up_eta_minutes q of
            None \<Rightarrow> row
          | Some m \<Rightarrow> row\<lparr>eta_minutes := Some m, eta_lower := up_eta_lower q, eta_upper := up_eta_upper q,
                         degraded := (if up_degraded q then 1 else 0)\<rparr>))"

definition update_order_status :: "order_service \<Rightarrow> string \<Rightarrow> update_params \<Rightarrow> json_dict outcome \<times> order_service" where
  "update_order_status s oid q =
     (case up_new_status q of
        None \<Rightarrow> (Inl (HTTPException 422 ''Field required: new_status''), s)
      | Some st \<Rightarrow>
          (case get_session order_db_ok
                  (\<lambda>db. case find (\<lambda>row. order_id row = oid) (orders db) of
                          None \<Rightarrow> (Inl (order_not_found oid), db)
                        | Some row \<Rightarrow> (Inr (), db\<lparr>orders := update_first (\<lambda>row. order_id row = oid) (apply_update st q) (orders db)\<rparr>))
                  (order_db s) of
             (Inl e, db) \<Rightarrow> (Inl e, s\<lparr>order_db := db\<rparr>)
           | (Inr _, db) \<Rightarrow> (Inr [(''order_id'', JStr oid), (''status'', JStr st)], s\<lparr>order_db := db\<rparr>)))"

section \<open>Idempotency\<close>

lemma place_order_store:
  "place_order s env c req key = (Inr r, s') \<Longrightarrow> \<exists>e. idem_get (order_store s') key = Some e \<and> ie_response e = r"
  "idem_get (order_store s) key = None \<Longrightarrow> idem_get (order_store s) k = Some e \<Longrightarrow>
     idem_get (order_store (snd (place_order s env c req key))) k = Some e"
  by (auto simp: place_order_def Let_def split: prod.splits sum.splits)

interpretation ord: idempotent_service order_step order_request_key order_store
proof
  fix s :: order_service and q e assume "idem_get (order_store s) (order_request_key q) = Some e"
  then show "order_step s q = (Inr (ie_response e), s)"
    by (induction s q rule: order_step.induct) (auto simp: create_order_def create_order_legacy_def)
next
  fix s :: order_service and q r s' assume "order_step s q = (Inr r, s')"
  then show "\<exists>e. idem_get (order_store s') (order_request_key q) = Some e \<and> ie_response e = r"
    by (induction s q rule: order_step.induct)
       (auto simp: create_order_def create_order_legacy_def Let_def dest: place_order_store(1) split: option.splits)
next
  fix s :: order_service and k e q assume "idem_get (order_store s) k = Some e"
  then show "idem_get (order_store (snd (order_step s q))) k = Some e"
    by (induction s q rule: order_step.induct)
       (auto simp: create_order_def create_order_legacy_def Let_def place_order_store(2) split: option.splits)
qed

section \<open>Orders and their events\<close>

definition order_payload :: "order \<Rightarrow> json_dict" where
  "order_payload row =
     [(''order_id'', JStr (order_id row)), (''customer_id'', customer_id row), (''restaurant_id'', JStr (restaurant_id row)),
      (''items'', case order_items row of JsonText is \<Rightarrow> JList (map JStr is) | RawText _ \<Rightarrow> JNull),
      (''total_amount'', JFloat (total_amount row))]"

text \<open>An outbox row announces an order: what a consumer decodes from it is that order's creation.\<close>

definition announces :: "order \<Rightarrow> outbox_event \<Rightarrow> bool" where
  "announces row ev \<longleftrightarrow>
     (\<exists>fields e. message (\<lambda>_. []) ev = Some (''order.created'', fields) \<and>
        from_stream_dict (\<lambda>_. []) ([], [], []) fields = Inr e \<and> event_type e = ORDER_CREATED \<and>
        ev_correlation_id e = order_id row \<and> ev_payload e = order_payload row)"

definition order_inv :: "order_service \<Rightarrow> bool" where
  "order_inv s \<longleftrightarrow> order_db_ok (order_db s) \<and> list_all2 announces (orders (order_db s)) (outbox (order_db s)) \<and>
     dom (order_store s) = set (map order_key (orders (order_db s)))"

text \<open>Everything that changes the service: creations and status updates.\<close>

datatype order_op = Create "order_env \<times> order_request" | Update string update_params

fun order_op_step :: "order_service \<Rightarrow> order_op \<Rightarrow> unit \<times> order_service" where
  "order_op_step s (Create q) = ((), snd (post_order s q))"
| "order_op_step s (Update oid q) = ((), snd (update_order_status s oid q))"

lemma created_announced:
  assumes "create_body env oid customer req key db = (Inr (), db')"
  shows "\<exists>row ev. orders db' = orders db @ [row] \<and> outbox db' = outbox db @ [ev] \<and> announces row ev \<and> order_key row = key"
proof -
  let ?e = "created_event env oid customer req key"
  let ?out = "write_outbox_event (env_uuid env) (event_type_value ORDER_CREATED) ''order.created''
      (map (\<lambda>(k, t). (k, OutText t)) (to_stream_dict ?e)) (Some (event_id ?e)) (outbox db)"
  obtain row where row: "orders db' = orders db @ [row]" "order_key row = key" "order_id row = oid"
    "order_payload row = ev_payload ?e" and out: "outbox db' = ?out"
    using assms by (auto simp: create_body_def Let_def order_payload_def created_event_def json_dumps_def)
  have ann: "announces row (last ?out)"
    unfolding announces_def message_written using row
    by (simp add: from_to_stream_dict) (simp add: created_event_def)
  have "outbox db' = outbox db @ [last ?out]" unfolding out by (simp add: write_outbox_event_def)
  with row ann show ?thesis by blast
qed

lemma place_order_inv:
  assumes "order_inv s"
  shows "order_inv (snd (place_order s env c req key))"
proof (cases "get_session order_db_ok (create_body env (''ORD-'' @ env_uuid env) c req key) (order_db s)")
  case (Pair r db)
  show ?thesis
  proof (cases r)
    case (Inl e)
    have "db = order_db s" by (rule get_session_error [OF Pair [unfolded Inl]])
    with Pair Inl assms show ?thesis by (simp add: place_order_def Let_def order_inv_def)
  next
    case (Inr u)
    with Pair have db: "create_body env (''ORD-'' @ env_uuid env) c req key (order_db s) = (Inr (), db)" "order_db_ok db"
      by (auto simp: get_session_commit)
    from created_announced [OF db(1)] obtain row ev where
      "orders db = orders (order_db s) @ [row]" "outbox db = outbox (order_db s) @ [ev]" "announces row ev" "order_key row = key"
      by blast
    with db(2) Pair Inr assms show ?thesis
      by (auto simp: place_order_def Let_def order_inv_def list_all2_appendI)
  qed
qed

lemma apply_update_keeps [simp]:
  "order_id (apply_update st q row) = order_id row" "order_key (apply_update st q row) = order_key row"
  "announces (apply_update st q row) ev = announces row ev"
  by (auto simp: apply_update_def announces_def order_payload_def Let_def split: option.splits)

lemma list_all2_update_first:
  assumes "list_all2 R xs ys" and "\<And>x y. R x y \<Longrightarrow> R (f x) y"
  shows "list_all2 R (update_first p f xs) ys"
  using assms by (induction rule: list_all2_induct) auto

lemma update_order_inv:
  assumes "order_inv s"
  shows "order_inv (snd (update_order_status s oid q))"
proof (cases "up_new_status q")
  case None
  with assms show ?thesis by (simp add: update_order_status_def)
next
  case (Some st)
  have "list_all2 announces (update_first (\<lambda>row. order_id row = oid) (apply_update st q) (orders (order_db s)))
      (outbox (order_db s))"
    using assms by (auto simp: order_inv_def intro: list_all2_update_first)
  with Some assms show ?thesis
    by (auto simp: update_order_status_def order_inv_def get_session_def order_db_ok_def
        simp del: set_map split: option.splits if_splits)
qed

lemma order_op_inv:
  assumes "order_inv s"
  shows "order_inv (snd (order_op_step s q))"
proof (cases q)
  case (Create c)
  have "order_inv (snd (order_step s c))"
    using assms by (induction s c rule: order_step.induct)
      (auto simp: create_order_def create_order_legacy_def Let_def place_order_inv split: option.splits)
  with Create assms show ?thesis by (simp add: post_order_def)
next
  case (Update oid u)
  with assms show ?thesis by (simp add: update_order_inv)
qed

definition no_orders :: order_service where
  "no_orders = \<lparr>order_db = \<lparr>orders = [], outbox = []\<rparr>, order_store = idem_init\<rparr>"

interpretation announced: guarded_service order_op_step "\<lambda>_. True" order_inv
  by unfold_locales (rule order_op_inv)

lemma no_orders_inv: "order_inv no_orders"
  by (simp add: no_orders_def order_inv_def order_db_ok_def idem_init_def)

section \<open>Pagination\<close>

lemma concat_pages:
  assumes "0 < k"
  shows "concat (map (\<lambda>i. take k (drop (i * k) xs)) [0..<n]) = take (n * k) xs"
proof (induction n)
  case (Suc n)
  have "Suc n * k = n * k + k" by simp
  with Suc show ?case by (simp only: upt_Suc_append map_append concat_append take_add) simp
qed simp

lemma ceiling_pages:
  assumes "0 < limit" and "0 < n"
  shows "n \<le> \<lceil>(of_int n / of_int limit :: rat)\<rceil> * limit" and "0 < \<lceil>(of_int n / of_int limit :: rat)\<rceil>"
proof -
  have "of_int n \<le> (of_int (\<lceil>(of_int n / of_int limit :: rat)\<rceil> * limit) :: rat)"
    using assms(1) le_of_int_ceiling [of "of_int n / of_int limit :: rat"]
    by (simp only: pos_divide_le_eq of_int_0_less_iff of_int_mult)
  then show "n \<le> \<lceil>(of_int n / of_int limit :: rat)\<rceil> * limit" by (simp only: of_int_le_iff)
  show "0 < \<lceil>(of_int n / of_int limit :: rat)\<rceil>" using assms by simp
qed

lemma list_orders_rows:
  assumes "valid_page page limit"
  shows "\<exists>pg. list_orders upper arrange db auth page limit status = Inr pg \<and>
    pg_items pg = map order_view (take (nat limit) (drop (nat (page - 1) * nat limit) (arrange (matching upper auth status db)))) \<and>
    pg_total pg = int (length (arrange (matching upper auth status db))) \<and>
    pg_pages pg = (if arrange (matching upper auth status db) = [] then 1
                   else \<lceil>(of_int (int (length (arrange (matching upper auth status db)))) / of_int limit :: rat)\<rceil>) \<and>
    pg_has_next pg = (page < pg_pages pg)"
  using assms by (simp add: list_orders_def Let_def valid_page_def nat_mult_distrib)

text \<open>A first order, for the examples.\<close>

abbreviation demo_env :: order_env where
  "demo_env \<equiv> \<lparr>env_uuid = ''A1'', env_random = 0, env_now = 0, env_event_uuid = ''E1'', env_iso = ''t''\<rparr>"

abbreviation demo_request :: create_order_request where
  "demo_request \<equiv> \<lparr>co_customer_id = ''C1'', co_restaurant_id = ''R1'', co_items = [''pizza''], co_total_amount = 10\<rparr>"

lemma demo_order:
  "\<exists>r s. order_step no_orders (demo_env, PostOrderLegacy None demo_request ''k'') = (Inr r, s)"
  by (simp add: create_order_legacy_def place_order_def no_orders_def idem_get_def idem_init_def get_session_def
      create_body_def order_db_ok_def write_outbox_event_def Let_def)

definition bobs_orders :: order_db where
  "bobs_orders =
     \<lparr>orders = [\<lparr>order_id = ''O1'', customer_id = JStr ''bob'', restaurant_id = ''R'', order_items = json_dumps [''pizza''],
       total_amount = 1, order_status = ''CREATED'', order_key = ''k'', eta_minutes = None, eta_lower = None, eta_upper = None,
       degraded = 0, created_at = 0\<rparr>], outbox = []\<rparr>"

section \<open>Properties\<close>

text \<open>
  C7: An order and its event are one. Starting from an empty service, after any sequence of order
  creations on either route and status updates, with any outcome, the outbox holds exactly one event
  per order and no other, in the same sequence, and each decodes to the creation of its order with
  the order's own customer, restaurant, items and amount; there is one order per answered
  idempotency key.
\<close>

theorem order_event_atomic:
  "let s = run order_op_step no_orders ops in
     list_all2 announces (orders (order_db s)) (outbox (order_db s)) \<and>
     dom (order_store s) = set (map order_key (orders (order_db s))) \<and>
     distinct (map order_key (orders (order_db s))) \<and> distinct (map order_id (orders (order_db s)))"
proof -
  have "order_inv (run order_op_step no_orders ops)"
    by (rule announced.run_inv [OF no_orders_inv]) (simp add: list_all_iff)
  then show ?thesis by (simp add: order_inv_def order_db_ok_def Let_def)
qed

text \<open>
  Replays of an order are harmless. Once a creation request has been answered, any later request
  with the same idempotency key on either creation route gets the same answer and changes nothing,
  whatever other requests came between.
\<close>

theorem order_replay:
  assumes "order_step s q = (Inr r, s')" and "order_request_key q' = order_request_key q"
  shows "order_step (run order_step s' qs) q' = (Inr r, run order_step s' qs)"
  by (rule ord.replay [OF assms])

theorem order_replay_witness:
  "\<exists>r s. order_step no_orders (demo_env, PostOrderLegacy None demo_request ''k'') = (Inr r, s) \<and>
     order_step s (demo_env, PostOrderLegacy None demo_request ''k'') = (Inr r, s)"
proof -
  obtain r s where run: "order_step no_orders (demo_env, PostOrderLegacy None demo_request ''k'') = (Inr r, s)"
    using demo_order by blast
  from order_replay [OF run refl, of "[]"] run show ?thesis by auto
qed

text \<open>
  The pages of a listing partition it. For every page size the endpoint accepts, the pages from
  the first to the reported number of pages, put together, are exactly the matching orders, each once
  and in order; only the last of them says there is no next page, and the total is their number.
\<close>

theorem list_orders_pages_partition:
  assumes "1 \<le> limit" and "limit \<le> 100"
    and "list_orders upper arrange db auth 1 limit status = Inr first"
  shows "concat (map (\<lambda>i. case list_orders upper arrange db auth (int i + 1) limit status of
                            Inl e \<Rightarrow> [] | Inr pg \<Rightarrow> pg_items pg) [0..<nat (pg_pages first)]) =
           map order_view (arrange (matching upper auth status db)) \<and>
    pg_total first = int (length (arrange (matching upper auth status db))) \<and>
    (\<forall>i < nat (pg_pages first). \<exists>pg. list_orders upper arrange db auth (int i + 1) limit status = Inr pg \<and>
       pg_has_next pg = (i + 1 < nat (pg_pages first)))"
proof -
  let ?rows = "arrange (matching upper auth status db)" and ?k = "nat limit"
  have valid: "valid_page (int i + 1) limit" for i using assms by (simp add: valid_page_def)
  note page = list_orders_rows [OF valid, of upper arrange db auth]
  obtain pg where pg: "list_orders upper arrange db auth 1 limit status = Inr pg"
    "pg_total pg = int (length ?rows)"
    "pg_pages pg = (if ?rows = [] then 1 else \<lceil>(of_int (int (length ?rows)) / of_int limit :: rat)\<rceil>)"
    using page [of 0 status] by auto
  then have first: "first = pg" using assms(3) by simp
  have eq: "(case list_orders upper arrange db auth (int i + 1) limit status of Inl e \<Rightarrow> [] | Inr pg \<Rightarrow> pg_items pg) =
      map order_view (take ?k (drop (i * ?k) ?rows))" for i
    using page [of i status] by auto
  have "concat (map (\<lambda>i. take ?k (drop (i * ?k) ?rows)) [0..<nat (pg_pages pg)]) = take (nat (pg_pages pg) * ?k) ?rows"
    using assms by (intro concat_pages) simp
  also have "... = ?rows"
  proof (cases "?rows = []")
    case False
    let ?n = "\<lceil>(of_int (int (length ?rows)) / of_int limit :: rat)\<rceil>"
    have "int (length ?rows) \<le> ?n * limit" and "0 < ?n"
      using ceiling_pages [of limit "int (length ?rows)"] assms False by auto
    then have "length ?rows \<le> nat ?n * nat limit" by (simp add: nat_mult_distrib [symmetric] le_nat_iff)
    with False pg(3) show ?thesis by simp
  qed simp
  finally have rows: "concat (map (\<lambda>i. take ?k (drop (i * ?k) ?rows)) [0..<nat (pg_pages pg)]) = ?rows" .
  have "concat (map (\<lambda>i. map order_view (take ?k (drop (i * ?k) ?rows))) [0..<nat (pg_pages pg)]) = map order_view ?rows"
    using arg_cong [OF rows, of "map order_view"] by (simp only: map_concat map_map comp_def)
  moreover have "\<exists>p. list_orders upper arrange db auth (int i + 1) limit status = Inr p \<and>
      pg_has_next p = (i + 1 < nat (pg_pages pg))" for i
    using page [of i status] pg(3) by auto
  ultimately show ?thesis unfolding first eq using pg(2) by blast
qed

theorem list_orders_pages_partition_witness:
  "\<exists>first. list_orders (\<lambda>s. s) (\<lambda>xs. xs) (order_db no_orders) \<lparr>user_id = JStr ''u'', auth_role = ADMIN, tenant_id = JNull\<rparr> 1 10 None =
     Inr first \<and> pg_total first = 0"
proof -
  let ?auth = "\<lparr>user_id = JStr ''u'', auth_role = ADMIN, tenant_id = JNull\<rparr>"
  obtain first where first: "list_orders (\<lambda>s. s) (\<lambda>xs. xs) (order_db no_orders) ?auth 1 10 None = Inr first"
    by (simp add: list_orders_def valid_page_def Let_def)
  from list_orders_pages_partition [OF _ _ first] first show ?thesis by (simp add: matching_def no_orders_def)
qed

text \<open>
  Customers see their own orders only. For a caller with the customer role, \<^verbatim>\<open>get_order\<close> answers
  with an order exactly when one with that id belongs to the caller and with 404 otherwise, and every
  order on every page of \<^verbatim>\<open>list_orders\<close> belongs to the caller.
\<close>

theorem customer_sees_own_orders:
  assumes "auth_role auth = CUSTOMER" and "\<And>xs. set (arrange xs) = set xs"
  shows "(case get_order db auth oid of
            Inl e \<Rightarrow> e = order_not_found oid \<and> (\<forall>row \<in> set (orders db). order_id row = oid \<longrightarrow> customer_id row \<noteq> user_id auth)
          | Inr v \<Rightarrow> \<exists>row \<in> set (orders db). order_id row = oid \<and> customer_id row = user_id auth \<and> v = order_view row) \<and>
    (\<forall>page limit status pg. list_orders upper arrange db auth page limit status = Inr pg \<longrightarrow>
       set (pg_items pg) \<subseteq> order_view ` {row \<in> set (orders db). customer_id row = user_id auth})"
proof -
  have 1: "case get_order db auth oid of
            Inl e \<Rightarrow> e = order_not_found oid \<and> (\<forall>row \<in> set (orders db). order_id row = oid \<longrightarrow> customer_id row \<noteq> user_id auth)
          | Inr v \<Rightarrow> \<exists>row \<in> set (orders db). order_id row = oid \<and> customer_id row = user_id auth \<and> v = order_view row"
    using assms(1)
    by (auto simp: get_order_def visible_to_def find_None_iff dest!: find_SomeD split: option.splits sum.splits)
  have 2: "set (take n (drop m (arrange (matching upper auth status db)))) \<subseteq> {row \<in> set (orders db). customer_id row = user_id auth}"
    for n m status
    using assms(1,2) set_take_subset [of n "drop m (arrange (matching upper auth status db))"]
      set_drop_subset [of m "arrange (matching upper auth status db)"]
    by (auto simp: matching_def visible_to_def)
  have "set (pg_items pg) \<subseteq> order_view ` {row \<in> set (orders db). customer_id row = user_id auth}"
    if "list_orders upper arrange db auth page limit status = Inr pg" for page limit status pg
  proof -
    have "pg_items pg = map order_view (take (nat limit) (drop (nat ((page - 1) * limit)) (arrange (matching upper auth status db))))"
      using that by (auto simp: list_orders_def Let_def split: if_splits)
    then show ?thesis by (simp only: set_map image_mono [OF 2])
  qed
  with 1 show ?thesis by blast
qed

theorem customer_sees_own_orders_witness:
  "get_order bobs_orders \<lparr>user_id = JStr ''eve'', auth_role = CUSTOMER, tenant_id = JNull\<rparr> ''O1'' = Inl (order_not_found ''O1'')"
proof -
  let ?eve = "\<lparr>user_id = JStr ''eve'', auth_role = CUSTOMER, tenant_id = JNull\<rparr>"
  have bob: "\<forall>row \<in> set (orders bobs_orders). customer_id row \<noteq> JStr ''eve''" by (simp add: bobs_orders_def)
  have own: "case get_order bobs_orders ?eve ''O1'' of
      Inl e \<Rightarrow> e = order_not_found ''O1'' \<and>
        (\<forall>row \<in> set (orders bobs_orders). order_id row = ''O1'' \<longrightarrow> customer_id row \<noteq> user_id ?eve)
    | Inr v \<Rightarrow> \<exists>row \<in> set (orders bobs_orders). order_id row = ''O1'' \<and> customer_id row = user_id ?eve \<and> v = order_view row"
    using customer_sees_own_orders [where auth = ?eve and arrange = "\<lambda>xs. xs" and db = bobs_orders and oid = "''O1''"]
    by simp
  from own bob show ?thesis by (cases "get_order bobs_orders ?eve ''O1''") auto
qed

end
