(* ===== verification/Saga.thy ===== *)
theory Saga
  imports Idempotency
begin

text \<open>
  The saga orchestrator: \<^verbatim>\<open>services/orchestrator/saga_state_machine.py\<close> with the tables of
  \<^verbatim>\<open>services/orchestrator/models.py\<close>. One call of \<^verbatim>\<open>start_saga\<close> drives one order through payment,
  inventory and ETA, compensating when a step fails after the payment.

  The services the orchestrator calls are parameters (\<open>saga_services\<close>), functions on a world \<open>'w\<close>
  that holds whatever state lies behind them; \<^verbatim>\<open>Http_Adapters\<close> supplies the real ones. The session
  is an explicit unit of work: the instance row and the step log of this saga as the session sees
  them, and what of it has been committed. Every transition, commit and outgoing call is also
  recorded in a trace, so that the order in which they happen can be stated.
\<close>

section \<open>Data\<close>

datatype saga_state =
    CREATED | PAYMENT_PENDING | PAYMENT_OK | PAYMENT_FAILED
  | INVENTORY_PENDING | INVENTORY_OK | INVENTORY_FAILED
  | ETA_PENDING | ETA_OK | ETA_FAILED
  | CONFIRMED | CONFIRMED_DEGRADED
  | REFUNDING | REFUNDED | CANCELLED | MANUAL_REVIEW

fun saga_state_value :: "saga_state \<Rightarrow> string" where
  "saga_state_value CREATED = ''CREATED''"
| "saga_state_value PAYMENT_PENDING = ''PAYMENT_PENDING''"
| "saga_state_value PAYMENT_OK = ''PAYMENT_OK''"
| "saga_state_value PAYMENT_FAILED = ''PAYMENT_FAILED''"
| "saga_state_value INVENTORY_PENDING = ''INVENTORY_PENDING''"
| "saga_state_value INVENTORY_OK = ''INVENTORY_OK''"
| "saga_state_value INVENTORY_FAILED = ''INVENTORY_FAILED''"
| "saga_state_value ETA_PENDING = ''ETA_PENDING''"
| "saga_state_value ETA_OK = ''ETA_OK''"
| "saga_state_value ETA_FAILED = ''ETA_FAILED''"
| "saga_state_value CONFIRMED = ''CONFIRMED''"
| "saga_state_value CONFIRMED_DEGRADED = ''CONFIRMED_DEGRADED''"
| "saga_state_value REFUNDING = ''REFUNDING''"
| "saga_state_value REFUNDED = ''REFUNDED''"
| "saga_state_value CANCELLED = ''CANCELLED''"
| "saga_state_value MANUAL_REVIEW = ''MANUAL_REVIEW''"

datatype step_type = FORWARD | COMPENSATE

text \<open>
  A row of \<^verbatim>\<open>saga_instances\<close> and of \<^verbatim>\<open>saga_step_logs\<close>. State columns hold the state rather than its
  name; columns filled from a service's answer hold whatever JSON value it sent, \<open>JNull\<close> for NULL.
\<close>

record saga_instance =
  saga_id :: string
  sg_order_id :: string
  correlation_id :: string
  current_state :: saga_state
  sg_payment_id :: json
  sg_reservation_id :: json
  sg_refund_id :: json
  sg_eta_minutes :: json
  sg_eta_lower :: json
  sg_eta_upper :: json
  sg_degraded :: int
  sg_started_at :: time
  sg_updated_at :: time
  sg_completed_at :: "time option"
  sg_error_reason :: json

record saga_step_log =
  log_saga_id :: string
  step_name :: string
  from_state :: saga_state
  to_state :: saga_state
  log_step_type :: step_type
  log_detail :: json

record saga_db =
  saga_instances :: "saga_instance list"
  saga_step_logs :: "saga_step_log list"

definition saga_db_ok :: "saga_instance list \<Rightarrow> bool" where
  "saga_db_ok rows \<longleftrightarrow> distinct (map saga_id rows) \<and> distinct (map sg_order_id rows)"

record saga_result =
  sr_saga_id :: string
  sr_order_id :: string
  sr_state :: saga_state
  sr_payment_id :: json
  sr_reservation_id :: json
  sr_refund_id :: json
  sr_eta_minutes :: json
  sr_eta_lower :: json
  sr_eta_upper :: json
  sr_degraded :: bool
  sr_error_reason :: json

text \<open>The injected services: payment and inventory always, ETA and order service optionally.\<close>

record 'w saga_services =
  pay_authorize :: "string \<Rightarrow> rat \<Rightarrow> string \<Rightarrow> 'w \<Rightarrow> json_dict outcome \<times> 'w"
  pay_refund :: "string \<Rightarrow> json \<Rightarrow> string \<Rightarrow> 'w \<Rightarrow> json_dict outcome \<times> 'w"
  inv_reserve :: "string \<Rightarrow> string list \<Rightarrow> string \<Rightarrow> 'w \<Rightarrow> json_dict outcome \<times> 'w"
  eta_predict :: "(json_dict \<Rightarrow> 'w \<Rightarrow> json_dict option outcome \<times> 'w) option"
  order_update :: "(json_dict \<Rightarrow> 'w \<Rightarrow> json_dict outcome \<times> 'w) option"

text \<open>
  What a run draws from outside: the uuid digits, the clock reading of the row's insertion, the
  successive clock readings of the code, SHA-256 and Python's \<^verbatim>\<open>str\<close> on a JSON value.
\<close>

record saga_env =
  se_uuid :: string
  se_inserted :: time
  se_clock :: "nat \<Rightarrow> time"
  se_sha256 :: "string \<Rightarrow> string"
  se_str :: "json \<Rightarrow> string"

datatype saga_call =
    CallAuthorize string rat string
  | CallRefund string json string
  | CallReserve string "string list" string
  | CallPredict json_dict
  | CallUpdateStatus json_dict

datatype saga_event = Transitioned saga_state | Committed | Called saga_call

text \<open>
  The orchestrator in the middle of a run: the rows other sagas had committed before, this saga's
  row and log as the session holds them, what of them is durable, the world, the number of clock
  readings taken, and the trace.
\<close>

record 'w orch =
  base :: saga_db
  cur :: saga_instance
  logs :: "saga_step_log list"
  durable :: "(saga_instance \<times> saga_step_log list) option"
  world :: 'w
  ticks :: nat
  trace :: "saga_event list"

text \<open>The committed contents of the saga database.\<close>

definition saga_db_after :: "'w orch \<Rightarrow> saga_db" where
  "saga_db_after st =
     (case durable st of
        None \<Rightarrow> base st
      | Some (row, ls) \<Rightarrow> \<lparr>saga_instances = saga_instances (base st) @ [row],
                          saga_step_logs = saga_step_logs (base st) @ ls\<rparr>)"

section \<open>Transitions, commits and calls\<close>

definition log_step ::
  "string \<Rightarrow> saga_state \<Rightarrow> saga_state \<Rightarrow> step_type \<Rightarrow> json \<Rightarrow> 'w orch \<Rightarrow> 'w orch" where
  "log_step name old new ty detail st =
     st\<lparr>logs := logs st @ [\<lparr>log_saga_id = saga_id (cur st), step_name = name, from_state = old,
          to_state = new, log_step_type = ty, log_detail = detail\<rparr>]\<rparr>"

definition transition ::
  "saga_env \<Rightarrow> saga_state \<Rightarrow> string \<Rightarrow> step_type \<Rightarrow> json \<Rightarrow> 'w orch \<Rightarrow> 'w orch" where
  "transition env new name ty detail st =
     (let old = current_state (cur st);
          st' = st\<lparr>cur := (cur st)\<lparr>current_state := new, sg_updated_at := se_clock env (ticks st)\<rparr>,
                  ticks := Suc (ticks st), trace := trace st @ [Transitioned new]\<rparr>
      in log_step name old new ty detail st')"

text \<open>
  \<^verbatim>\<open>session.commit()\<close>. The first commit inserts the instance row, which can violate its unique
  columns; later ones update a row that is already there.
\<close>

definition commit :: "'w orch \<Rightarrow> unit outcome \<times> 'w orch" where
  "commit st =
     (if durable st = None \<and> \<not> saga_db_ok (saga_instances (base st) @ [cur st]) then (Inl IntegrityError, st)
      else (Inr (), st\<lparr>durable := Some (cur st, logs st), trace := trace st @ [Committed]\<rparr>))"

definition then_commit :: "('w orch \<Rightarrow> 'a outcome \<times> 'w orch) \<Rightarrow> 'w orch \<Rightarrow> 'a outcome \<times> 'w orch" where
  "then_commit k st = (case commit st of (Inl e, st') \<Rightarrow> (Inl e, st') | (Inr _, st') \<Rightarrow> k st')"

definition invoke :: "saga_call \<Rightarrow> ('w \<Rightarrow> 'a \<times> 'w) \<Rightarrow> 'w orch \<Rightarrow> 'a \<times> 'w orch" where
  "invoke c f st = (case f (world st) of (r, w) \<Rightarrow> (r, st\<lparr>world := w, trace := trace st @ [Called c]\<rparr>))"

definition modify_cur :: "(saga_instance \<Rightarrow> saga_instance) \<Rightarrow> 'w orch \<Rightarrow> 'w orch" where
  "modify_cur f st = st\<lparr>cur := f (cur st)\<rparr>"

text \<open>\<^verbatim>\<open>saga.completed_at = datetime.now(UTC)\<close>.\<close>

definition complete :: "saga_env \<Rightarrow> 'w orch \<Rightarrow> 'w orch" where
  "complete env st =
     st\<lparr>cur := (cur st)\<lparr>sg_completed_at := Some (se_clock env (ticks st))\<rparr>, ticks := Suc (ticks st)\<rparr>"

definition saga_result_of :: "saga_instance \<Rightarrow> saga_result" where
  "saga_result_of saga =
     \<lparr>sr_saga_id = saga_id saga, sr_order_id = sg_order_id saga, sr_state = current_state saga,
      sr_payment_id = sg_payment_id saga, sr_reservation_id = sg_reservation_id saga,
      sr_refund_id = sg_refund_id saga, sr_eta_minutes = sg_eta_minutes saga,
      sr_eta_lower = sg_eta_lower saga, sr_eta_upper = sg_eta_upper saga,
      sr_degraded = (sg_degraded saga \<noteq> 0), sr_error_reason = sg_error_reason saga\<rparr>"

definition return_result :: "'w orch \<Rightarrow> saga_result outcome \<times> 'w orch" where
  "return_result st = (Inr (saga_result_of (cur st)), st)"

text \<open>
  The call to the order service, when there is one: whatever it raises is logged and dropped.
\<close>

definition notify_order :: "'w saga_services \<Rightarrow> json_dict \<Rightarrow> 'w orch \<Rightarrow> 'w orch" where
  "notify_order svc kwargs st =
     (case order_update svc of
        None \<Rightarrow> st
      | Some f \<Rightarrow> snd (invoke (CallUpdateStatus kwargs) (f kwargs) st))"

section \<open>The phases of a saga\<close>

text \<open>The tail of \<^verbatim>\<open>_compensate\<close>: cancel, record the reason, tell the order service.\<close>

definition cancel_saga ::
  "'w saga_services \<Rightarrow> saga_env \<Rightarrow> json \<Rightarrow> 'w orch \<Rightarrow> saga_result outcome \<times> 'w orch" where
  "cancel_saga svc env reason st =
     then_commit
       (\<lambda>st. return_result (notify_order svc
          [(''order_id'', JStr (sg_order_id (cur st))), (''new_status'', JStr (saga_state_value CANCELLED))] st))
       (complete env (modify_cur (\<lambda>saga. saga\<lparr>sg_error_reason := reason\<rparr>)
          (transition env CANCELLED ''saga_cancelled'' COMPENSATE reason st)))"

definition compensate ::
  "'w saga_services \<Rightarrow> saga_env \<Rightarrow> json \<Rightarrow> 'w orch \<Rightarrow> saga_result outcome \<times> 'w orch" where
  "compensate svc env reason st =
     (if py_truthy (sg_payment_id (cur st)) then
        then_commit
          (\<lambda>st. let key = generate_idempotency_key (se_sha256 env) [saga_id (cur st), ''payment'', ''refund''];
                    oid = sg_order_id (cur st); pid = sg_payment_id (cur st)
                in (case invoke (CallRefund oid pid key) (pay_refund svc oid pid key) st of
                      (Inr refund_result, st) \<Rightarrow>
                        cancel_saga svc env reason
                          (transition env REFUNDED ''compensate_refund_done'' COMPENSATE
                             (dict_get refund_result ''payment_id'')
                             (modify_cur (\<lambda>saga. saga\<lparr>sg_refund_id := dict_get refund_result ''payment_id''\<rparr>) st))
                    | (Inl e, st) \<Rightarrow>
                        then_commit return_result
                          (complete env (modify_cur
                             (\<lambda>saga. saga\<lparr>sg_error_reason := JStr (''Compensation failed: '' @ exn_str e)\<rparr>)
                             (transition env MANUAL_REVIEW ''compensate_refund_failed'' COMPENSATE
                                (JStr (exn_str e)) st)))))
          (transition env REFUNDING ''compensate_refund_start'' COMPENSATE JNull st)
      else cancel_saga svc env reason st)"

text \<open>
  Step 3, the ETA. \<open>ask_eta\<close> is what the try-block leaves in \<^verbatim>\<open>eta_result\<close> and \<^verbatim>\<open>is_degraded\<close>;
  \<open>eta_update\<close> the fields and the confirming transition that follow from it.
\<close>

definition ask_eta ::
  "'w saga_services \<Rightarrow> json_dict option \<Rightarrow> 'w orch \<Rightarrow> (json_dict option \<times> bool) \<times> 'w orch" where
  "ask_eta svc order_data st =
     (case eta_predict svc of
        None \<Rightarrow> ((None, True), st)
      | Some predict \<Rightarrow>
          let data = (case order_data of None \<Rightarrow> [] | Some d \<Rightarrow> d) in
          (case invoke (CallPredict data) (predict data) st of
             (Inl e, st) \<Rightarrow> ((None, True), st)
           | (Inr None, st) \<Rightarrow> ((None, True), st)
           | (Inr (Some d), st) \<Rightarrow>
               ((Some d,
                 if d \<noteq> [] \<and> ''eta_minutes'' \<in> set (map fst d)
                 then py_truthy (dict_get_or d ''degraded'' (JBool False)) else True), st)))"

definition eta_update :: "saga_env \<Rightarrow> json_dict option \<times> bool \<Rightarrow> 'w orch \<Rightarrow> 'w orch" where
  "eta_update env answer st =
     (case answer of (eta_result, is_degraded) \<Rightarrow>
       (case eta_result of
          Some d \<Rightarrow>
            if d \<noteq> [] \<and> \<not> is_degraded then
              transition env CONFIRMED ''eta_received_confirmed'' FORWARD
                (JStr (''ETA: '' @ se_str env (dict_get d ''eta_minutes'') @ '' min''))
                (modify_cur (\<lambda>saga. saga\<lparr>sg_eta_minutes := dict_get d ''eta_minutes'',
                   sg_eta_lower := dict_get d ''lower_bound'', sg_eta_upper := dict_get d ''upper_bound'',
                   sg_degraded := 0\<rparr>) st)
            else if d \<noteq> [] then
              transition env CONFIRMED_DEGRADED ''eta_degraded_confirmed'' FORWARD
                (JStr ''ETA returned in degraded mode'')
                (modify_cur (\<lambda>saga. saga\<lparr>sg_eta_minutes := dict_get_or d ''eta_minutes'' (JFloat 32),
                   sg_eta_lower := dict_get_or d ''lower_bound'' (JFloat 25),
                   sg_eta_upper := dict_get_or d ''upper_bound'' (JFloat 40), sg_degraded := 1\<rparr>) st)
            else
              transition env CONFIRMED_DEGRADED ''eta_degraded_confirmed'' FORWARD
                (JStr ''ETA unavailable, using fallback'')
                (modify_cur (\<lambda>saga. saga\<lparr>sg_eta_minutes := JFloat 32, sg_eta_lower := JFloat 25,
                   sg_eta_upper := JFloat 40, sg_degraded := 1\<rparr>) st)
        | None \<Rightarrow>
            transition env CONFIRMED_DEGRADED ''eta_degraded_confirmed'' FORWARD
              (JStr ''ETA unavailable, using fallback'')
              (modify_cur (\<lambda>saga. saga\<lparr>sg_eta_minutes := JFloat 32, sg_eta_lower := JFloat 25,
                 sg_eta_upper := JFloat 40, sg_degraded := 1\<rparr>) st)))"

definition eta_phase ::
  "'w saga_services \<Rightarrow> saga_env \<Rightarrow> json_dict option \<Rightarrow> 'w orch \<Rightarrow> saga_result outcome \<times> 'w orch" where
  "eta_phase svc env order_data st =
     then_commit
       (\<lambda>st. case ask_eta svc order_data st of (answer, st) \<Rightarrow>
          then_commit
            (\<lambda>st. let saga = cur st in
               return_result (notify_order svc
                 [(''order_id'', JStr (sg_order_id saga)), (''new_status'', JStr (saga_state_value (current_state saga))),
                  (''eta_minutes'', sg_eta_minutes saga), (''eta_lower'', sg_eta_lower saga),
                  (''eta_upper'', sg_eta_upper saga), (''degraded'', JBool (sg_degraded saga \<noteq> 0))] st))
            (complete env (eta_update env answer st)))
       (transition env ETA_PENDING ''eta_request_start'' FORWARD JNull st)"

text \<open>Step 2, the inventory reservation.\<close>

definition inventory_phase ::
  "'w saga_services \<Rightarrow> saga_env \<Rightarrow> string list \<Rightarrow> json_dict option \<Rightarrow> 'w orch \<Rightarrow> saga_result outcome \<times> 'w orch" where
  "inventory_phase svc env items order_data st =
     then_commit
       (\<lambda>st. let key = generate_idempotency_key (se_sha256 env) [saga_id (cur st), ''inventory'', ''reserve''];
                 oid = sg_order_id (cur st)
             in (case invoke (CallReserve oid items key) (inv_reserve svc oid items key) st of
                   (Inl e, st) \<Rightarrow>
                     then_commit (compensate svc env (JStr (exn_str e)))
                       (transition env INVENTORY_FAILED ''inventory_error'' FORWARD (JStr (exn_str e)) st)
                 | (Inr inv_result, st) \<Rightarrow>
                     if dict_get inv_result ''status'' \<noteq> JStr ''RESERVED'' then
                       then_commit (compensate svc env (dict_get_or inv_result ''message'' (JStr ''Out of stock'')))
                         (transition env INVENTORY_FAILED ''inventory_out_of_stock'' FORWARD
                            (dict_get inv_result ''message'') st)
                     else
                       (case dict_index inv_result ''reservation_id'' of
                          Inl e \<Rightarrow> (Inl e, st)
                        | Inr rid \<Rightarrow>
                            then_commit (eta_phase svc env order_data)
                              (transition env INVENTORY_OK ''inventory_reserved'' FORWARD rid
                                 (modify_cur (\<lambda>saga. saga\<lparr>sg_reservation_id := rid\<rparr>) st)))))
       (transition env INVENTORY_PENDING ''inventory_reserve_start'' FORWARD JNull st)"

text \<open>A payment that failed: two transitions, the reason, one commit, nothing to undo.\<close>

definition fail_payment ::
  "saga_env \<Rightarrow> string \<Rightarrow> json \<Rightarrow> string \<Rightarrow> json \<Rightarrow> 'w orch \<Rightarrow> saga_result outcome \<times> 'w orch" where
  "fail_payment env step1 detail step2 reason st =
     then_commit return_result
       (complete env (modify_cur (\<lambda>saga. saga\<lparr>sg_error_reason := reason\<rparr>)
          (transition env CANCELLED step2 FORWARD JNull
             (transition env PAYMENT_FAILED step1 FORWARD detail st))))"

text \<open>Step 1, the payment authorisation.\<close>

definition payment_phase ::
  "'w saga_services \<Rightarrow> saga_env \<Rightarrow> string list \<Rightarrow> rat \<Rightarrow> json_dict option \<Rightarrow> 'w orch \<Rightarrow> saga_result outcome \<times> 'w orch" where
  "payment_phase svc env items total_amount order_data st =
     (let key = generate_idempotency_key (se_sha256 env) [saga_id (cur st), ''payment'', ''authorize''];
          oid = sg_order_id (cur st)
      in (case invoke (CallAuthorize oid total_amount key) (pay_authorize svc oid total_amount key) st of
            (Inl e, st) \<Rightarrow>
              fail_payment env ''payment_error'' (JStr (exn_str e)) ''cancelled_payment_error'' (JStr (exn_str e)) st
          | (Inr pay_result, st) \<Rightarrow>
              if dict_get pay_result ''status'' \<noteq> JStr ''AUTHORIZED'' then
                fail_payment env ''payment_declined'' (dict_get pay_result ''message'') ''cancelled_payment_declined''
                  (dict_get_or pay_result ''message'' (JStr ''Payment declined'')) st
              else
                (case dict_index pay_result ''payment_id'' of
                   Inl e \<Rightarrow> (Inl e, st)
                 | Inr pid \<Rightarrow>
                     then_commit (inventory_phase svc env items order_data)
                       (transition env PAYMENT_OK ''payment_authorized'' FORWARD pid
                          (modify_cur (\<lambda>saga. saga\<lparr>sg_payment_id := pid\<rparr>) st)))))"

definition new_saga :: "saga_env \<Rightarrow> string \<Rightarrow> saga_db \<Rightarrow> 'w \<Rightarrow> 'w orch" where
  "new_saga env oid db w =
     \<lparr>base = db,
      cur = \<lparr>saga_id = ''SAGA-'' @ se_uuid env, sg_order_id = oid, correlation_id = oid, current_state = CREATED,
             sg_payment_id = JNull, sg_reservation_id = JNull, sg_refund_id = JNull, sg_eta_minutes = JNull,
             sg_eta_lower = JNull, sg_eta_upper = JNull, sg_degraded = 0, sg_started_at = se_inserted env, sg_updated_at = se_clock env 0,
             sg_completed_at = None, sg_error_reason = JNull\<rparr>,
      logs = [], durable = None, world = w, ticks = 1, trace = []\<rparr>"

text \<open>
  \<^verbatim>\<open>start_saga\<close>. An exception leaves the run with what was committed so far (\<open>saga_db_after\<close>); the
  rollback drops the rest.
\<close>

definition start_saga ::
  "'w saga_services \<Rightarrow> saga_env \<Rightarrow> string \<Rightarrow> string list \<Rightarrow> rat \<Rightarrow> json_dict option \<Rightarrow> saga_db \<Rightarrow> 'w \<Rightarrow>
   saga_result outcome \<times> 'w orch" where
  "start_saga svc env order_id items total_amount order_data db w =
     then_commit (payment_phase svc env items total_amount order_data)
       (transition env PAYMENT_PENDING ''saga_started'' FORWARD JNull (new_saga env order_id db w))"

text \<open>The queries.\<close>

definition get_saga_status :: "saga_db \<Rightarrow> string \<Rightarrow> saga_result option" where
  "get_saga_status db oid = map_option saga_result_of (find (\<lambda>s. sg_order_id s = oid) (saga_instances db))"

definition get_saga_steps :: "saga_db \<Rightarrow> string \<Rightarrow> saga_step_log list" where
  "get_saga_steps db sid = filter (\<lambda>l. log_saga_id l = sid) (saga_step_logs db)"

section \<open>The state machine\<close>

text \<open>
  The transition diagram at the head of \<^verbatim>\<open>saga_state_machine.py\<close>, less its line
  \<^verbatim>\<open>ETA_FAILED -> CONFIRMED_DEGRADED\<close> (no run enters \<open>ETA_FAILED\<close>) and with
  two edges it leaves out: a failed reservation is cancelled directly when there is no payment to
  refund, and a failed refund goes to \<open>MANUAL_REVIEW\<close>.
\<close>

inductive saga_edge :: "saga_state \<Rightarrow> saga_state \<Rightarrow> bool" where
  start: "saga_edge CREATED PAYMENT_PENDING"
| payment_ok: "saga_edge PAYMENT_PENDING PAYMENT_OK"
| payment_failed: "saga_edge PAYMENT_PENDING PAYMENT_FAILED"
| payment_cancel: "saga_edge PAYMENT_FAILED CANCELLED"
| inventory: "saga_edge PAYMENT_OK INVENTORY_PENDING"
| inventory_ok: "saga_edge INVENTORY_PENDING INVENTORY_OK"
| inventory_failed: "saga_edge INVENTORY_PENDING INVENTORY_FAILED"
| refund: "saga_edge INVENTORY_FAILED REFUNDING"
| no_refund: "saga_edge INVENTORY_FAILED CANCELLED"
| refunded: "saga_edge REFUNDING REFUNDED"
| refund_failed: "saga_edge REFUNDING MANUAL_REVIEW"
| refund_cancel: "saga_edge REFUNDED CANCELLED"
| eta: "saga_edge INVENTORY_OK ETA_PENDING"
| confirm: "saga_edge ETA_PENDING CONFIRMED"
| degrade: "saga_edge ETA_PENDING CONFIRMED_DEGRADED"

inductive_cases saga_edgeE: "saga_edge s s'"
inductive_simps saga_edge_into_eta [simp]: "saga_edge s ETA_OK" "saga_edge s ETA_FAILED"
inductive_simps saga_edge_final [simp]:
  "saga_edge CONFIRMED s" "saga_edge CONFIRMED_DEGRADED s" "saga_edge CANCELLED s" "saga_edge MANUAL_REVIEW s"

definition final_states :: "saga_state set" where
  "final_states = {CONFIRMED, CONFIRMED_DEGRADED, CANCELLED, MANUAL_REVIEW}"

lemma final_states_stuck: "s \<in> final_states \<longleftrightarrow> s \<notin> {ETA_OK, ETA_FAILED} \<and> (\<forall>s'. \<not> saga_edge s s')"
  by (cases s) (auto simp: final_states_def intro: saga_edge.intros)

text \<open>A step log that leads along the diagram from one state to another.\<close>

fun log_chain :: "saga_state \<Rightarrow> saga_step_log list \<Rightarrow> saga_state \<Rightarrow> bool" where
  "log_chain s [] s' \<longleftrightarrow> s = s'"
| "log_chain s (l # ls) s' \<longleftrightarrow> from_state l = s \<and> saga_edge s (to_state l) \<and> log_chain (to_state l) ls s'"

lemma log_chain_snoc:
  "log_chain s (ls @ [l]) s' \<longleftrightarrow> log_chain s ls (from_state l) \<and> saga_edge (from_state l) (to_state l) \<and> to_state l = s'"
  by (induction ls arbitrary: s) auto

lemma log_chain_never_eta:
  "log_chain s ls s' \<Longrightarrow> l \<in> set ls \<Longrightarrow> to_state l \<noteq> ETA_OK \<and> to_state l \<noteq> ETA_FAILED"
  by (induction ls arbitrary: s) (auto elim: saga_edgeE)

section \<open>Traces\<close>

text \<open>
  \<open>uncommitted\<close> holds at the end of a trace whose last transition has not been committed;
  \<open>write_ahead\<close> says that no call was made at such a moment.
\<close>

fun uncommitted :: "bool \<Rightarrow> saga_event list \<Rightarrow> bool" where
  "uncommitted b [] = b"
| "uncommitted b (Transitioned s # es) = uncommitted True es"
| "uncommitted b (Committed # es) = uncommitted False es"
| "uncommitted b (Called c # es) = uncommitted b es"

fun write_ahead :: "bool \<Rightarrow> saga_event list \<Rightarrow> bool" where
  "write_ahead b [] = True"
| "write_ahead b (Transitioned s # es) = write_ahead True es"
| "write_ahead b (Committed # es) = write_ahead False es"
| "write_ahead b (Called c # es) = (\<not> b \<and> write_ahead b es)"

fun calls :: "saga_event list \<Rightarrow> saga_call list" where
  "calls [] = []"
| "calls (Called c # es) = c # calls es"
| "calls (e # es) = calls es"

lemma uncommitted_append [simp]: "uncommitted b (xs @ ys) = uncommitted (uncommitted b xs) ys"
  by (induction b xs rule: uncommitted.induct) auto

lemma write_ahead_append [simp]:
  "write_ahead b (xs @ ys) \<longleftrightarrow> write_ahead b xs \<and> write_ahead (uncommitted b xs) ys"
  by (induction b xs rule: write_ahead.induct) auto

lemma calls_append [simp]: "calls (xs @ ys) = calls xs @ calls ys"
  by (induction xs rule: calls.induct) auto

section \<open>The invariant of a run\<close>

text \<open>
  \<open>well_logged\<close> holds throughout a run: the log leads along the diagram to the current state and no
  call overtook a commit. \<open>synced\<close> holds right after a commit.
\<close>

definition well_logged :: "'w orch \<Rightarrow> bool" where
  "well_logged st \<longleftrightarrow>
     log_chain CREATED (logs st) (current_state (cur st)) \<and>
     (\<forall>l \<in> set (logs st). log_saga_id l = saga_id (cur st)) \<and>
     write_ahead False (trace st)"

definition synced :: "'w orch \<Rightarrow> bool" where
  "synced st \<longleftrightarrow> durable st = Some (cur st, logs st) \<and> \<not> uncommitted False (trace st)"

definition persisted :: "'w orch \<Rightarrow> bool" where
  "persisted st \<longleftrightarrow> durable st \<noteq> None"

lemma transition_logged:
  "well_logged st \<Longrightarrow> saga_edge (current_state (cur st)) s \<Longrightarrow> well_logged (transition env s n ty d st)"
  by (auto simp: well_logged_def transition_def log_step_def Let_def log_chain_snoc)

lemma modify_cur_logged:
  assumes "\<And>r. saga_id (f r) = saga_id r" and "\<And>r. current_state (f r) = current_state r"
  shows "well_logged st \<Longrightarrow> well_logged (modify_cur f st)"
  by (simp add: well_logged_def modify_cur_def assms)

lemma complete_logged: "well_logged (complete env st) = well_logged st"
  by (simp add: well_logged_def complete_def)

lemma invoke_synced:
  "invoke c f st = (r, st') \<Longrightarrow> well_logged st \<Longrightarrow> synced st \<Longrightarrow>
     well_logged st' \<and> synced st' \<and> cur st' = cur st \<and> base st' = base st"
  by (auto simp: invoke_def well_logged_def synced_def split: prod.splits)

lemma transition_fields [simp]:
  "current_state (cur (transition env s n ty d st)) = s"
  "saga_id (cur (transition env s n ty d st)) = saga_id (cur st)"
  "sg_order_id (cur (transition env s n ty d st)) = sg_order_id (cur st)"
  "sg_payment_id (cur (transition env s n ty d st)) = sg_payment_id (cur st)"
  "sg_reservation_id (cur (transition env s n ty d st)) = sg_reservation_id (cur st)"
  "sg_refund_id (cur (transition env s n ty d st)) = sg_refund_id (cur st)"
  "sg_completed_at (cur (transition env s n ty d st)) = sg_completed_at (cur st)"
  "sg_degraded (cur (transition env s n ty d st)) = sg_degraded (cur st)"
  "sg_eta_minutes (cur (transition env s n ty d st)) = sg_eta_minutes (cur st)"
  "persisted (transition env s n ty d st) = persisted st"
  "durable (transition env s n ty d st) = durable st"
  "base (transition env s n ty d st) = base st"
  "world (transition env s n ty d st) = world st"
  "calls (trace (transition env s n ty d st)) = calls (trace st)"
  by (simp_all add: transition_def log_step_def Let_def persisted_def)

lemma modify_cur_fields [simp]:
  "cur (modify_cur f st) = f (cur st)" "persisted (modify_cur f st) = persisted st" "durable (modify_cur f st) = durable st"
  "base (modify_cur f st) = base st" "world (modify_cur f st) = world st" "trace (modify_cur f st) = trace st"
  by (simp_all add: modify_cur_def persisted_def)

lemma complete_fields [simp]:
  "current_state (cur (complete env st)) = current_state (cur st)"
  "saga_id (cur (complete env st)) = saga_id (cur st)"
  "sg_order_id (cur (complete env st)) = sg_order_id (cur st)"
  "sg_payment_id (cur (complete env st)) = sg_payment_id (cur st)"
  "sg_reservation_id (cur (complete env st)) = sg_reservation_id (cur st)"
  "sg_refund_id (cur (complete env st)) = sg_refund_id (cur st)"
  "sg_completed_at (cur (complete env st)) = Some (se_clock env (ticks st))"
  "persisted (complete env st) = persisted st" "durable (complete env st) = durable st" "base (complete env st) = base st"
  "world (complete env st) = world st" "trace (complete env st) = trace st"
  by (simp_all add: complete_def persisted_def)

text \<open>The state after a commit that cannot fail.\<close>

definition committed :: "'w orch \<Rightarrow> 'w orch" where
  "committed st = st\<lparr>durable := Some (cur st, logs st), trace := trace st @ [Committed]\<rparr>"

lemma then_commit_later: "persisted st \<Longrightarrow> then_commit k st = k (committed st)"
  by (auto simp: then_commit_def commit_def committed_def persisted_def)

lemma committed_synced [simp]: "synced (committed st)"
  by (simp add: synced_def committed_def)

lemma committed_logged [simp]: "well_logged (committed st) = well_logged st"
  by (simp add: well_logged_def committed_def)

lemma committed_fields [simp]:
  "cur (committed st) = cur st" "persisted (committed st)" "base (committed st) = base st"
  "world (committed st) = world st" "calls (trace (committed st)) = calls (trace st)"
  by (simp_all add: committed_def persisted_def)

lemma synced_persisted: "synced st \<Longrightarrow> persisted st"
  by (simp add: synced_def persisted_def)

text \<open>What every completed phase establishes.\<close>

fun saga_post :: "saga_result outcome \<times> 'w orch \<Rightarrow> bool" where
  "saga_post (r, st) \<longleftrightarrow> well_logged st \<and> synced st \<and>
     (case r of
        Inl e \<Rightarrow> (\<exists>k. e = KeyError k)
      | Inr res \<Rightarrow> res = saga_result_of (cur st) \<and> current_state (cur st) \<in> final_states \<and>
                   sg_completed_at (cur st) \<noteq> None)"

lemma notify_order_synced:
  "well_logged st \<Longrightarrow> synced st \<Longrightarrow>
     well_logged (notify_order svc kw st) \<and> synced (notify_order svc kw st) \<and>
     cur (notify_order svc kw st) = cur st \<and> base (notify_order svc kw st) = base st"
  by (auto simp: notify_order_def invoke_def well_logged_def synced_def split: option.splits prod.splits)

lemma cancel_saga_post:
  assumes "well_logged st" and "persisted st" and "saga_edge (current_state (cur st)) CANCELLED"
  shows "saga_post (cancel_saga svc env reason st)"
  using assms
  by (auto simp: cancel_saga_def then_commit_later return_result_def notify_order_synced complete_logged
        modify_cur_logged transition_logged final_states_def)

lemma compensate_post:
  assumes "well_logged st" and "persisted st" and "current_state (cur st) = INVENTORY_FAILED"
  shows "saga_post (compensate svc env reason st)"
proof (cases "py_truthy (sg_payment_id (cur st))")
  case True
  let ?st = "committed (transition env REFUNDING ''compensate_refund_start'' COMPENSATE JNull st)"
  have st: "well_logged ?st" "synced ?st" "current_state (cur ?st) = REFUNDING"
    using assms by (simp_all add: transition_logged saga_edge.intros)
  let ?c = "CallRefund (sg_order_id (cur ?st)) (sg_payment_id (cur ?st))
    (generate_idempotency_key (se_sha256 env) [saga_id (cur ?st), ''payment'', ''refund''])"
  let ?f = "pay_refund svc (sg_order_id (cur ?st)) (sg_payment_id (cur ?st))
    (generate_idempotency_key (se_sha256 env) [saga_id (cur ?st), ''payment'', ''refund''])"
  obtain r st' where inv: "invoke ?c ?f ?st = (r, st')" by fastforce
  note st' = invoke_synced [OF inv st(1,2)]
  show ?thesis
  proof (cases r)
    case (Inl e)
    with True inv assms st st' show ?thesis
      by (auto simp: compensate_def then_commit_later Let_def return_result_def complete_logged synced_persisted
        modify_cur_logged transition_logged saga_edge.intros final_states_def)
  next
    case (Inr d)
    with True inv assms st st' show ?thesis
      by (auto simp: compensate_def then_commit_later Let_def synced_persisted
        modify_cur_logged transition_logged saga_edge.intros intro!: cancel_saga_post)
  qed
next
  case False
  with assms show ?thesis by (simp add: compensate_def cancel_saga_post saga_edge.intros)
qed

lemma eta_update_logged:
  assumes "well_logged st" and "current_state (cur st) = ETA_PENDING"
  shows "well_logged (eta_update env a st)"
    and "current_state (cur (eta_update env a st)) \<in> {CONFIRMED, CONFIRMED_DEGRADED}"
    and "persisted (eta_update env a st) = persisted st"
  using assms
  by (auto simp: eta_update_def transition_logged modify_cur_logged saga_edge.intros split: prod.splits option.splits)

lemma ask_eta_synced:
  "ask_eta svc data st = (a, st') \<Longrightarrow> well_logged st \<Longrightarrow> synced st \<Longrightarrow>
     well_logged st' \<and> synced st' \<and> cur st' = cur st \<and> base st' = base st"
  by (auto simp: ask_eta_def Let_def dest!: invoke_synced split: option.splits prod.splits sum.splits)

lemma eta_phase_post:
  assumes "well_logged st" and "persisted st" and "current_state (cur st) = INVENTORY_OK"
  shows "saga_post (eta_phase svc env data st)"
proof -
  let ?st = "committed (transition env ETA_PENDING ''eta_request_start'' FORWARD JNull st)"
  obtain a st' where ask: "ask_eta svc data ?st = (a, st')" by fastforce
  have "well_logged ?st" using assms by (simp add: transition_logged saga_edge.intros)
  with ask_eta_synced [OF ask] have st': "well_logged st'" "synced st'" "current_state (cur st') = ETA_PENDING"
    by auto
  note up = eta_update_logged [OF st'(1,3), of env a]
  have "current_state (cur (eta_update env a st')) \<in> final_states"
    using up(2) by (auto simp: final_states_def)
  with ask assms(2) st'(2) up show ?thesis
    by (simp add: eta_phase_def then_commit_later Let_def return_result_def notify_order_synced complete_logged
        synced_persisted)
qed

lemma inventory_phase_post:
  assumes "well_logged st" and "persisted st" and "current_state (cur st) = PAYMENT_OK"
  shows "saga_post (inventory_phase svc env items data st)"
proof -
  let ?st = "committed (transition env INVENTORY_PENDING ''inventory_reserve_start'' FORWARD JNull st)"
  have st: "well_logged ?st" "synced ?st" "current_state (cur ?st) = INVENTORY_PENDING"
    using assms by (simp_all add: transition_logged saga_edge.intros)
  let ?key = "generate_idempotency_key (se_sha256 env) [saga_id (cur ?st), ''inventory'', ''reserve'']"
  obtain r st' where inv: "invoke (CallReserve (sg_order_id (cur ?st)) items ?key)
      (inv_reserve svc (sg_order_id (cur ?st)) items ?key) ?st = (r, st')" by fastforce
  note st' = invoke_synced [OF inv st(1,2)]
  show ?thesis
  proof (cases r)
    case (Inl e)
    with inv assms st st' show ?thesis
      by (auto simp: inventory_phase_def then_commit_later Let_def synced_persisted transition_logged
        saga_edge.intros intro!: compensate_post)
  next
    case (Inr d)
    with inv assms st st' show ?thesis
      by (auto simp: inventory_phase_def then_commit_later Let_def synced_persisted transition_logged
        dict_index_def modify_cur_logged saga_edge.intros intro!: compensate_post eta_phase_post
        split: option.splits)
  qed
qed

lemma fail_payment_post:
  assumes "well_logged st" and "persisted st" and "current_state (cur st) = PAYMENT_PENDING"
  shows "saga_post (fail_payment env n1 d n2 reason st)"
  using assms
  by (auto simp: fail_payment_def then_commit_later return_result_def complete_logged
        modify_cur_logged transition_logged saga_edge.intros final_states_def)

lemma payment_phase_post:
  assumes "well_logged st" and "synced st" and "current_state (cur st) = PAYMENT_PENDING"
  shows "saga_post (payment_phase svc env items amt data st)"
proof -
  let ?key = "generate_idempotency_key (se_sha256 env) [saga_id (cur st), ''payment'', ''authorize'']"
  obtain r st' where inv: "invoke (CallAuthorize (sg_order_id (cur st)) amt ?key)
      (pay_authorize svc (sg_order_id (cur st)) amt ?key) st = (r, st')" by fastforce
  note st' = invoke_synced [OF inv assms(1,2)]
  show ?thesis
  proof (cases r)
    case (Inl e)
    with inv assms st' show ?thesis
      by (auto simp: payment_phase_def Let_def synced_persisted intro!: fail_payment_post)
  next
    case (Inr d)
    with inv assms st' show ?thesis
      by (auto simp: payment_phase_def Let_def then_commit_later synced_persisted transition_logged
        dict_index_def modify_cur_logged saga_edge.intros intro!: fail_payment_post inventory_phase_post
        split: option.splits)
  qed
qed

text \<open>The row with which a saga enters the table, and the two ways its run can begin.\<close>

definition started :: "saga_env \<Rightarrow> string \<Rightarrow> saga_db \<Rightarrow> 'w \<Rightarrow> 'w orch" where
  "started env oid db w = transition env PAYMENT_PENDING ''saga_started'' FORWARD JNull (new_saga env oid db w)"

definition admissible :: "saga_env \<Rightarrow> string \<Rightarrow> saga_db \<Rightarrow> bool" where
  "admissible env oid db \<longleftrightarrow>
     saga_db_ok (saga_instances db) \<and> ''SAGA-'' @ se_uuid env \<notin> saga_id ` set (saga_instances db) \<and>
     oid \<notin> sg_order_id ` set (saga_instances db)"

lemma started_fields [simp]:
  "saga_id (cur (started env oid db w)) = ''SAGA-'' @ se_uuid env"
  "sg_order_id (cur (started env oid db w)) = oid" "durable (started env oid db w) = None"
  "base (started env oid db w) = db" "world (started env oid db w) = w"
  "current_state (cur (started env oid db w)) = PAYMENT_PENDING"
  "calls (trace (started env oid db w)) = []"
  by (simp_all add: started_def new_saga_def)

lemma started_logged [simp]: "well_logged (started env oid db w)"
  by (simp add: started_def new_saga_def transition_logged saga_edge.intros well_logged_def transition_def
      log_step_def Let_def)

lemma start_saga_begin:
  "start_saga svc env oid items amt data db w =
     (if admissible env oid db then payment_phase svc env items amt data (committed (started env oid db w))
      else (Inl IntegrityError, started env oid db w))"
  by (auto simp: start_saga_def started_def [symmetric] then_commit_def commit_def committed_def
        saga_db_ok_def admissible_def)

lemma start_saga_post:
  "admissible env oid db \<Longrightarrow> saga_post (start_saga svc env oid items amt data db w)"
  by (simp add: start_saga_begin payment_phase_post)

text \<open>What identifies a run never changes: the rows of other sagas, its id and its order.\<close>

definition identity :: "'w orch \<Rightarrow> saga_db \<times> string \<times> string" where
  "identity st = (base st, saga_id (cur st), sg_order_id (cur st))"

lemma identity_steps [frame_simps]:
  "identity (transition env s n ty d st) = identity st" "identity (complete env st) = identity st"
  "identity (committed st) = identity st" "identity (notify_order svc kw st) = identity st"
  "(\<And>r. saga_id (f r) = saga_id r) \<Longrightarrow> (\<And>r. sg_order_id (f r) = sg_order_id r) \<Longrightarrow>
     identity (modify_cur f st) = identity st"
  by (simp_all add: identity_def notify_order_def invoke_def split: option.splits prod.splits)

lemma identity_invoke: "invoke c f st = (r, st') \<Longrightarrow> identity st' = identity st"
  by (auto simp: identity_def invoke_def split: prod.splits)

lemma identity_ask_eta: "ask_eta svc data st = (a, st') \<Longrightarrow> identity st' = identity st"
  by (auto simp: ask_eta_def Let_def dest!: identity_invoke split: option.splits prod.splits sum.splits)

lemma identity_eta_update [frame_simps]: "identity (eta_update env a st) = identity st"
  by (simp add: eta_update_def frame_simps split: prod.splits option.splits)

lemma identity_then_commit:
  assumes "\<And>st. identity (snd (k st)) = identity st" and "identity st = i"
  shows "identity (snd (then_commit k st)) = i"
  using assms(2) by (auto simp: then_commit_def commit_def assms(1)) (simp_all add: identity_def)

lemma identity_cancel [frame_simps]: "identity (snd (cancel_saga svc env reason st)) = identity st"
  by (auto simp: cancel_saga_def return_result_def frame_simps intro!: identity_then_commit)

lemma identity_compensate [frame_simps]: "identity (snd (compensate svc env reason st)) = identity st"
  by (auto simp: compensate_def return_result_def Let_def frame_simps
        intro!: identity_then_commit dest!: identity_invoke split: prod.splits sum.splits)

lemma identity_eta_phase [frame_simps]: "identity (snd (eta_phase svc env data st)) = identity st"
  by (auto simp: eta_phase_def return_result_def Let_def frame_simps
        intro!: identity_then_commit dest!: identity_ask_eta split: prod.splits)

lemma identity_inventory_phase [frame_simps]: "identity (snd (inventory_phase svc env items data st)) = identity st"
  by (auto simp: inventory_phase_def Let_def frame_simps
        intro!: identity_then_commit dest!: identity_invoke split: prod.splits sum.splits)

lemma identity_payment_phase [frame_simps]: "identity (snd (payment_phase svc env items amt data st)) = identity st"
  by (auto simp: payment_phase_def fail_payment_def return_result_def Let_def frame_simps
        intro!: identity_then_commit dest!: identity_invoke split: prod.splits sum.splits)

lemma start_saga_identity:
  "identity (snd (start_saga svc env oid items amt data db w)) = (db, ''SAGA-'' @ se_uuid env, oid)"
  by (simp add: start_saga_begin frame_simps) (simp add: identity_def)

section \<open>The saga database\<close>

text \<open>
  The audit trail is complete: every logged step belongs to a saga of the table, and the steps of
  each saga lead along the diagram from \<open>CREATED\<close> to the state its row shows.
\<close>

definition saga_db_inv :: "saga_db \<Rightarrow> bool" where
  "saga_db_inv db \<longleftrightarrow>
     saga_db_ok (saga_instances db) \<and>
     (\<forall>l \<in> set (saga_step_logs db). log_saga_id l \<in> saga_id ` set (saga_instances db)) \<and>
     (\<forall>row \<in> set (saga_instances db). log_chain CREATED (get_saga_steps db (saga_id row)) (current_state row))"

lemma saga_db_after_admissible:
  assumes "admissible env oid db" and "start_saga svc env oid items amt data db w = (r, st)"
  shows "saga_db_after st = \<lparr>saga_instances = saga_instances db @ [cur st], saga_step_logs = saga_step_logs db @ logs st\<rparr>"
    and "well_logged st" and "saga_id (cur st) = ''SAGA-'' @ se_uuid env" and "sg_order_id (cur st) = oid"
  using start_saga_post [OF assms(1), of svc items amt data w]
    start_saga_identity [of svc env oid items amt data db w] assms(2)
  by (auto simp: saga_db_after_def synced_def identity_def)

lemma saga_db_after_refused:
  assumes "\<not> admissible env oid db" and "start_saga svc env oid items amt data db w = (r, st)"
  shows "r = Inl IntegrityError" and "saga_db_after st = db" and "world st = w" and "calls (trace st) = []"
  using assms by (auto simp: start_saga_begin saga_db_after_def)

lemma get_saga_steps_new:
  assumes "saga_db_inv db" and "admissible env oid db" and "start_saga svc env oid items amt data db w = (r, st)"
  shows "get_saga_steps (saga_db_after st) (saga_id (cur st)) = logs st"
    and "row \<in> set (saga_instances db) \<Longrightarrow> get_saga_steps (saga_db_after st) (saga_id row) = get_saga_steps db (saga_id row)"
proof -
  note after = saga_db_after_admissible [OF assms(2,3)]
  have mine: "\<forall>l \<in> set (logs st). log_saga_id l = saga_id (cur st)" using after(2) by (simp add: well_logged_def)
  have other: "\<forall>l \<in> set (saga_step_logs db). log_saga_id l \<noteq> saga_id (cur st)"
    using assms(1,2) after(3) unfolding saga_db_inv_def admissible_def by metis
  show "get_saga_steps (saga_db_after st) (saga_id (cur st)) = logs st"
    using mine other by (simp add: get_saga_steps_def after(1) filter_empty_conv)
  show "get_saga_steps (saga_db_after st) (saga_id row) = get_saga_steps db (saga_id row)"
    if "row \<in> set (saga_instances db)"
  proof -
    have "saga_id row \<noteq> saga_id (cur st)" using that assms(2) after(3) unfolding admissible_def by (metis imageI)
    with mine show ?thesis by (simp add: get_saga_steps_def after(1) filter_empty_conv)
  qed
qed

lemma saga_db_inv_start:
  assumes "saga_db_inv db"
  shows "saga_db_inv (saga_db_after (snd (start_saga svc env oid items amt data db w)))"
proof (cases "admissible env oid db")
  case True
  obtain r st where run: "start_saga svc env oid items amt data db w = (r, st)" by fastforce
  note after = saga_db_after_admissible [OF True run]
  have ok: "saga_db_ok (saga_instances db @ [cur st])"
    using True after(3,4) by (auto simp: admissible_def saga_db_ok_def)
  have chain: "log_chain CREATED (logs st) (current_state (cur st))"
    and ids: "\<forall>l \<in> set (logs st). log_saga_id l = saga_id (cur st)"
    using after(2) by (simp_all add: well_logged_def)
  show ?thesis
    using assms ok chain ids get_saga_steps_new [OF assms True run]
    by (auto simp: saga_db_inv_def run after(1))
next
  case False
  with assms saga_db_after_refused(2) show ?thesis by (metis prod.collapse)
qed

text \<open>Stub services with fixed answers, as the unit tests of the orchestrator use them.\<close>

definition stub_services ::
  "json_dict outcome \<Rightarrow> json_dict outcome \<Rightarrow> json_dict outcome \<Rightarrow> json_dict option outcome \<Rightarrow> nat saga_services" where
  "stub_services auth refund reserve eta =
     \<lparr>pay_authorize = (\<lambda>oid a k n. (auth, Suc n)), pay_refund = (\<lambda>oid p k n. (refund, Suc n)),
      inv_reserve = (\<lambda>oid is k n. (reserve, Suc n)), eta_predict = Some (\<lambda>d n. (eta, Suc n)), order_update = None\<rparr>"

definition stub_env :: saga_env where
  "stub_env = \<lparr>se_uuid = ''0A'', se_inserted = 1, se_clock = of_nat, se_sha256 = (\<lambda>s. s), se_str = (\<lambda>j. ''x'')\<rparr>"

abbreviation stub_authorized :: "json_dict outcome" where
  "stub_authorized \<equiv> Inr [(''status'', JStr ''AUTHORIZED''), (''payment_id'', JStr ''PAY-1'')]"

abbreviation stub_reserved :: "json_dict outcome" where
  "stub_reserved \<equiv> Inr [(''status'', JStr ''RESERVED''), (''reservation_id'', JStr ''RES-1'')]"

abbreviation stub_refunded :: "json_dict outcome" where
  "stub_refunded \<equiv> Inr [(''status'', JStr ''REFUNDED''), (''payment_id'', JStr ''REF-1'')]"

abbreviation stub_out_of_stock :: "json_dict outcome" where
  "stub_out_of_stock \<equiv> Inr [(''status'', JStr ''OUT_OF_STOCK''), (''message'', JStr ''none left'')]"

definition no_sagas :: saga_db where
  "no_sagas = \<lparr>saga_instances = [], saga_step_logs = []\<rparr>"

lemmas stub_simps = stub_services_def stub_env_def no_sagas_def admissible_def saga_db_ok_def saga_db_inv_def
lemma no_sagas_inv: "saga_db_inv no_sagas"
  by (simp add: stub_simps)

lemma stub_admissible: "admissible stub_env oid no_sagas"
  by (simp add: stub_simps)

lemma persisted_called [simp]: "persisted (st\<lparr>world := w, trace := t\<rparr>) = persisted st"
  by (simp add: persisted_def)

lemma stub_cancelled_run:
  "\<exists>res st. start_saga (stub_services stub_authorized stub_refunded stub_out_of_stock (Inr None))
       stub_env ''O1'' [''pizza''] 10 None no_sagas 0 = (Inr res, st) \<and> sr_state res = CANCELLED"
  by (simp add: start_saga_begin stub_admissible payment_phase_def inventory_phase_def compensate_def cancel_saga_def
      invoke_def then_commit_later notify_order_def return_result_def dict_get_or_def dict_index_def Let_def stub_services_def
      saga_result_of_def)

section \<open>Properties\<close>

text \<open>
  C5: The audit trail is complete. If every logged step belongs to a saga of the table and the
  steps of every saga lead along the state diagram from CREATED to the state in its row, then the
  same holds of what is committed after one more \<^verbatim>\<open>start_saga\<close>, whatever the services answered or
  raised and whether or not the call itself raised.
\<close>

theorem saga_audit_trail:
  "saga_db_inv db \<Longrightarrow> saga_db_inv (saga_db_after (snd (start_saga svc env oid items amt data db w)))"
  by (rule saga_db_inv_start)

theorem saga_audit_trail_witness:
  "saga_db_inv (saga_db_after (snd (start_saga (stub_services stub_authorized stub_refunded stub_out_of_stock (Inr None))
     stub_env ''O1'' [''pizza''] 10 None no_sagas 0)))"
  by (rule saga_audit_trail [OF no_sagas_inv])

text \<open>
  Write-ahead. No call to a service is made while a transition is uncommitted: in the trace of
  any \<^verbatim>\<open>start_saga\<close>, whatever the services answer or raise, a commit lies between each transition
  and the next outgoing call.
\<close>

theorem saga_write_ahead:
  "write_ahead False (trace (snd (start_saga svc env oid items amt data db w)))"
proof (cases "admissible env oid db")
  case True
  then show ?thesis
    using start_saga_post [OF True, of svc items amt data w]
    by (cases "start_saga svc env oid items amt data db w") (simp add: well_logged_def)
next
  case False
  have "well_logged (started env oid db w)" by simp
  with False show ?thesis by (simp add: start_saga_begin well_logged_def)
qed

text \<open>
  What \<^verbatim>\<open>start_saga\<close> returns is durable and final: the state is CONFIRMED, CONFIRMED_DEGRADED,
  CANCELLED or MANUAL_REVIEW, \<^verbatim>\<open>get_saga_status\<close> for the order then returns the same result, and
  \<^verbatim>\<open>get_saga_steps\<close> a chain of steps from CREATED to that state that never passes ETA_OK or
  ETA_FAILED.
\<close>

theorem saga_result_durable:
  assumes "saga_db_inv db" and "start_saga svc env oid items amt data db w = (Inr res, st)"
  shows "sr_state res \<in> {CONFIRMED, CONFIRMED_DEGRADED, CANCELLED, MANUAL_REVIEW} \<and>
    get_saga_status (saga_db_after st) oid = Some res \<and>
    log_chain CREATED (get_saga_steps (saga_db_after st) (sr_saga_id res)) (sr_state res) \<and>
    (\<forall>l \<in> set (get_saga_steps (saga_db_after st) (sr_saga_id res)). to_state l \<notin> {ETA_OK, ETA_FAILED})"
proof -
  have adm: "admissible env oid db" using assms(2) saga_db_after_refused(1) by (metis sum.distinct(1))
  note after = saga_db_after_admissible [OF adm assms(2)]
  note steps = get_saga_steps_new(1) [OF assms(1) adm assms(2)]
  have post: "res = saga_result_of (cur st)" "current_state (cur st) \<in> final_states"
    using start_saga_post [OF adm, of svc items amt data w] assms(2) by simp_all
  have chain: "log_chain CREATED (logs st) (current_state (cur st))"
    using after(2) by (simp add: well_logged_def)
  have "find (\<lambda>s. sg_order_id s = oid) (saga_instances db) = None"
    using adm by (auto simp: find_None_iff admissible_def)
  then have "get_saga_status (saga_db_after st) oid = Some res"
    by (simp add: get_saga_status_def after find_snoc post(1))
  then show ?thesis
    using post chain steps log_chain_never_eta [OF chain] by (auto simp: final_states_def saga_result_of_def)
qed

theorem saga_result_durable_witness:
  "\<exists>res st. start_saga (stub_services stub_authorized stub_refunded stub_out_of_stock (Inr None))
       stub_env ''O1'' [''pizza''] 10 None no_sagas 0 = (Inr res, st) \<and> sr_state res = CANCELLED \<and>
     get_saga_status (saga_db_after st) ''O1'' = Some res"
proof -
  obtain res st where run: "start_saga (stub_services stub_authorized stub_refunded stub_out_of_stock (Inr None))
       stub_env ''O1'' [''pizza''] 10 None no_sagas 0 = (Inr res, st)" and "sr_state res = CANCELLED"
    using stub_cancelled_run by blast
  with saga_result_durable [OF no_sagas_inv run] show ?thesis by blast
qed

text \<open>
  One saga per order. Starting a saga for an order that already has one raises the database's
  integrity error: no service is called, the world is as before and nothing is committed.
\<close>

theorem saga_once_per_order:
  assumes "oid \<in> sg_order_id ` set (saga_instances db)"
  shows "\<exists>st. start_saga svc env oid items amt data db w = (Inl IntegrityError, st) \<and>
    calls (trace st) = [] \<and> world st = w \<and> saga_db_after st = db"
  using assms saga_db_after_refused [of env oid db]
  by (simp add: start_saga_begin admissible_def saga_db_after_def)

theorem saga_once_per_order_witness:
  "\<exists>st. start_saga (stub_services stub_authorized stub_refunded stub_reserved (Inr None)) stub_env ''O1'' [''pizza''] 10 None
      \<lparr>saga_instances = [cur (started stub_env ''O1'' no_sagas (0::nat))], saga_step_logs = []\<rparr> 0 = (Inl IntegrityError, st) \<and>
    calls (trace st) = []"
  using saga_once_per_order [of "''O1''"
      "\<lparr>saga_instances = [cur (started stub_env ''O1'' no_sagas (0::nat))], saga_step_logs = []\<rparr>"
      "stub_services stub_authorized stub_refunded stub_reserved (Inr None)" stub_env "[''pizza'']" 10 None 0]
  by auto

end
