(* ===== verification/Saga_Protocol.thy ===== *)
theory Saga_Protocol
  imports Saga
begin

text \<open>
  The order of the orchestrator's calls. The protocol of a saga is stated as an inductive relation
  that knows nothing of rows, logs and commits; the orchestrator is shown to refine it, and the
  guarantees about compensation, degraded confirmation and cancellation follow by rule inversion.
\<close>

section \<open>The protocol\<close>

text \<open>
  The orchestration without its persistence: which services a completed saga calls, in which order,
  with which keys, and which final state that gives. \<open>side_calls\<close> are the calls whose answer cannot
  change the outcome for the order: the ETA prediction and the notification of the order service.
\<close>

inductive side_calls :: "'w saga_services \<Rightarrow> 'w \<Rightarrow> 'w \<Rightarrow> saga_call list \<Rightarrow> bool" for svc where
  none: "side_calls svc w w []"
| predict: "eta_predict svc = Some f \<Longrightarrow> f data w = (r, w1) \<Longrightarrow> side_calls svc w1 w2 cs \<Longrightarrow>
    side_calls svc w w2 (CallPredict data # cs)"
| update: "order_update svc = Some f \<Longrightarrow> f kw w = (r, w1) \<Longrightarrow> side_calls svc w1 w2 cs \<Longrightarrow>
    side_calls svc w w2 (CallUpdateStatus kw # cs)"

inductive compensate_plan ::
  "'w saga_services \<Rightarrow> string \<Rightarrow> string \<Rightarrow> json \<Rightarrow> 'w \<Rightarrow> saga_state \<Rightarrow> 'w \<Rightarrow> saga_call list \<Rightarrow> bool"
  for svc key oid pid where
  refunded: "py_truthy pid \<Longrightarrow> pay_refund svc oid pid key w = (Inr d, w1) \<Longrightarrow> side_calls svc w1 w2 cs \<Longrightarrow>
    compensate_plan svc key oid pid w CANCELLED w2 (CallRefund oid pid key # cs)"
| stuck: "py_truthy pid \<Longrightarrow> pay_refund svc oid pid key w = (Inl e, w1) \<Longrightarrow>
    compensate_plan svc key oid pid w MANUAL_REVIEW w1 [CallRefund oid pid key]"
| unpaid: "\<not> py_truthy pid \<Longrightarrow> side_calls svc w w1 cs \<Longrightarrow>
    compensate_plan svc key oid pid w CANCELLED w1 cs"

fun answers :: "string \<Rightarrow> json_dict outcome \<Rightarrow> bool" where
  "answers status (Inl e) = False"
| "answers status (Inr d) = (dict_get d ''status'' = JStr status)"

abbreviation step_key :: "saga_env \<Rightarrow> string \<Rightarrow> string \<Rightarrow> string \<Rightarrow> string" where
  "step_key env sid service action \<equiv> generate_idempotency_key (se_sha256 env) [sid, service, action]"

inductive saga_plan ::
  "'w saga_services \<Rightarrow> saga_env \<Rightarrow> string \<Rightarrow> string \<Rightarrow> string list \<Rightarrow> rat \<Rightarrow>
   'w \<Rightarrow> saga_state \<Rightarrow> 'w \<Rightarrow> saga_call list \<Rightarrow> bool"
  for svc env sid oid items amt where
  unpaid: "pay_authorize svc oid amt (step_key env sid ''payment'' ''authorize'') w = (p, w1) \<Longrightarrow>
    \<not> answers ''AUTHORIZED'' p \<Longrightarrow>
    saga_plan svc env sid oid items amt w CANCELLED w1
      [CallAuthorize oid amt (step_key env sid ''payment'' ''authorize'')]"
| unreserved: "pay_authorize svc oid amt (step_key env sid ''payment'' ''authorize'') w = (Inr d, w1) \<Longrightarrow>
    answers ''AUTHORIZED'' (Inr d) \<Longrightarrow> map_of d ''payment_id'' = Some pid \<Longrightarrow>
    inv_reserve svc oid items (step_key env sid ''inventory'' ''reserve'') w1 = (r, w2) \<Longrightarrow>
    \<not> answers ''RESERVED'' r \<Longrightarrow>
    compensate_plan svc (step_key env sid ''payment'' ''refund'') oid pid w2 s w3 cs \<Longrightarrow>
    saga_plan svc env sid oid items amt w s w3
      (CallAuthorize oid amt (step_key env sid ''payment'' ''authorize'') #
       CallReserve oid items (step_key env sid ''inventory'' ''reserve'') # cs)"
| confirmed: "pay_authorize svc oid amt (step_key env sid ''payment'' ''authorize'') w = (Inr d, w1) \<Longrightarrow>
    answers ''AUTHORIZED'' (Inr d) \<Longrightarrow>
    inv_reserve svc oid items (step_key env sid ''inventory'' ''reserve'') w1 = (r, w2) \<Longrightarrow>
    answers ''RESERVED'' r \<Longrightarrow> s \<in> {CONFIRMED, CONFIRMED_DEGRADED} \<Longrightarrow> side_calls svc w2 w3 cs \<Longrightarrow>
    saga_plan svc env sid oid items amt w s w3
      (CallAuthorize oid amt (step_key env sid ''payment'' ''authorize'') #
       CallReserve oid items (step_key env sid ''inventory'' ''reserve'') # cs)"

inductive_cases saga_plan_confirmedE: "saga_plan svc env sid oid items amt w CONFIRMED w' cs"
inductive_cases saga_plan_cancelledE: "saga_plan svc env sid oid items amt w CANCELLED w' cs"
inductive_cases compensate_planE: "compensate_plan svc key oid pid w s w' cs"

text \<open>\<open>reaches\<close> relates a phase's result to the world and the calls it added.\<close>

definition reaches ::
  "(saga_state \<Rightarrow> 'w \<Rightarrow> saga_call list \<Rightarrow> bool) \<Rightarrow> 'w orch \<Rightarrow> saga_result outcome \<times> 'w orch \<Rightarrow> bool" where
  "reaches P st out \<longleftrightarrow>
     (\<forall>res st'. out = (Inr res, st') \<longrightarrow>
        (\<exists>cs. calls (trace st') = calls (trace st) @ cs \<and> P (sr_state res) (world st') cs))"

lemma reaches_weaken:
  assumes "reaches P st' out" and "calls (trace st') = calls (trace st) @ pre"
    and "\<And>s w cs. P s w cs \<Longrightarrow> Q s w (pre @ cs)"
  shows "reaches Q st out"
  using assms by (fastforce simp: reaches_def)

lemma invoke_reaches:
  "invoke c f st = (r, st') \<Longrightarrow> f (world st) = (r, world st') \<and> calls (trace st') = calls (trace st) @ [c] \<and>
     cur st' = cur st \<and> persisted st' = persisted st"
  by (auto simp: invoke_def persisted_def split: prod.splits)

lemma notify_side_calls:
  "\<exists>cs. side_calls svc (world st) (world (notify_order svc kw st)) cs \<and>
     calls (trace (notify_order svc kw st)) = calls (trace st) @ cs"
  by (force simp: notify_order_def invoke_def split: option.splits prod.splits
        intro: side_calls.none side_calls.update [OF _ _ side_calls.none])

lemma notify_order_cur [simp]: "cur (notify_order svc kw st) = cur st"
  by (simp add: notify_order_def invoke_def split: option.splits prod.splits)

lemma saga_result_state [simp]: "sr_state (saga_result_of saga) = current_state saga"
  by (simp add: saga_result_of_def)

lemma cancel_saga_reaches:
  assumes "persisted st"
  shows "reaches (\<lambda>s w cs. s = CANCELLED \<and> side_calls svc (world st) w cs) st (cancel_saga svc env reason st)"
proof -
  let ?st = "committed (complete env (modify_cur (\<lambda>saga. saga\<lparr>sg_error_reason := reason\<rparr>)
          (transition env CANCELLED ''saga_cancelled'' COMPENSATE reason st)))"
  show ?thesis
    using assms notify_side_calls [of svc ?st] by (auto simp: cancel_saga_def then_commit_later return_result_def reaches_def)
qed

lemma compensate_reaches:
  assumes "persisted st"
  shows "reaches (compensate_plan svc (step_key env (saga_id (cur st)) ''payment'' ''refund'')
           (sg_order_id (cur st)) (sg_payment_id (cur st)) (world st)) st (compensate svc env reason st)"
    (is "reaches (compensate_plan svc ?key ?oid ?pid _) _ _")
proof (cases "py_truthy ?pid")
  case True
  let ?st = "committed (transition env REFUNDING ''compensate_refund_start'' COMPENSATE JNull st)"
  obtain r st' where inv: "invoke (CallRefund ?oid ?pid ?key) (pay_refund svc ?oid ?pid ?key) ?st = (r, st')"
    by fastforce
  note st' = invoke_reaches [OF inv]
  show ?thesis
  proof (cases r)
    case (Inl e)
    with True inv assms st' show ?thesis
      by (auto simp: compensate_def then_commit_later Let_def return_result_def reaches_def
          intro: compensate_plan.stuck)
  next
    case (Inr d)
    let ?st' = "transition env REFUNDED ''compensate_refund_done'' COMPENSATE (dict_get d ''payment_id'')
       (modify_cur (\<lambda>saga. saga\<lparr>sg_refund_id := dict_get d ''payment_id''\<rparr>) st')"
    have "compensate svc env reason st = cancel_saga svc env reason ?st'"
      using True inv Inr assms by (simp add: compensate_def then_commit_later Let_def)
    moreover have "reaches (compensate_plan svc ?key ?oid ?pid (world st)) st (cancel_saga svc env reason ?st')"
      by (rule reaches_weaken [OF cancel_saga_reaches, where pre = "[CallRefund ?oid ?pid ?key]"])
         (use st' Inr True in \<open>auto intro: compensate_plan.refunded\<close>)
    ultimately show ?thesis by simp
  qed
next
  case False
  have "reaches (compensate_plan svc ?key ?oid ?pid (world st)) st (cancel_saga svc env reason st)"
    by (rule reaches_weaken [OF cancel_saga_reaches [OF assms], where pre = "[]"])
       (use False in \<open>auto intro: compensate_plan.unpaid\<close>)
  with False show ?thesis by (simp add: compensate_def)
qed

lemma ask_eta_reaches:
  assumes "ask_eta svc data st = (a, st')"
  shows "persisted st' = persisted st \<and> cur st' = cur st \<and>
    (\<exists>cs. calls (trace st') = calls (trace st) @ cs \<and>
       (\<forall>w ds. side_calls svc (world st') w ds \<longrightarrow> side_calls svc (world st) w (cs @ ds)))"
proof (cases "eta_predict svc")
  case None
  with assms show ?thesis by (auto simp: ask_eta_def)
next
  case (Some f)
  let ?data = "case data of None \<Rightarrow> [] | Some d \<Rightarrow> d"
  obtain r st1 where inv: "invoke (CallPredict ?data) (f ?data) st = (r, st1)" by fastforce
  with Some assms have "st' = st1"
    by (auto simp: ask_eta_def Let_def split: sum.splits option.splits)
  with invoke_reaches [OF inv] Some show ?thesis
    by (auto intro: side_calls.predict)
qed

lemma eta_update_fields:
  "current_state (cur (eta_update env a st)) \<in> {CONFIRMED, CONFIRMED_DEGRADED}"
  "persisted (eta_update env a st) = persisted st" "world (eta_update env a st) = world st"
  "calls (trace (eta_update env a st)) = calls (trace st)"
  by (auto simp: eta_update_def split: prod.splits option.splits)

lemma eta_phase_reaches:
  assumes "persisted st"
  shows "reaches (\<lambda>s w cs. s \<in> {CONFIRMED, CONFIRMED_DEGRADED} \<and> side_calls svc (world st) w cs) st
           (eta_phase svc env data st)"
proof -
  let ?st = "committed (transition env ETA_PENDING ''eta_request_start'' FORWARD JNull st)"
  obtain a st' where ask: "ask_eta svc data ?st = (a, st')" by fastforce
  let ?st' = "committed (complete env (eta_update env a st'))"
  from ask_eta_reaches [OF ask] obtain cs where cs: "persisted st'"
    "calls (trace st') = calls (trace st) @ cs"
    "\<And>w ds. side_calls svc (world st') w ds \<Longrightarrow> side_calls svc (world st) w (cs @ ds)"
    by auto
  let ?kw = "[(''order_id'', JStr (sg_order_id (cur ?st'))), (''new_status'', JStr (saga_state_value (current_state (cur ?st')))),
      (''eta_minutes'', sg_eta_minutes (cur ?st')), (''eta_lower'', sg_eta_lower (cur ?st')),
      (''eta_upper'', sg_eta_upper (cur ?st')), (''degraded'', JBool (sg_degraded (cur ?st') \<noteq> 0))]"
  have eq: "eta_phase svc env data st = return_result (notify_order svc ?kw ?st')"
    using assms ask cs(1) by (simp add: eta_phase_def then_commit_later Let_def eta_update_fields)
  obtain ds where ds: "side_calls svc (world ?st') (world (notify_order svc ?kw ?st')) ds"
    "calls (trace (notify_order svc ?kw ?st')) = calls (trace ?st') @ ds"
    using notify_side_calls by blast
  show ?thesis
    unfolding eq reaches_def return_result_def
    using cs ds eta_update_fields(1) [of env a st'] by (auto simp: eta_update_fields)
qed

lemma inventory_phase_reaches:
  assumes "persisted st"
    and "pay_authorize svc (sg_order_id (cur st)) amt (step_key env (saga_id (cur st)) ''payment'' ''authorize'') w
           = (Inr d, world st)"
    and "answers ''AUTHORIZED'' (Inr d)" and "map_of d ''payment_id'' = Some (sg_payment_id (cur st))"
  shows "reaches (\<lambda>s w' cs. saga_plan svc env (saga_id (cur st)) (sg_order_id (cur st)) items amt w s w'
             (CallAuthorize (sg_order_id (cur st)) amt (step_key env (saga_id (cur st)) ''payment'' ''authorize'') # cs))
           st (inventory_phase svc env items data st)"
    (is "reaches ?P _ _")
proof -
  let ?oid = "sg_order_id (cur st)" and ?key = "step_key env (saga_id (cur st)) ''inventory'' ''reserve''"
  let ?st = "committed (transition env INVENTORY_PENDING ''inventory_reserve_start'' FORWARD JNull st)"
  let ?pre = "[CallReserve ?oid items ?key]"
  obtain r st' where inv: "invoke (CallReserve ?oid items ?key) (inv_reserve svc ?oid items ?key) ?st = (r, st')"
    by fastforce
  note st' = invoke_reaches [OF inv]
  note unreserved = saga_plan.unreserved [OF assms(2,3,4), of items r "world st'"]
  note confirmed = saga_plan.confirmed [OF assms(2,3), of items r "world st'"]
  have comp: "reaches ?P st (compensate svc env reason st2)"
    if "\<not> answers ''RESERVED'' r" and "st2 = committed (transition env INVENTORY_FAILED n FORWARD dt st')" for reason st2 n dt
    by (rule reaches_weaken [OF compensate_reaches, where pre = ?pre])
       (use that st' unreserved in auto)
  show ?thesis
  proof (cases r)
    case (Inl e)
    with assms inv st' show ?thesis
      by (auto simp: inventory_phase_def then_commit_later Let_def intro!: comp)
  next
    case (Inr x)
    show ?thesis
    proof (cases "answers ''RESERVED'' r")
      case False
      with Inr assms inv st' show ?thesis
        by (auto simp: inventory_phase_def then_commit_later Let_def intro!: comp)
    next
      case True
      have eta: "reaches ?P st (eta_phase svc env data (committed (transition env INVENTORY_OK n FORWARD rid
          (modify_cur (\<lambda>saga. saga\<lparr>sg_reservation_id := rid\<rparr>) st'))))" for n rid
        by (rule reaches_weaken [OF eta_phase_reaches, where pre = ?pre])
           (use True st' confirmed in auto)
      with True Inr assms inv st' show ?thesis
        by (auto simp: inventory_phase_def then_commit_later Let_def dict_index_def reaches_def
             split: option.splits)
    qed
  qed
qed

lemma payment_phase_reaches:
  assumes "persisted st"
  shows "reaches (saga_plan svc env (saga_id (cur st)) (sg_order_id (cur st)) items amt (world st)) st
           (payment_phase svc env items amt data st)"
    (is "reaches ?P _ _")
proof -
  let ?oid = "sg_order_id (cur st)" and ?key = "step_key env (saga_id (cur st)) ''payment'' ''authorize''"
  obtain r st' where inv: "invoke (CallAuthorize ?oid amt ?key) (pay_authorize svc ?oid amt ?key) st = (r, st')"
    by fastforce
  note st' = invoke_reaches [OF inv]
  note unpaid = saga_plan.unpaid [of svc ?oid amt env "saga_id (cur st)" "world st" r "world st'" items]
  have fail: "reaches ?P st (fail_payment env n1 dt n2 reason st')" if "\<not> answers ''AUTHORIZED'' r" for n1 dt n2 reason
    using that st' assms unpaid
    by (auto simp: reaches_def fail_payment_def then_commit_later return_result_def)
  show ?thesis
  proof (cases r)
    case (Inl e)
    with inv fail show ?thesis by (auto simp: payment_phase_def Let_def)
  next
    case (Inr d)
    show ?thesis
    proof (cases "answers ''AUTHORIZED'' r")
      case False
      with Inr inv fail show ?thesis by (auto simp: payment_phase_def Let_def)
    next
      case True
      have "reaches ?P st (inventory_phase svc env items data (committed (transition env PAYMENT_OK n FORWARD pid
          (modify_cur (\<lambda>saga. saga\<lparr>sg_payment_id := pid\<rparr>) st'))))" if "map_of d ''payment_id'' = Some pid" for n pid
        by (rule reaches_weaken [OF inventory_phase_reaches, where pre = "[CallAuthorize ?oid amt ?key]"])
           (use that True Inr st' assms in auto)
      with True Inr assms inv st' show ?thesis
        by (auto simp: payment_phase_def then_commit_later Let_def dict_index_def reaches_def
             split: option.splits)
    qed
  qed
qed

lemma start_saga_plan:
  assumes "start_saga svc env oid items amt data db w = (Inr res, st)"
  shows "saga_plan svc env (''SAGA-'' @ se_uuid env) oid items amt w (sr_state res) (world st) (calls (trace st))"
  using assms payment_phase_reaches [of "committed (started env oid db w)" svc env items amt data]
  by (auto simp: start_saga_begin reaches_def split: if_splits)


section \<open>When a saga returns\<close>

lemma cancel_saga_returns: "persisted st \<Longrightarrow> \<exists>res st'. cancel_saga svc env reason st = (Inr res, st')"
  by (simp add: cancel_saga_def then_commit_later return_result_def)

lemma compensate_returns:
  assumes "persisted st"
  shows "\<exists>res st'. compensate svc env reason st = (Inr res, st')"
  using assms
  by (auto simp: compensate_def then_commit_later Let_def return_result_def invoke_reaches
        dest!: invoke_reaches intro!: cancel_saga_returns split: prod.splits sum.splits)

lemma eta_phase_returns: "persisted st \<Longrightarrow> \<exists>res st'. eta_phase svc env data st = (Inr res, st')"
  by (auto simp: eta_phase_def then_commit_later Let_def return_result_def eta_update_fields
        dest!: ask_eta_reaches split: prod.splits)

text \<open>
  The two answers the orchestrator indexes without checking must carry their identifier, else the
  run ends with a \<^verbatim>\<open>KeyError\<close>.
\<close>

definition well_formed_answer :: "string \<Rightarrow> string \<Rightarrow> json_dict outcome \<Rightarrow> bool" where
  "well_formed_answer status key r \<longleftrightarrow>
     (\<forall>d. r = Inr d \<longrightarrow> dict_get d ''status'' = JStr status \<longrightarrow> map_of d key \<noteq> None)"

lemma inventory_phase_returns:
  assumes "persisted st"
    and "\<And>o' is k w. well_formed_answer ''RESERVED'' ''reservation_id'' (fst (inv_reserve svc o' is k w))"
  shows "\<exists>res st'. inventory_phase svc env items data st = (Inr res, st')"
proof -
  let ?st = "committed (transition env INVENTORY_PENDING ''inventory_reserve_start'' FORWARD JNull st)"
  let ?oid = "sg_order_id (cur st)" and ?key = "step_key env (saga_id (cur st)) ''inventory'' ''reserve''"
  obtain r st' where inv: "invoke (CallReserve ?oid items ?key) (inv_reserve svc ?oid items ?key) ?st = (r, st')"
    by fastforce
  note st' = invoke_reaches [OF inv]
  have "well_formed_answer ''RESERVED'' ''reservation_id'' r"
    using assms(2) st' by (metis fst_conv)
  with inv assms(1) st' show ?thesis
    by (cases r) (auto simp: inventory_phase_def then_commit_later Let_def dict_index_def well_formed_answer_def
          intro!: compensate_returns eta_phase_returns split: option.splits)
qed

lemma payment_phase_returns:
  assumes "persisted st"
    and "\<And>o' a k w. well_formed_answer ''AUTHORIZED'' ''payment_id'' (fst (pay_authorize svc o' a k w))"
    and "\<And>o' is k w. well_formed_answer ''RESERVED'' ''reservation_id'' (fst (inv_reserve svc o' is k w))"
  shows "\<exists>res st'. payment_phase svc env items amt data st = (Inr res, st')"
proof -
  let ?oid = "sg_order_id (cur st)" and ?key = "step_key env (saga_id (cur st)) ''payment'' ''authorize''"
  obtain r st' where inv: "invoke (CallAuthorize ?oid amt ?key) (pay_authorize svc ?oid amt ?key) st = (r, st')"
    by fastforce
  note st' = invoke_reaches [OF inv]
  have "well_formed_answer ''AUTHORIZED'' ''payment_id'' r"
    using assms(2) st' by (metis fst_conv)
  with inv assms st' show ?thesis
    by (cases r) (auto simp: payment_phase_def fail_payment_def return_result_def then_commit_later Let_def
          dict_index_def well_formed_answer_def intro!: inventory_phase_returns split: option.splits)
qed

lemma start_saga_returns:
  assumes "admissible env oid db"
    and "\<And>o' a k w. well_formed_answer ''AUTHORIZED'' ''payment_id'' (fst (pay_authorize svc o' a k w))"
    and "\<And>o' is k w. well_formed_answer ''RESERVED'' ''reservation_id'' (fst (inv_reserve svc o' is k w))"
  shows "\<exists>res st. start_saga svc env oid items amt data db w = (Inr res, st)"
  using assms by (simp add: start_saga_begin payment_phase_returns)

text \<open>Where the run stands once payment and reservation have answered.\<close>

lemma start_saga_paid:
  assumes "admissible env oid db"
    and "pay_authorize svc oid amt (step_key env (''SAGA-'' @ se_uuid env) ''payment'' ''authorize'') w = (Inr d, w1)"
    and "answers ''AUTHORIZED'' (Inr d)" and "map_of d ''payment_id'' = Some pid"
  shows "\<exists>st. start_saga svc env oid items amt data db w = inventory_phase svc env items data st \<and> persisted st \<and>
    world st = w1 \<and> sg_order_id (cur st) = oid \<and> saga_id (cur st) = ''SAGA-'' @ se_uuid env"
  using assms
  by (simp add: start_saga_begin payment_phase_def Let_def invoke_def dict_index_def then_commit_later)
     (intro exI conjI, rule refl, simp_all)

lemma inventory_phase_failed:
  assumes "persisted st" and "\<not> answers ''RESERVED'' r"
    and "inv_reserve svc (sg_order_id (cur st)) items (step_key env (saga_id (cur st)) ''inventory'' ''reserve'') (world st) = (r, w2)"
  shows "\<exists>reason st'. inventory_phase svc env items data st = compensate svc env reason st' \<and> persisted st'"
  using assms
  by (cases r; simp add: inventory_phase_def Let_def invoke_def then_commit_later)
     (intro exI conjI, rule refl, simp)+

lemma inventory_phase_reserved:
  assumes "persisted st" and "answers ''RESERVED'' (Inr x)" and "map_of x ''reservation_id'' = Some rid"
    and "inv_reserve svc (sg_order_id (cur st)) items (step_key env (saga_id (cur st)) ''inventory'' ''reserve'') (world st) = (Inr x, w2)"
  shows "\<exists>st'. inventory_phase svc env items data st = eta_phase svc env data st' \<and> persisted st'"
  using assms
  by (simp add: inventory_phase_def Let_def invoke_def then_commit_later dict_index_def)
     (intro exI conjI, rule refl, simp)

fun is_side_call :: "saga_call \<Rightarrow> bool" where
  "is_side_call (CallPredict d) = True"
| "is_side_call (CallUpdateStatus kw) = True"
| "is_side_call c = False"

lemma side_calls_kind: "side_calls svc w w' cs \<Longrightarrow> list_all is_side_call cs"
  by (induction rule: side_calls.induct) auto

inductive_cases saga_planE: "saga_plan svc env sid oid items amt w s w' cs"

text \<open>A payment that is not authorised ends the run after its one call.\<close>

lemma start_saga_unpaid:
  assumes "admissible env oid db"
    and "pay_authorize svc oid amt (step_key env (''SAGA-'' @ se_uuid env) ''payment'' ''authorize'') w = (p, w1)"
    and "\<not> answers ''AUTHORIZED'' p"
  shows "\<exists>res st. start_saga svc env oid items amt data db w = (Inr res, st) \<and> sr_state res = CANCELLED \<and>
    calls (trace st) = [CallAuthorize oid amt (step_key env (''SAGA-'' @ se_uuid env) ''payment'' ''authorize'')] \<and>
    world st = w1"
proof -
  obtain res st where run: "start_saga svc env oid items amt data db w = (Inr res, st)"
    using assms by (cases p) (auto simp: start_saga_begin payment_phase_def Let_def invoke_def fail_payment_def
        then_commit_later return_result_def)
  from start_saga_plan [OF run] assms show ?thesis
    by (cases rule: saga_plan.cases) (auto simp: run simp del: answers.simps)
qed

section \<open>What no saga changes\<close>

text \<open>
  A property of the world that every service call of an orchestrator keeps holds after a run if it
  held before, however the run ends. Of the order service's updates only those with a \<^verbatim>\<open>new_status\<close>
  argument, as the orchestrator sends, need to keep it.
\<close>

locale saga_world_invariant =
  fixes svc :: "'w saga_services" and P :: "'w \<Rightarrow> bool"
  assumes authorize: "P w \<Longrightarrow> P (snd (pay_authorize svc oid amt k w))"
    and refund: "P w \<Longrightarrow> P (snd (pay_refund svc oid pid k w))"
    and reserve: "P w \<Longrightarrow> P (snd (inv_reserve svc oid items k w))"
    and predict: "eta_predict svc = Some f \<Longrightarrow> P w \<Longrightarrow> P (snd (f d w))"
    and update: "order_update svc = Some g \<Longrightarrow> ''new_status'' \<in> set (map fst kw) \<Longrightarrow> P w \<Longrightarrow> P (snd (g kw w))"
begin

lemma then_commit_P:
  assumes "\<And>st. P (world st) \<Longrightarrow> P (world (snd (k st)))" and "P (world st)"
  shows "P (world (snd (then_commit k st)))"
  using assms by (auto simp: then_commit_def commit_def)

lemma invoke_P: "invoke c f st = (r, st') \<Longrightarrow> P (snd (f (world st))) \<Longrightarrow> P (world st')"
  by (auto simp: invoke_def split: prod.splits)

lemma notify_P: "''new_status'' \<in> set (map fst kw) \<Longrightarrow> P (world st) \<Longrightarrow> P (world (notify_order svc kw st))"
  using update [of _ kw "world st"] by (cases "order_update svc") (auto simp: notify_order_def invoke_def split: prod.splits)

lemma cancel_P: "P (world st) \<Longrightarrow> P (world (snd (cancel_saga svc env reason st)))"
  by (auto simp: cancel_saga_def return_result_def intro!: then_commit_P notify_P)

lemma compensate_P: "P (world st) \<Longrightarrow> P (world (snd (compensate svc env reason st)))"
  by (auto simp: compensate_def Let_def return_result_def
      intro!: then_commit_P cancel_P dest!: invoke_P [OF _ refund] split: prod.splits sum.splits)

lemma eta_phase_P:
  assumes "P (world st)"
  shows "P (world (snd (eta_phase svc env data st)))"
proof -
  have "P (world st')" if "ask_eta svc data st = (a, st')" "P (world st)" for st a st'
    using that predict
    by (auto simp: ask_eta_def Let_def dest!: invoke_P split: option.splits prod.splits sum.splits)
  with assms show ?thesis
    by (auto simp: eta_phase_def Let_def return_result_def eta_update_fields
        intro!: then_commit_P notify_P split: prod.splits)
qed

lemma inventory_phase_P: "P (world st) \<Longrightarrow> P (world (snd (inventory_phase svc env items data st)))"
  by (auto simp: inventory_phase_def Let_def
      intro!: then_commit_P compensate_P eta_phase_P dest!: invoke_P [OF _ reserve] split: prod.splits sum.splits)

lemma payment_phase_P: "P (world st) \<Longrightarrow> P (world (snd (payment_phase svc env items amt data st)))"
  by (auto simp: payment_phase_def fail_payment_def return_result_def Let_def
      intro!: then_commit_P inventory_phase_P dest!: invoke_P [OF _ authorize] split: prod.splits sum.splits)

lemma start_saga_P: "P w \<Longrightarrow> P (world (snd (start_saga svc env oid items amt data db w)))"
  by (simp add: start_saga_begin payment_phase_P)

end

section \<open>What a saga does to money and stock\<close>

text \<open>
  The contract of the services behind the orchestrator, over a world in which an order's net charge
  and an item's stock can be read off. \<open>reliable\<close> says that answers are not lost, \<open>fresh\<close> that an
  idempotency key has not been used, \<open>owes\<close> that the order has been charged the amount under the
  payment id.
\<close>

locale saga_backend =
  fixes svc :: "'w saga_services"
    and charged :: "'w \<Rightarrow> string \<Rightarrow> rat"
    and stocked :: "'w \<Rightarrow> string \<Rightarrow> int"
    and reliable :: "'w \<Rightarrow> bool"
    and fresh :: "'w \<Rightarrow> string \<Rightarrow> bool"
    and owes :: "'w \<Rightarrow> string \<Rightarrow> json \<Rightarrow> rat \<Rightarrow> bool"
  assumes authorize: "reliable w \<Longrightarrow> fresh w k \<Longrightarrow> pay_authorize svc oid amt k w = (r, w') \<Longrightarrow>
      reliable w' \<and> stocked w' = stocked w \<and> (\<forall>k'. k' \<noteq> k \<longrightarrow> fresh w k' \<longrightarrow> fresh w' k') \<and>
      (if answers ''AUTHORIZED'' r
       then charged w' = (charged w)(oid := charged w oid + amt) \<and>
         (\<forall>d pid. r = Inr d \<longrightarrow> map_of d ''payment_id'' = Some pid \<longrightarrow> py_truthy pid \<and> owes w' oid pid amt)
       else charged w' = charged w)"
    and reserve: "reliable w \<Longrightarrow> fresh w k \<Longrightarrow> inv_reserve svc oid items k w = (r, w') \<Longrightarrow>
      reliable w' \<and> charged w' = charged w \<and> (\<forall>k'. k' \<noteq> k \<longrightarrow> fresh w k' \<longrightarrow> fresh w' k') \<and>
      (\<forall>o' pid a. owes w o' pid a \<longrightarrow> owes w' o' pid a) \<and>
      stocked w' = (if answers ''RESERVED'' r then (\<lambda>i. stocked w i - int (count_list items i)) else stocked w)"
    and refund: "reliable w \<Longrightarrow> fresh w k \<Longrightarrow> owes w oid pid amt \<Longrightarrow> pay_refund svc oid pid k w = (r, w') \<Longrightarrow>
      (\<exists>d. r = Inr d) \<and> stocked w' = stocked w \<and> charged w' = (charged w)(oid := charged w oid - amt)"
    and predict: "eta_predict svc = Some f \<Longrightarrow> f d w = (x, w') \<Longrightarrow> charged w' = charged w \<and> stocked w' = stocked w"
    and update: "order_update svc = Some g \<Longrightarrow> g d w = (y, w') \<Longrightarrow> charged w' = charged w \<and> stocked w' = stocked w"
begin

lemma side_calls_neutral: "side_calls svc w w' cs \<Longrightarrow> charged w' = charged w \<and> stocked w' = stocked w"
  by (induction rule: side_calls.induct) (auto dest: predict update)

text \<open>
  A saga whose three keys are fresh and distinct settles: confirmed, it has charged the order and
  taken the stock; cancelled, it has left both as they were; and it never needs manual review.
\<close>

lemma plan_settles:
  assumes plan: "saga_plan svc env sid oid items amt w s w' cs"
    and "reliable w" and "fresh w ka" and "fresh w ki" and "fresh w kr" and "distinct [ka, ki, kr]"
    and keys: "ka = step_key env sid ''payment'' ''authorize''" "ki = step_key env sid ''inventory'' ''reserve''"
      "kr = step_key env sid ''payment'' ''refund''"
  shows "(s \<in> {CONFIRMED, CONFIRMED_DEGRADED} \<and> charged w' = (charged w)(oid := charged w oid + amt) \<and>
            stocked w' = (\<lambda>i. stocked w i - int (count_list items i))) \<or>
         (s = CANCELLED \<and> charged w' = charged w \<and> stocked w' = stocked w)"
  using plan
proof (cases rule: saga_plan.cases)
  case (unpaid p)
  with authorize [OF assms(2,3)] show ?thesis by (auto simp: keys)
next
  case (unreserved d w1 pid r w2 cs')
  have 1: "reliable w1" "stocked w1 = stocked w" "fresh w1 ki" "fresh w1 kr" "py_truthy pid" "owes w1 oid pid amt"
    "charged w1 = (charged w)(oid := charged w oid + amt)"
    using authorize [OF assms(2,3), of oid amt "Inr d" w1] unreserved(2-4) assms(4-6) by (auto simp: keys)
  have 2: "reliable w2" "charged w2 = charged w1" "stocked w2 = stocked w1" "fresh w2 kr" "owes w2 oid pid amt"
    using reserve [OF 1(1,3), of oid items r w2] unreserved(5,6) assms(6) 1(4,6) by (auto simp: keys)
  obtain f w3 where f: "pay_refund svc oid pid kr w2 = (f, w3)" by fastforce
  note 3 = refund [OF 2(1,4,5) f]
  from unreserved(7) f 3 1(5) have "s = CANCELLED \<and> (\<exists>cs. side_calls svc w3 w' cs)"
    by (auto simp: keys elim!: compensate_planE)
  with 1 2 3 show ?thesis by (auto dest!: side_calls_neutral)
next
  case (confirmed d w1 r w2 cs')
  have 1: "reliable w1" "stocked w1 = stocked w" "fresh w1 ki" "charged w1 = (charged w)(oid := charged w oid + amt)"
    using authorize [OF assms(2,3), of oid amt "Inr d" w1] confirmed(2,3) assms(4-6) by (auto simp: keys)
  have 2: "charged w2 = charged w1" "stocked w2 = (\<lambda>i. stocked w1 i - int (count_list items i))"
    using reserve [OF 1(1,3), of oid items r w2] confirmed(4,5) by (auto simp: keys)
  from side_calls_neutral [OF confirmed(7)] 1 2 confirmed(6) show ?thesis by auto
qed

end

section \<open>Properties\<close>

text \<open>
  C3: The orchestrator refines the protocol. Whenever \<^verbatim>\<open>start_saga\<close> returns, the services were called
  in the order, with the arguments and with the idempotency keys the protocol prescribes, the state
  returned is the one the protocol gives for their answers, and the world is the one their calls left.
\<close>

theorem saga_refines_protocol:
  "start_saga svc env oid items amt data db w = (Inr res, st) \<Longrightarrow>
     saga_plan svc env (''SAGA-'' @ se_uuid env) oid items amt w (sr_state res) (world st) (calls (trace st))"
  by (rule start_saga_plan)

theorem saga_refines_protocol_witness:
  "\<exists>res st. start_saga (stub_services stub_authorized stub_refunded stub_out_of_stock (Inr None))
       stub_env ''O1'' [''pizza''] 10 None no_sagas 0 = (Inr res, st) \<and>
     saga_plan (stub_services stub_authorized stub_refunded stub_out_of_stock (Inr None)) stub_env ''SAGA-0A'' ''O1''
       [''pizza''] 10 0 CANCELLED (world st) (calls (trace st))"
proof -
  obtain res st where run: "start_saga (stub_services stub_authorized stub_refunded stub_out_of_stock (Inr None))
       stub_env ''O1'' [''pizza''] 10 None no_sagas 0 = (Inr res, st)" and "sr_state res = CANCELLED"
    using stub_cancelled_run by blast
  with saga_refines_protocol [OF run] show ?thesis by (auto simp: stub_env_def)
qed

text \<open>
  C2: Compensation. If the payment was authorised and the reservation raised or answered anything but
  RESERVED, then the saga returns; the payment was refunded by exactly one refund call, with its
  payment id and the saga's refund key, right after the reservation; no other charging or reserving
  call follows; and the saga ends CANCELLED if the refund answered and MANUAL_REVIEW if it raised.
\<close>

theorem saga_compensates:
  assumes "admissible env oid db"
    and "pay_authorize svc oid amt (step_key env (''SAGA-'' @ se_uuid env) ''payment'' ''authorize'') w = (Inr d, w1)"
    and "answers ''AUTHORIZED'' (Inr d)" and "map_of d ''payment_id'' = Some pid" and "py_truthy pid"
    and "inv_reserve svc oid items (step_key env (''SAGA-'' @ se_uuid env) ''inventory'' ''reserve'') w1 = (r, w2)"
    and "\<not> answers ''RESERVED'' r"
    and "pay_refund svc oid pid (step_key env (''SAGA-'' @ se_uuid env) ''payment'' ''refund'') w2 = (f, w3)"
  shows "\<exists>res st cs. start_saga svc env oid items amt data db w = (Inr res, st) \<and>
    sr_state res = (case f of Inl e \<Rightarrow> MANUAL_REVIEW | Inr x \<Rightarrow> CANCELLED) \<and>
    calls (trace st) =
      [CallAuthorize oid amt (step_key env (''SAGA-'' @ se_uuid env) ''payment'' ''authorize''),
       CallReserve oid items (step_key env (''SAGA-'' @ se_uuid env) ''inventory'' ''reserve''),
       CallRefund oid pid (step_key env (''SAGA-'' @ se_uuid env) ''payment'' ''refund'')] @ cs \<and>
    list_all is_side_call cs"
proof -
  obtain res st where run: "start_saga svc env oid items amt data db w = (Inr res, st)"
    using start_saga_paid [OF assms(1-4), of items data] inventory_phase_failed [OF _ assms(7)] assms(6)
      compensate_returns by metis
  from start_saga_plan [OF run] assms show ?thesis
    by (cases rule: saga_plan.cases)
       (auto simp: run dest!: side_calls_kind elim!: compensate_planE split: sum.splits simp del: answers.simps)
qed

theorem saga_compensates_witness:
  "\<exists>res st. start_saga (stub_services stub_authorized (Inl (ConnectionError ''down'')) stub_out_of_stock (Inr None))
       stub_env ''O1'' [''pizza''] 10 None no_sagas 0 = (Inr res, st) \<and> sr_state res = MANUAL_REVIEW"
  using saga_compensates [of stub_env "''O1''" no_sagas
      "stub_services stub_authorized (Inl (ConnectionError ''down'')) stub_out_of_stock (Inr None)" 10 0
      "[(''status'', JStr ''AUTHORIZED''), (''payment_id'', JStr ''PAY-1'')]" 1 "JStr ''PAY-1''"
      "[''pizza'']" stub_out_of_stock 2 "Inl (ConnectionError ''down'')" 3 None]
  by (auto simp: stub_services_def stub_admissible dict_get_or_def)



text \<open>
  A payment that is declined or raises cancels the order and nothing else happens: the saga
  returns CANCELLED, the authorisation was its only call, so nothing is reserved, refunded or sent
  to the order service, and the world is the one that call left.
\<close>

theorem saga_payment_failure:
  assumes "admissible env oid db"
    and "pay_authorize svc oid amt (step_key env (''SAGA-'' @ se_uuid env) ''payment'' ''authorize'') w = (p, w1)"
    and "\<not> answers ''AUTHORIZED'' p"
  shows "\<exists>res st. start_saga svc env oid items amt data db w = (Inr res, st) \<and> sr_state res = CANCELLED \<and>
    calls (trace st) = [CallAuthorize oid amt (step_key env (''SAGA-'' @ se_uuid env) ''payment'' ''authorize'')] \<and>
    world st = w1"
  by (rule start_saga_unpaid [OF assms])

theorem saga_payment_failure_witness:
  "\<exists>res st. start_saga (stub_services (Inl (ConnectionError ''down'')) stub_refunded stub_reserved (Inr None))
       stub_env ''O1'' [''pizza''] 10 None no_sagas 0 = (Inr res, st) \<and> sr_state res = CANCELLED"
  using saga_payment_failure [of stub_env "''O1''" no_sagas
      "stub_services (Inl (ConnectionError ''down'')) stub_refunded stub_reserved (Inr None)" 10 0
      "Inl (ConnectionError ''down'')" 1 "[''pizza'']" None]
  by (auto simp: stub_services_def stub_admissible)

end
