(* ===== verification/Http_Adapters.thy ===== *)
theory Http_Adapters
  imports Payment Inventory Orders Saga_Protocol
begin

text \<open>
  The services of the orchestrator in production: the adapters of
  \<^verbatim>\<open>services/orchestrator/http_adapters.py\<close> in front of the payment, inventory, ETA and order services,
  and the orchestrator's own application \<^verbatim>\<open>services/orchestrator/app.py\<close>. The world of a saga is the
  state of all services together with the fate of every HTTP exchange still to come.
\<close>

section \<open>The platform and an HTTP exchange\<close>

record platform =
  pf_payment :: payment_service
  pf_inventory :: inventory_service
  pf_orders :: order_service
  pf_net :: "transport list"          \<comment> \<open>the fates of the coming exchanges; all delivered after these\<close>
  pf_env :: "nat \<Rightarrow> call_env"        \<comment> \<open>what the server of the \<open>n\<close>-th exchange draws from outside\<close>
  pf_calls :: nat

definition next_transport :: "platform \<Rightarrow> transport" where
  "next_transport pf = (case pf_net pf of [] \<Rightarrow> Delivered | t # ts \<Rightarrow> t)"

definition http_call ::
  "(platform \<Rightarrow> 's) \<Rightarrow> ('s \<Rightarrow> platform \<Rightarrow> platform) \<Rightarrow> (call_env \<Rightarrow> 's \<Rightarrow> http_response \<times> 's) \<Rightarrow>
   platform \<Rightarrow> http_response outcome \<times> platform" where
  "http_call get put serve pf =
     (case exchange (next_transport pf) (serve (pf_env pf (pf_calls pf))) (get pf) of
        (r, s) \<Rightarrow> (r, (put s pf)\<lparr>pf_net := tl (pf_net pf), pf_calls := Suc (pf_calls pf)\<rparr>))"

definition put_payment :: "payment_service \<Rightarrow> platform \<Rightarrow> platform" where
  "put_payment s pf = pf\<lparr>pf_payment := s\<rparr>"

definition put_inventory :: "inventory_service \<Rightarrow> platform \<Rightarrow> platform" where
  "put_inventory s pf = pf\<lparr>pf_inventory := s\<rparr>"

definition put_orders :: "order_service \<Rightarrow> platform \<Rightarrow> platform" where
  "put_orders s pf = pf\<lparr>pf_orders := s\<rparr>"

section \<open>What the servers send\<close>

definition opt_str :: "string option \<Rightarrow> json" where
  "opt_str s = (case s of Some v \<Rightarrow> JStr v | None \<Rightarrow> JNull)"

definition encode_payment :: "payment_response \<Rightarrow> json_dict" where
  "encode_payment r =
     [(''payment_id'', JStr (pr_payment_id r)), (''order_id'', JStr (pr_order_id r)), (''amount'', JFloat (pr_amount r)),
      (''status'', JStr (payment_status_value (pr_status r))), (''idempotency_key'', JStr (pr_key r)),
      (''message'', opt_str (pr_message r))]"

definition encode_reservation :: "reservation_response \<Rightarrow> json_dict" where
  "encode_reservation r =
     [(''reservation_id'', JStr (rr_reservation_id r)), (''order_id'', JStr (rr_order_id r)),
      (''status'', JStr (inventory_status_value (rr_status r))), (''items'', JList (map JStr (rr_items r))),
      (''idempotency_key'', JStr (rr_key r)), (''message'', opt_str (rr_message r))]"

text \<open>The endpoints, with what their schemas check of the JSON they receive.\<close>

definition serve_authorize :: "string \<Rightarrow> rat \<Rightarrow> string \<Rightarrow> call_env \<Rightarrow> payment_service \<Rightarrow> http_response \<times> payment_service" where
  "serve_authorize oid amount key env s =
     (case post_authorize s env \<lparr>auth_order_id = oid, auth_amount = amount, auth_key = key\<rparr> of
        (out, s') \<Rightarrow> (respond encode_payment out, s'))"

definition serve_refund :: "string \<Rightarrow> json \<Rightarrow> string \<Rightarrow> call_env \<Rightarrow> payment_service \<Rightarrow> http_response \<times> payment_service" where
  "serve_refund oid pid key env s =
     (case pid of
        JStr p \<Rightarrow>
          (case refund_payment s env \<lparr>ref_order_id = oid, ref_payment_id = p, ref_key = key\<rparr> of
             (out, s') \<Rightarrow> (respond encode_payment out, s'))
      | _ \<Rightarrow> (respond encode_payment (Inl (HTTPException 422 ''Input should be a valid string'')), s))"

definition serve_reserve :: "string \<Rightarrow> string list \<Rightarrow> string \<Rightarrow> call_env \<Rightarrow> inventory_service \<Rightarrow> http_response \<times> inventory_service" where
  "serve_reserve oid items key env s =
     (case post_reserve s env \<lparr>rq_order_id = oid, rq_items = items, rq_key = key\<rparr> of
        (out, s') \<Rightarrow> (respond encode_reservation out, s'))"

definition serve_release :: "string \<Rightarrow> json \<Rightarrow> string \<Rightarrow> call_env \<Rightarrow> inventory_service \<Rightarrow> http_response \<times> inventory_service" where
  "serve_release oid rid key env s =
     (case rid of
        JStr r \<Rightarrow>
          (case release_stock s env \<lparr>rl_order_id = oid, rl_reservation_id = r, rl_key = key\<rparr> of
             (out, s') \<Rightarrow> (respond encode_reservation out, s'))
      | _ \<Rightarrow> (respond encode_reservation (Inl (HTTPException 422 ''Input should be a valid string'')), s))"

text \<open>
  \<^verbatim>\<open>PATCH /orders/{id}\<close> takes its parameters from the query string; the adapter sends a JSON body,
  which the route does not read.
\<close>

definition no_query :: update_params where
  "no_query = \<lparr>up_new_status = None, up_eta_minutes = None, up_eta_lower = None, up_eta_upper = None, up_degraded = False\<rparr>"

definition serve_patch_order :: "string \<Rightarrow> json_dict \<Rightarrow> call_env \<Rightarrow> order_service \<Rightarrow> http_response \<times> order_service" where
  "serve_patch_order oid payload env s =
     (case update_order_status s oid no_query of (out, s') \<Rightarrow> (respond (\<lambda>d. d) out, s'))"

section \<open>The adapters\<close>

text \<open>
  What an adapter makes of the exchange: transport errors propagate, a status from 500 raises
  \<^verbatim>\<open>ConnectionError\<close>, and so does 422 where the adapter checks for it; \<open>body_text\<close> is the response's text.
\<close>

definition raise_server_error :: "string \<Rightarrow> http_response outcome \<times> platform \<Rightarrow> json_dict outcome \<times> platform" where
  "raise_server_error service out =
     (case out of
        (Inl e, pf) \<Rightarrow> (Inl e, pf)
      | (Inr r, pf) \<Rightarrow>
          (if status_code r \<ge> 500 then Inl (ConnectionError (service @ '' service error: '' @ nat_str (status_code r)))
           else Inr (body_json r), pf))"

definition raise_client_error ::
  "string \<Rightarrow> (json_dict \<Rightarrow> string) \<Rightarrow> http_response outcome \<times> platform \<Rightarrow> json_dict outcome \<times> platform" where
  "raise_client_error service body_text out =
     (case out of
        (Inr r, pf) \<Rightarrow>
          if status_code r = 422 then (Inl (ConnectionError (service @ '' validation error: '' @ body_text (body_json r))), pf)
          else raise_server_error service out
      | _ \<Rightarrow> raise_server_error service out)"

definition http_authorize :: "(json_dict \<Rightarrow> string) \<Rightarrow> string \<Rightarrow> rat \<Rightarrow> string \<Rightarrow> platform \<Rightarrow> json_dict outcome \<times> platform" where
  "http_authorize body_text oid amount key pf =
     raise_client_error ''Payment'' body_text (http_call pf_payment put_payment (serve_authorize oid amount key) pf)"

definition http_refund :: "string \<Rightarrow> json \<Rightarrow> string \<Rightarrow> platform \<Rightarrow> json_dict outcome \<times> platform" where
  "http_refund oid pid key pf =
     raise_server_error ''Payment'' (http_call pf_payment put_payment (serve_refund oid pid key) pf)"

definition http_reserve :: "(json_dict \<Rightarrow> string) \<Rightarrow> string \<Rightarrow> string list \<Rightarrow> string \<Rightarrow> platform \<Rightarrow> json_dict outcome \<times> platform" where
  "http_reserve body_text oid items key pf =
     raise_client_error ''Inventory'' body_text (http_call pf_inventory put_inventory (serve_reserve oid items key) pf)"

definition http_release :: "string \<Rightarrow> json \<Rightarrow> string \<Rightarrow> platform \<Rightarrow> json_dict outcome \<times> platform" where
  "http_release oid rid key pf =
     raise_server_error ''Inventory'' (http_call pf_inventory put_inventory (serve_release oid rid key) pf)"

text \<open>
  \<^verbatim>\<open>HttpEtaService.predict\<close>: the order data is translated to the ETA service's fields. Python's
  conversions on strings are the parameters \<open>py_str\<close>, \<open>py_lower\<close> and the two parsers.
\<close>

record conversions =
  py_str :: "json \<Rightarrow> string"
  py_lower :: "string \<Rightarrow> string"
  parse_float :: "string \<Rightarrow> rat option"
  parse_int :: "string \<Rightarrow> int option"

fun py_float :: "conversions \<Rightarrow> json \<Rightarrow> json outcome" where
  "py_float c (JFloat x) = Inr (JFloat x)"
| "py_float c (JInt i) = Inr (JFloat (of_int i))"
| "py_float c (JBool b) = Inr (JFloat (if b then 1 else 0))"
| "py_float c (JStr s) = (case parse_float c s of Some x \<Rightarrow> Inr (JFloat x)
                          | None \<Rightarrow> Inl (ValueError ''could not convert string to float''))"
| "py_float c j = Inl (TypeError ''float() argument must be a string or a real number'')"

fun to_int :: "conversions \<Rightarrow> json \<Rightarrow> json outcome" where
  "to_int c (JFloat x) = Inr (JInt (py_int x))"
| "to_int c (JInt i) = Inr (JInt i)"
| "to_int c (JBool b) = Inr (JInt (if b then 1 else 0))"
| "to_int c (JStr s) = (case parse_int c s of Some i \<Rightarrow> Inr (JInt i)
                        | None \<Rightarrow> Inl (ValueError ''invalid literal for int()''))"
| "to_int c j = Inl (TypeError ''int() argument must be a string or a real number'')"

definition city_map :: "(string \<times> string) list" where
  "city_map = [(''Metropolitian'', ''metropolitan''), (''Urban'', ''urban''), (''Semi-Urban'', ''semi-urban''),
     (''metropolitan'', ''metropolitan''), (''urban'', ''urban''), (''semi-urban'', ''semi-urban'')]"

text \<open>\<^verbatim>\<open>city_map.get(city_raw, "metropolitan")\<close>; lists and dicts are not hashable.\<close>

fun city_of :: "json \<Rightarrow> json outcome" where
  "city_of (JStr s) = Inr (JStr (case map_of city_map s of Some c \<Rightarrow> c | None \<Rightarrow> ''metropolitan''))"
| "city_of (JList xs) = Inl (TypeError ''unhashable type'')"
| "city_of (JDict d) = Inl (TypeError ''unhashable type'')"
| "city_of j = Inr (JStr ''metropolitan'')"

fun build_dict :: "(string \<times> json outcome) list \<Rightarrow> json_dict outcome" where
  "build_dict [] = Inr []"
| "build_dict ((k, Inl e) # kvs) = Inl e"
| "build_dict ((k, Inr v) # kvs) = (case build_dict kvs of Inl e \<Rightarrow> Inl e | Inr d \<Rightarrow> Inr ((k, v) # d))"

definition eta_payload :: "conversions \<Rightarrow> json_dict \<Rightarrow> json_dict outcome" where
  "eta_payload c data =
     (let get = dict_get_or data;
          city_raw = (if py_truthy (dict_get data ''city'') then dict_get data ''city''
                      else get ''city_type'' (JStr ''metropolitan''));
          str = (\<lambda>k d. Inr (JStr (py_str c (get k d))));
          lower = (\<lambda>k d. Inr (JStr (py_lower c (py_str c (get k (JStr d))))))
      in build_dict
        [(''id'', str ''order_id'' (JStr ''ORD-SAGA'')),
         (''rider_id'', Inr (JStr ''RIDER_DEFAULT'')),
         (''age'', py_float c (get ''delivery_person_age'' (JInt 28))),
         (''ratings'', py_float c (get ''delivery_person_ratings'' (JFloat (9 / 2)))),
         (''restaurant_latitude'', py_float c (get ''restaurant_latitude'' (JFloat (1297 / 100)))),
         (''restaurant_longitude'', py_float c (get ''restaurant_longitude'' (JFloat (7759 / 100)))),
         (''delivery_latitude'', py_float c (get ''delivery_location_latitude'' (JFloat (1293 / 100)))),
         (''delivery_longitude'', py_float c (get ''delivery_location_longitude'' (JFloat (7762 / 100)))),
         (''order_date'', str ''order_date'' (JStr ''2026-08-20'')),
         (''order_time'', str ''time_order_picked'' (JStr ''19:30:00'')),
         (''weather'', lower ''weather_conditions'' ''sunny''),
         (''traffic'', lower ''road_traffic_density'' ''medium''),
         (''vehicle_condition'', to_int c (get ''vehicle_condition'' (JInt 2))),
         (''type_of_order'', lower ''type_of_order'' ''meal''),
         (''type_of_vehicle'', lower ''type_of_vehicle'' ''motorcycle''),
         (''festival'', lower ''festival'' ''no''),
         (''city_type'', city_of city_raw)])"

text \<open>The ETA service keeps no state; \<open>serve_eta\<close> is its \<^verbatim>\<open>/predict\<close> endpoint.\<close>

definition http_predict ::
  "conversions \<Rightarrow> (json_dict \<Rightarrow> http_response) \<Rightarrow> json_dict \<Rightarrow> platform \<Rightarrow> json_dict option outcome \<times> platform" where
  "http_predict c serve_eta data pf =
     (case eta_payload c data of
        Inl e \<Rightarrow> (Inl e, pf)
      | Inr payload \<Rightarrow>
          (case http_call (\<lambda>_. ()) (\<lambda>_ pf. pf) (\<lambda>env s. (serve_eta payload, s)) pf of
             (Inl e, pf') \<Rightarrow> (Inl e, pf')
           | (Inr r, pf') \<Rightarrow>
               (if status_code r \<ge> 500 then Inl (ConnectionError (''ETA service error: '' @ nat_str (status_code r)))
                else if status_code r \<ge> 400 then Inr (Some [(''eta_minutes'', JInt 35), (''degraded'', JBool True)])
                else Inr (Some (body_json r)), pf')))"

text \<open>
  \<^verbatim>\<open>HttpOrderService.update_status(self, order_id, status, eta_minutes=None)\<close>: Python binds the
  keyword arguments of the call before the body runs, and an unexpected or missing one raises.
\<close>

definition bind_kwargs :: "string list \<Rightarrow> string list \<Rightarrow> json_dict \<Rightarrow> unit outcome" where
  "bind_kwargs params required kwargs =
     (case find (\<lambda>k. k \<notin> set params) (map fst kwargs) of
        Some k \<Rightarrow> Inl (TypeError (''got an unexpected keyword argument '' @ k))
      | None \<Rightarrow>
          (case find (\<lambda>p. p \<notin> set (map fst kwargs)) required of
             Some p \<Rightarrow> Inl (TypeError (''missing required argument '' @ p))
           | None \<Rightarrow> Inr ()))"

definition http_update_status :: "conversions \<Rightarrow> json_dict \<Rightarrow> platform \<Rightarrow> json_dict outcome \<times> platform" where
  "http_update_status c kwargs pf =
     (case bind_kwargs [''order_id'', ''status'', ''eta_minutes''] [''order_id'', ''status''] kwargs of
        Inl e \<Rightarrow> (Inl e, pf)
      | Inr _ \<Rightarrow>
          let eta = dict_get kwargs ''eta_minutes'';
              payload = (''status'', dict_get kwargs ''status'') # (if eta \<noteq> JNull then [(''eta_minutes'', eta)] else [])
          in raise_server_error ''Order''
               (http_call pf_orders put_orders (serve_patch_order (py_str c (dict_get kwargs ''order_id'')) payload) pf))"

section \<open>The orchestrator's application\<close>

definition http_services ::
  "(json_dict \<Rightarrow> string) \<Rightarrow> conversions \<Rightarrow> (json_dict \<Rightarrow> http_response) option \<Rightarrow> bool \<Rightarrow> platform saga_services" where
  "http_services body_text c eta with_order =
     \<lparr>pay_authorize = http_authorize body_text, pay_refund = http_refund, inv_reserve = http_reserve body_text,
      eta_predict = map_option (http_predict c) eta,
      order_update = (if with_order then Some (http_update_status c) else None)\<rparr>"

text \<open>
  \<^verbatim>\<open>_auto_init\<close>: the orchestrator exists when the payment and inventory URLs are configured; ETA and
  order adapters when theirs are. \<open>serve_eta\<close> is the service behind the ETA URL.
\<close>

definition configured :: "string option \<Rightarrow> bool" where
  "configured url \<longleftrightarrow> (case url of Some u \<Rightarrow> u \<noteq> [] | None \<Rightarrow> False)"

definition auto_init ::
  "(json_dict \<Rightarrow> string) \<Rightarrow> conversions \<Rightarrow> (json_dict \<Rightarrow> http_response) \<Rightarrow>
   string option \<Rightarrow> string option \<Rightarrow> string option \<Rightarrow> string option \<Rightarrow> platform saga_services option" where
  "auto_init body_text c serve_eta payment_url inventory_url eta_url order_url =
     (if configured payment_url \<and> configured inventory_url
      then Some (http_services body_text c (if configured eta_url then Some serve_eta else None) (configured order_url))
      else None)"

definition get_orchestrator :: "'w saga_services option \<Rightarrow> 'w saga_services outcome" where
  "get_orchestrator o' =
     (case o' of None \<Rightarrow> Inl (RuntimeError ''Orchestrator not initialized. Call init_orchestrator() first.'')
      | Some svc \<Rightarrow> Inr svc)"

text \<open>\<^verbatim>\<open>POST /saga/start\<close> (with the schema's defaults for absent fields) and \<^verbatim>\<open>GET /saga/{order_id}\<close>.\<close>

record start_saga_request =
  ss_order_id :: string
  ss_items :: "string list option"
  ss_total_amount :: "rat option"
  ss_order_data :: "json_dict option"

definition post_saga_start ::
  "'w saga_services option \<Rightarrow> saga_env \<Rightarrow> start_saga_request \<Rightarrow> saga_db \<Rightarrow> 'w \<Rightarrow> saga_result outcome \<times> saga_db \<times> 'w" where
  "post_saga_start app env req db w =
     (case get_orchestrator app of
        Inl e \<Rightarrow> (Inl e, db, w)
      | Inr svc \<Rightarrow>
          (case start_saga svc env (ss_order_id req)
                  (case ss_items req of Some is \<Rightarrow> is | None \<Rightarrow> [''meal''])
                  (case ss_total_amount req of Some a \<Rightarrow> a | None \<Rightarrow> 499) (ss_order_data req) db w of
             (r, st) \<Rightarrow> (r, saga_db_after st, world st)))"

definition get_saga :: "'w saga_services option \<Rightarrow> saga_db \<Rightarrow> string \<Rightarrow> saga_result outcome" where
  "get_saga app db oid =
     (case get_orchestrator app of
        Inl e \<Rightarrow> Inl e
      | Inr svc \<Rightarrow>
          (case get_saga_status db oid of
             None \<Rightarrow> Inl (HTTPException 404 (''Saga for order '' @ oid @ '' not found''))
           | Some r \<Rightarrow> Inr r))"

section \<open>The adapters keep the orchestrator's contract\<close>

text \<open>
  On a platform that loses no message, whose services are consistent and whose coming uuids are new,
  the adapters satisfy \<open>saga_backend\<close>.
\<close>

abbreviation pf_charged :: "platform \<Rightarrow> string \<Rightarrow> rat" where
  "pf_charged pf \<equiv> net_charged (payments (pf_payment pf))"

abbreviation pf_stocked :: "platform \<Rightarrow> string \<Rightarrow> int" where
  "pf_stocked pf \<equiv> stock_of (inv_db (pf_inventory pf))"

text \<open>The uuids drawn from the \<open>n\<close>-th exchange on name no row yet and differ from each other.\<close>

definition uuids_new :: "(nat \<Rightarrow> call_env) \<Rightarrow> nat \<Rightarrow> string set \<Rightarrow> string set \<Rightarrow> bool" where
  "uuids_new env n pays rsvs \<longleftrightarrow>
     (\<forall>m \<ge> n. ''PAY-'' @ env_uuid (env m) \<notin> pays \<and> ''REF-'' @ env_uuid (env m) \<notin> pays \<and>
        ''RSV-'' @ env_uuid (env m) \<notin> rsvs \<and> (\<forall>k \<ge> n. k \<noteq> m \<longrightarrow> env_uuid (env k) \<noteq> env_uuid (env m)))"

lemma uuids_new_step:
  assumes "uuids_new env n pays rsvs"
    and "pays' \<subseteq> pays \<union> {''PAY-'' @ env_uuid (env n), ''REF-'' @ env_uuid (env n)}"
    and "rsvs' \<subseteq> insert (''RSV-'' @ env_uuid (env n)) rsvs"
  shows "uuids_new env (Suc n) pays' rsvs'"
  unfolding uuids_new_def
proof (intro allI impI)
  fix m assume "Suc n \<le> m"
  then have m: "n \<le> m" "n \<noteq> m" by auto
  then have "env_uuid (env m) \<noteq> env_uuid (env n)" using assms(1) unfolding uuids_new_def by (metis order_refl)
  moreover have "''PAY-'' @ env_uuid (env m) \<notin> pays" "''REF-'' @ env_uuid (env m) \<notin> pays" "''RSV-'' @ env_uuid (env m) \<notin> rsvs"
    "\<forall>k \<ge> n. k \<noteq> m \<longrightarrow> env_uuid (env k) \<noteq> env_uuid (env m)"
    using assms(1) m unfolding uuids_new_def by auto
  ultimately show "''PAY-'' @ env_uuid (env m) \<notin> pays' \<and> ''REF-'' @ env_uuid (env m) \<notin> pays' \<and>
      ''RSV-'' @ env_uuid (env m) \<notin> rsvs' \<and> (\<forall>k \<ge> Suc n. k \<noteq> m \<longrightarrow> env_uuid (env k) \<noteq> env_uuid (env m))"
    using assms(2,3) by auto
qed

definition pf_reliable :: "platform \<Rightarrow> bool" where
  "pf_reliable pf \<longleftrightarrow> set (pf_net pf) \<subseteq> {Delivered} \<and> payment_inv (pf_payment pf) \<and> inventory_inv (pf_inventory pf) \<and>
     uuids_new (pf_env pf) (pf_calls pf) (payment_id ` set (payments (pf_payment pf)))
       (set (map reservation_id (reservations (inv_db (pf_inventory pf)))))"

definition pf_fresh :: "platform \<Rightarrow> string \<Rightarrow> bool" where
  "pf_fresh pf k \<longleftrightarrow> k \<notin> dom (pay_store (pf_payment pf)) \<and> k \<notin> dom (inv_store (pf_inventory pf))"

definition pf_owes :: "platform \<Rightarrow> string \<Rightarrow> json \<Rightarrow> rat \<Rightarrow> bool" where
  "pf_owes pf oid pid amt \<longleftrightarrow>
     (\<exists>i p. pid = JStr i \<and> i \<noteq> [] \<and> find (\<lambda>p. payment_id p = i) (payments (pf_payment pf)) = Some p \<and> pay_order_id p = oid \<and>
        pay_amount p = amt \<and> pay_status p \<noteq> payment_status_value DECLINED)"

lemma pf_reliable_next: "pf_reliable pf \<Longrightarrow> next_transport pf = Delivered"
  by (cases "pf_net pf") (auto simp: pf_reliable_def next_transport_def)

text \<open>A delivered exchange with the payment or the inventory service.\<close>

lemma payment_call:
  assumes "pf_reliable pf" and "serve (pf_env pf (pf_calls pf)) (pf_payment pf) = (r, s)" and "payment_inv s"
    and "payment_id ` set (payments s) \<subseteq> payment_id ` set (payments (pf_payment pf)) \<union>
           {''PAY-'' @ env_uuid (pf_env pf (pf_calls pf)), ''REF-'' @ env_uuid (pf_env pf (pf_calls pf))}"
  shows "\<exists>pf'. http_call pf_payment put_payment serve pf = (Inr r, pf') \<and> pf_payment pf' = s \<and>
    pf_inventory pf' = pf_inventory pf \<and> pf_orders pf' = pf_orders pf \<and> pf_reliable pf'"
proof -
  let ?pf = "(put_payment s pf)\<lparr>pf_net := tl (pf_net pf), pf_calls := Suc (pf_calls pf)\<rparr>"
  have call: "http_call pf_payment put_payment serve pf = (Inr r, ?pf)"
    by (simp add: http_call_def pf_reliable_next [OF assms(1)] assms(2))
  have "uuids_new (pf_env pf) (Suc (pf_calls pf)) (payment_id ` set (payments s))
      (set (map reservation_id (reservations (inv_db (pf_inventory pf)))))"
    using assms(1,4) by (intro uuids_new_step) (auto simp: pf_reliable_def)
  with assms(1,3) have "pf_reliable ?pf"
    by (cases "pf_net pf") (auto simp: pf_reliable_def put_payment_def)
  with call show ?thesis by (simp add: put_payment_def)
qed

lemma inventory_call:
  assumes "pf_reliable pf" and "serve (pf_env pf (pf_calls pf)) (pf_inventory pf) = (r, s)" and "inventory_inv s"
    and "set (map reservation_id (reservations (inv_db s))) \<subseteq> insert (''RSV-'' @ env_uuid (pf_env pf (pf_calls pf)))
           (set (map reservation_id (reservations (inv_db (pf_inventory pf)))))"
  shows "\<exists>pf'. http_call pf_inventory put_inventory serve pf = (Inr r, pf') \<and> pf_inventory pf' = s \<and>
    pf_payment pf' = pf_payment pf \<and> pf_orders pf' = pf_orders pf \<and> pf_reliable pf'"
proof -
  let ?pf = "(put_inventory s pf)\<lparr>pf_net := tl (pf_net pf), pf_calls := Suc (pf_calls pf)\<rparr>"
  have call: "http_call pf_inventory put_inventory serve pf = (Inr r, ?pf)"
    by (simp add: http_call_def pf_reliable_next [OF assms(1)] assms(2))
  have "uuids_new (pf_env pf) (Suc (pf_calls pf)) (payment_id ` set (payments (pf_payment pf)))
      (set (map reservation_id (reservations (inv_db s))))"
    using assms(1,4) by (intro uuids_new_step) (auto simp: pf_reliable_def)
  with assms(1,3) have "pf_reliable ?pf"
    by (cases "pf_net pf") (auto simp: pf_reliable_def put_inventory_def)
  with call show ?thesis by (simp add: put_inventory_def)
qed

lemma http_authorize_contract:
  assumes "pf_reliable pf" and "pf_fresh pf k" and "http_authorize body_text oid amt k pf = (r, pf')"
  shows "pf_reliable pf' \<and> pf_stocked pf' = pf_stocked pf \<and> (\<forall>k'. k' \<noteq> k \<longrightarrow> pf_fresh pf k' \<longrightarrow> pf_fresh pf' k') \<and>
    (if answers ''AUTHORIZED'' r
     then pf_charged pf' = (pf_charged pf)(oid := pf_charged pf oid + amt) \<and>
       (\<forall>d pid. r = Inr d \<longrightarrow> map_of d ''payment_id'' = Some pid \<longrightarrow> py_truthy pid \<and> pf_owes pf' oid pid amt)
     else pf_charged pf' = pf_charged pf)"
proof (cases "amt > 0")
  case False
  have inv: "payment_inv (pf_payment pf)" using assms(1) by (simp add: pf_reliable_def)
  from False
  have serve: "serve_authorize oid amt k (pf_env pf (pf_calls pf)) (pf_payment pf) =
      (respond encode_payment (Inl (HTTPException 422 ''Input should be greater than 0'')), pf_payment pf)"
    by (simp add: serve_authorize_def post_authorize_def valid_authorize_def)
  obtain pf1 where "http_call pf_payment put_payment (serve_authorize oid amt k) pf =
      (Inr (respond encode_payment (Inl (HTTPException 422 ''Input should be greater than 0''))), pf1)"
    "pf_payment pf1 = pf_payment pf" "pf_inventory pf1 = pf_inventory pf" "pf_reliable pf1"
    using payment_call [where serve = "serve_authorize oid amt k", OF assms(1) serve inv Un_upper1] by blast
  with assms(3) show ?thesis by (auto simp: http_authorize_def raise_client_error_def pf_fresh_def)
next
  case True
  let ?env = "pf_env pf (pf_calls pf)" and ?s = "pf_payment pf"
  let ?req = "\<lparr>auth_order_id = oid, auth_amount = amt, auth_key = k\<rparr>"
  have inv: "payment_inv ?s" using assms(1) by (simp add: pf_reliable_def)
  have new: "idem_get (pay_store ?s) (auth_key ?req) = None" "''PAY-'' @ env_uuid ?env \<notin> payment_id ` set (payments ?s)"
    using assms(1,2) by (auto simp: pf_fresh_def idem_get_def pf_reliable_def uuids_new_def)
  from authorize_payment_new [OF inv new] obtain resp s' where
    resp: "authorize_payment ?s ?env ?req = (Inr resp, s')" "pr_payment_id resp = ''PAY-'' @ env_uuid ?env"
      "pr_status resp \<in> {DECLINED, AUTHORIZED}" "dom (pay_store s') = insert k (dom (pay_store ?s))"
      "payments s' = payments ?s @ [\<lparr>payment_id = ''PAY-'' @ env_uuid ?env, pay_order_id = oid,
         pay_amount = amt, pay_status = payment_status_value (pr_status resp), pay_key = k\<rparr>]"
    by auto
  have serve: "serve_authorize oid amt k ?env ?s = (\<lparr>status_code = 200, body_json = encode_payment resp\<rparr>, s')"
    using resp(1) True by (simp add: serve_authorize_def post_authorize_def valid_authorize_def)
  have "payment_inv s'" using authorize_payment_inv [OF inv, of ?env ?req] resp(1) by simp
  from payment_call [where serve = "serve_authorize oid amt k", OF assms(1) serve this] resp(5) obtain pf1 where
    pf1: "http_call pf_payment put_payment (serve_authorize oid amt k) pf =
      (Inr \<lparr>status_code = 200, body_json = encode_payment resp\<rparr>, pf1)"
      "pf_payment pf1 = s'" "pf_inventory pf1 = pf_inventory pf" "pf_reliable pf1"
    by auto
  have out: "r = Inr (encode_payment resp)" "pf' = pf1"
    using assms(3) pf1(1) by (simp_all add: http_authorize_def raise_client_error_def raise_server_error_def)
  have ans: "answers ''AUTHORIZED'' r \<longleftrightarrow> pr_status resp = AUTHORIZED"
    using resp(3) by (auto simp: out encode_payment_def dict_get_or_def)
  have fresh: "find (\<lambda>p. payment_id p = ''PAY-'' @ env_uuid ?env) (payments ?s) = None"
    using new(2) unfolding find_None_iff by (metis imageI)
  have owes: "py_truthy pid \<and> pf_owes pf' oid pid amt"
    if "map_of (encode_payment resp) ''payment_id'' = Some pid" "pr_status resp = AUTHORIZED" for pid
  proof -
    have pid: "pid = JStr (''PAY-'' @ env_uuid ?env)" using that(1) by (simp add: encode_payment_def resp(2))
    have "find (\<lambda>p. payment_id p = ''PAY-'' @ env_uuid ?env) (payments (pf_payment pf')) =
        Some \<lparr>payment_id = ''PAY-'' @ env_uuid ?env, pay_order_id = oid, pay_amount = amt,
          pay_status = payment_status_value AUTHORIZED, pay_key = k\<rparr>"
      by (simp only: out(2) pf1(2) resp(5) that(2) find_snoc fresh option.case payment.simps simp_thms if_True)
    then show ?thesis unfolding pf_owes_def pid by simp
  qed
  have "pf_charged pf' = (if pr_status resp = AUTHORIZED then (pf_charged pf)(oid := pf_charged pf oid + amt) else pf_charged pf)"
    using resp(3) by (auto simp: out pf1 resp(5) net_charged_Cons)
  with ans owes pf1 resp(4) out show ?thesis by (auto simp: pf_fresh_def simp del: answers.simps)
qed

lemma http_reserve_contract:
  assumes "pf_reliable pf" and "pf_fresh pf k" and "http_reserve body_text oid items k pf = (r, pf')"
  shows "pf_reliable pf' \<and> pf_charged pf' = pf_charged pf \<and> (\<forall>k'. k' \<noteq> k \<longrightarrow> pf_fresh pf k' \<longrightarrow> pf_fresh pf' k') \<and>
    (\<forall>o' pid a. pf_owes pf o' pid a \<longrightarrow> pf_owes pf' o' pid a) \<and>
    pf_stocked pf' = (if answers ''RESERVED'' r then (\<lambda>i. pf_stocked pf i - int (count_list items i)) else pf_stocked pf)"
proof (cases "items = []")
  case True
  have inv: "inventory_inv (pf_inventory pf)" using assms(1) by (simp add: pf_reliable_def)
  let ?r = "respond encode_reservation (Inl (HTTPException 422 ''List should have at least 1 item''))"
  have serve: "serve_reserve oid items k (pf_env pf (pf_calls pf)) (pf_inventory pf) = (?r, pf_inventory pf)"
    using True by (simp add: serve_reserve_def post_reserve_def)
  obtain pf1 where "http_call pf_inventory put_inventory (serve_reserve oid items k) pf = (Inr ?r, pf1)"
    "pf_payment pf1 = pf_payment pf" "pf_inventory pf1 = pf_inventory pf" "pf_reliable pf1"
    using inventory_call [where serve = "serve_reserve oid items k", OF assms(1) serve inv subset_insertI] by blast
  with assms(3) show ?thesis by (auto simp: http_reserve_def raise_client_error_def pf_fresh_def pf_owes_def)
next
  case False
  let ?env = "pf_env pf (pf_calls pf)" and ?s = "pf_inventory pf"
  let ?req = "\<lparr>rq_order_id = oid, rq_items = items, rq_key = k\<rparr>"
  have inv: "inventory_inv ?s" using assms(1) by (simp add: pf_reliable_def)
  have key: "idem_get (inv_store ?s) (rq_key ?req) = None" using assms(2) by (auto simp: pf_fresh_def idem_get_def)
  have rid: "''RSV-'' @ env_uuid ?env \<notin> set (map reservation_id (reservations (inv_db ?s)))"
    using assms(1) by (auto simp: pf_reliable_def uuids_new_def)
  obtain resp s' where resp: "reserve_stock ?s ?env ?req = (Inr resp, s')"
      "dom (inv_store s') = insert k (dom (inv_store ?s))"
      "set (map reservation_id (reservations (inv_db s'))) \<subseteq> insert (''RSV-'' @ env_uuid ?env)
         (set (map reservation_id (reservations (inv_db ?s))))"
    using reserve_stock_new [OF inv key rid] by (fastforce split: if_splits)
  note out = reserve_outcome [OF resp(1) key]
  have serve: "serve_reserve oid items k ?env ?s = (\<lparr>status_code = 200, body_json = encode_reservation resp\<rparr>, s')"
    using resp(1) False by (simp add: serve_reserve_def post_reserve_def)
  have "inventory_inv s'" using inventory_step_inv [OF inv, of "(?env, Reserve ?req)"] resp(1) by simp
  from inventory_call [where serve = "serve_reserve oid items k", OF assms(1) serve this resp(3)] obtain pf1 where
    pf1: "http_call pf_inventory put_inventory (serve_reserve oid items k) pf =
      (Inr \<lparr>status_code = 200, body_json = encode_reservation resp\<rparr>, pf1)"
      "pf_inventory pf1 = s'" "pf_payment pf1 = pf_payment pf" "pf_reliable pf1"
    by auto
  have r: "r = Inr (encode_reservation resp)" "pf' = pf1"
    using assms(3) pf1(1) by (simp_all add: http_reserve_def raise_client_error_def raise_server_error_def)
  have ans: "answers ''RESERVED'' r \<longleftrightarrow> rr_status resp = RESERVED"
    using out by (auto simp: r encode_reservation_def dict_get_or_def)
  have "pf_stocked pf' = (if rr_status resp = RESERVED then (\<lambda>i. pf_stocked pf i - int (count_list items i)) else pf_stocked pf)"
    using out by (auto simp: r pf1)
  with ans pf1 resp(2) r show ?thesis by (auto simp: pf_fresh_def pf_owes_def simp del: answers.simps)
qed

lemma http_refund_contract:
  assumes "pf_reliable pf" and "pf_fresh pf k" and "pf_owes pf oid pid amt" and "http_refund oid pid k pf = (r, pf')"
  shows "(\<exists>d. r = Inr d) \<and> pf_stocked pf' = pf_stocked pf \<and> pf_charged pf' = (pf_charged pf)(oid := pf_charged pf oid - amt)"
proof -
  let ?env = "pf_env pf (pf_calls pf)" and ?s = "pf_payment pf"
  obtain i p where p: "pid = JStr i" "find (\<lambda>p. payment_id p = i) (payments ?s) = Some p" "pay_order_id p = oid"
    "pay_amount p = amt" "pay_status p \<noteq> payment_status_value DECLINED"
    using assms(3) by (auto simp: pf_owes_def)
  let ?req = "\<lparr>ref_order_id = oid, ref_payment_id = i, ref_key = k\<rparr>"
  have inv: "payment_inv ?s" using assms(1) by (simp add: pf_reliable_def)
  have new: "idem_get (pay_store ?s) (ref_key ?req) = None" "''REF-'' @ env_uuid ?env \<notin> payment_id ` set (payments ?s)"
    using assms(1,2) by (auto simp: pf_fresh_def idem_get_def pf_reliable_def uuids_new_def)
  have orig: "find (\<lambda>p. payment_id p = ref_payment_id ?req) (payments ?s) = Some p" using p(2) by simp
  from refund_payment_new [OF inv orig new] obtain resp s' where
    resp: "refund_payment ?s ?env ?req = (Inr resp, s')"
      "payments s' = update_first (\<lambda>p. payment_id p = i) (\<lambda>p. p\<lparr>pay_status := payment_status_value Payment.REFUNDED\<rparr>) (payments ?s)
        @ [\<lparr>payment_id = ''REF-'' @ env_uuid ?env, pay_order_id = oid, pay_amount = - pay_amount p,
            pay_status = payment_status_value Payment.REFUNDED, pay_key = k\<rparr>]"
    by auto
  have serve: "serve_refund oid pid k ?env ?s = (\<lparr>status_code = 200, body_json = encode_payment resp\<rparr>, s')"
    using resp(1) p(1) by (simp add: serve_refund_def)
  have app: "map payment_id (payments s') = map payment_id (payments ?s) @ [''REF-'' @ env_uuid ?env]"
    by (simp add: resp(2))
  have ids: "payment_id ` set (payments s') \<subseteq> payment_id ` set (payments ?s) \<union> {''PAY-'' @ env_uuid ?env, ''REF-'' @ env_uuid ?env}"
    by (simp only: set_map [symmetric] app) auto
  have "payment_inv s'" using refund_payment_inv [OF inv, of ?env ?req] resp(1) by simp
  from payment_call [where serve = "serve_refund oid pid k", OF assms(1) serve this ids] obtain pf1 where
    pf1: "http_call pf_payment put_payment (serve_refund oid pid k) pf =
      (Inr \<lparr>status_code = 200, body_json = encode_payment resp\<rparr>, pf1)"
      "pf_payment pf1 = s'" "pf_inventory pf1 = pf_inventory pf"
    by auto
  have out: "r = Inr (encode_payment resp)" "pf' = pf1"
    using assms(4) pf1(1) by (simp_all add: http_refund_def raise_server_error_def)
  have "net_charged (payments s') o' = (if o' = oid then net_charged (payments ?s) o' - amt else net_charged (payments ?s) o')" for o'
    using net_charged_mark [OF p(2,5), of "payment_status_value Payment.REFUNDED" o'] p(4)
    by (simp add: resp(2) net_charged_Cons)
  with out pf1 show ?thesis by auto
qed

lemma http_predict_neutral:
  "http_predict c serve d pf = (r, pf') \<Longrightarrow>
     pf_payment pf' = pf_payment pf \<and> pf_inventory pf' = pf_inventory pf \<and> pf_orders pf' = pf_orders pf"
  by (auto simp: http_predict_def http_call_def split: sum.splits prod.splits)

lemma http_update_status_neutral:
  "http_update_status c kw pf = (r, pf') \<Longrightarrow> pf_payment pf' = pf_payment pf \<and> pf_inventory pf' = pf_inventory pf"
  by (auto simp: http_update_status_def raise_server_error_def http_call_def put_orders_def Let_def
      split: sum.splits prod.splits)

interpretation http: saga_backend "http_services body_text c eta with_order" pf_charged pf_stocked pf_reliable pf_fresh pf_owes
  for body_text c eta with_order
proof
  show "eta_predict (http_services body_text c eta with_order) = Some f \<Longrightarrow> f d w = (x, w') \<Longrightarrow>
      pf_charged w' = pf_charged w \<and> pf_stocked w' = pf_stocked w" for f d w x w'
    by (cases eta) (auto simp: http_services_def dest: http_predict_neutral)
  show "order_update (http_services body_text c eta with_order) = Some g \<Longrightarrow> g d w = (y, w') \<Longrightarrow>
      pf_charged w' = pf_charged w \<and> pf_stocked w' = pf_stocked w" for g d w y w'
    by (auto simp: http_services_def dest: http_update_status_neutral split: if_splits)
  show "pf_reliable w \<Longrightarrow> pf_fresh w k \<Longrightarrow> pay_authorize (http_services body_text c eta with_order) oid amt k w = (r, w') \<Longrightarrow>
      pf_reliable w' \<and> pf_stocked w' = pf_stocked w \<and> (\<forall>k'. k' \<noteq> k \<longrightarrow> pf_fresh w k' \<longrightarrow> pf_fresh w' k') \<and>
      (if answers ''AUTHORIZED'' r
       then pf_charged w' = (pf_charged w)(oid := pf_charged w oid + amt) \<and>
         (\<forall>d pid. r = Inr d \<longrightarrow> map_of d ''payment_id'' = Some pid \<longrightarrow> py_truthy pid \<and> pf_owes w' oid pid amt)
       else pf_charged w' = pf_charged w)" for w k oid amt r w'
    unfolding http_services_def saga_services.simps by (rule http_authorize_contract)
  show "pf_reliable w \<Longrightarrow> pf_fresh w k \<Longrightarrow> inv_reserve (http_services body_text c eta with_order) oid items k w = (r, w') \<Longrightarrow>
      pf_reliable w' \<and> pf_charged w' = pf_charged w \<and> (\<forall>k'. k' \<noteq> k \<longrightarrow> pf_fresh w k' \<longrightarrow> pf_fresh w' k') \<and>
      (\<forall>o' pid a. pf_owes w o' pid a \<longrightarrow> pf_owes w' o' pid a) \<and>
      pf_stocked w' = (if answers ''RESERVED'' r then (\<lambda>i. pf_stocked w i - int (count_list items i)) else pf_stocked w)"
    for w k oid items r w'
    unfolding http_services_def saga_services.simps by (rule http_reserve_contract)
  show "pf_reliable w \<Longrightarrow> pf_fresh w k \<Longrightarrow> pf_owes w oid pid amt \<Longrightarrow>
      pay_refund (http_services body_text c eta with_order) oid pid k w = (r, w') \<Longrightarrow>
      (\<exists>d. r = Inr d) \<and> pf_stocked w' = pf_stocked w \<and> pf_charged w' = (pf_charged w)(oid := pf_charged w oid - amt)"
    for w k oid pid amt r w'
    unfolding http_services_def saga_services.simps by (rule http_refund_contract)
qed

section \<open>Answers of the adapters\<close>

text \<open>An answer with a status carries the identifier the orchestrator indexes.\<close>

lemma respond_body:
  "(\<exists>a. body_json (respond enc out) = enc a) \<or> (\<exists>d. body_json (respond enc out) = [(''detail'', JStr d)])"
  by (cases "(enc, out)" rule: respond.cases) auto

lemma http_authorize_well_formed:
  "well_formed_answer ''AUTHORIZED'' ''payment_id'' (fst (http_authorize body_text oid amt k pf))"
proof -
  have body: "(\<exists>a. d = encode_payment a) \<or> (\<exists>m. d = [(''detail'', JStr m)])"
    if "fst (http_authorize body_text oid amt k pf) = Inr d" for d
  proof -
    obtain out s' where serve: "serve_authorize oid amt k (pf_env pf (pf_calls pf)) (pf_payment pf) = (respond encode_payment out, s')"
      unfolding serve_authorize_def by (metis case_prod_beta)
    from that have "d = body_json (respond encode_payment out)"
      by (cases "next_transport pf")
         (auto simp: http_authorize_def raise_client_error_def raise_server_error_def http_call_def serve split: if_splits)
    then show ?thesis using respond_body [of encode_payment out] by simp
  qed
  then show ?thesis
    unfolding well_formed_answer_def by (fastforce simp: dict_get_or_def encode_payment_def)
qed

lemma http_reserve_well_formed:
  "well_formed_answer ''RESERVED'' ''reservation_id'' (fst (http_reserve body_text oid items k pf))"
proof -
  have body: "(\<exists>a. d = encode_reservation a) \<or> (\<exists>m. d = [(''detail'', JStr m)])"
    if "fst (http_reserve body_text oid items k pf) = Inr d" for d
  proof -
    obtain out s' where serve: "serve_reserve oid items k (pf_env pf (pf_calls pf)) (pf_inventory pf) = (respond encode_reservation out, s')"
      unfolding serve_reserve_def by (metis case_prod_beta)
    from that have "d = body_json (respond encode_reservation out)"
      by (cases "next_transport pf")
         (auto simp: http_reserve_def raise_client_error_def raise_server_error_def http_call_def serve split: if_splits)
    then show ?thesis using respond_body [of encode_reservation out] by simp
  qed
  then show ?thesis
    unfolding well_formed_answer_def by (fastforce simp: dict_get_or_def encode_reservation_def)
qed

lemma http_saga_returns:
  "admissible env oid db \<Longrightarrow>
     \<exists>res st. start_saga (http_services body_text c eta with_order) env oid items amt data db w = (Inr res, st)"
  by (rule start_saga_returns) (simp_all add: http_services_def http_authorize_well_formed http_reserve_well_formed)

text \<open>The order service's state is out of reach of a saga.\<close>

lemma http_call_orders:
  assumes "\<And>s. pf_orders (put s pf) = pf_orders pf"
  shows "pf_orders (snd (http_call get put serve pf)) = pf_orders pf"
  by (simp add: http_call_def assms split: prod.splits)

lemma raise_error_snd [simp]:
  "snd (raise_server_error service out) = snd out" "snd (raise_client_error service body_text out) = snd out"
  by (auto simp: raise_server_error_def raise_client_error_def split: prod.splits sum.splits)

lemma http_orders_unchanged:
  "pf_orders (snd (http_authorize body_text oid amt k pf)) = pf_orders pf"
  "pf_orders (snd (http_refund oid pid k pf)) = pf_orders pf"
  "pf_orders (snd (http_reserve body_text oid items k pf)) = pf_orders pf"
  by (simp_all add: http_authorize_def http_refund_def http_reserve_def http_call_orders put_payment_def put_inventory_def)

lemma bind_new_status:
  "''new_status'' \<in> set (map fst kw) \<Longrightarrow>
     \<exists>e. bind_kwargs [''order_id'', ''status'', ''eta_minutes''] [''order_id'', ''status''] kw = Inl e"
proof -
  assume "''new_status'' \<in> set (map fst kw)"
  then have "find (\<lambda>k. k \<notin> set [''order_id'', ''status'', ''eta_minutes'']) (map fst kw) \<noteq> None"
    unfolding find_None_iff by (intro notI, elim notE, intro exI [of _ "''new_status''"]) simp
  then show ?thesis unfolding bind_kwargs_def by auto
qed

interpretation orders_untouched:
  saga_world_invariant "http_services body_text c eta with_order" "\<lambda>pf. pf_orders pf = o'" for body_text c eta with_order o'
proof
  show "eta_predict (http_services body_text c eta with_order) = Some f \<Longrightarrow> pf_orders w = o' \<Longrightarrow> pf_orders (snd (f d w)) = o'"
    for f w d
    by (cases eta) (auto simp: http_services_def http_predict_neutral [OF prod.collapse [symmetric]])
  show "order_update (http_services body_text c eta with_order) = Some g \<Longrightarrow> ''new_status'' \<in> set (map fst kw) \<Longrightarrow>
      pf_orders w = o' \<Longrightarrow> pf_orders (snd (g kw w)) = o'" for g kw w
    using bind_new_status [of kw] by (auto simp: http_services_def http_update_status_def split: if_splits)
qed (simp_all add: http_services_def http_orders_unchanged)

text \<open>An authorisation whose response is lost: the adapter raises although the payment went through.\<close>

lemma http_authorize_lost_response:
  assumes "next_transport pf = LostResponse" and "payment_inv (pf_payment pf)" and "pf_fresh pf k" and "0 < amt"
    and "''PAY-'' @ env_uuid (pf_env pf (pf_calls pf)) \<notin> payment_id ` set (payments (pf_payment pf))"
    and "amt \<le> always_fail_over (pf_payment pf)" and "fail_rate (pf_payment pf) \<le> env_random (pf_env pf (pf_calls pf))"
  shows "\<exists>e pf'. http_authorize body_text oid amt k pf = (Inl e, pf') \<and> pf_charged pf' oid = pf_charged pf oid + amt"
proof -
  let ?env = "pf_env pf (pf_calls pf)" and ?s = "pf_payment pf"
  let ?req = "\<lparr>auth_order_id = oid, auth_amount = amt, auth_key = k\<rparr>"
  have key: "idem_get (pay_store ?s) (auth_key ?req) = None" using assms(3) by (auto simp: pf_fresh_def idem_get_def)
  from authorize_payment_new [OF assms(2) key assms(5)] assms(6,7) obtain resp s' where
    resp: "authorize_payment ?s ?env ?req = (Inr resp, s')" "pr_status resp = AUTHORIZED"
      "payments s' = payments ?s @ [\<lparr>payment_id = ''PAY-'' @ env_uuid ?env, pay_order_id = oid,
         pay_amount = amt, pay_status = payment_status_value AUTHORIZED, pay_key = k\<rparr>]"
    by fastforce
  then show ?thesis
    using assms(1,4)
    by (simp add: http_authorize_def raise_client_error_def raise_server_error_def http_call_def serve_authorize_def
        post_authorize_def valid_authorize_def put_payment_def net_charged_Cons)
qed

section \<open>A small platform\<close>

text \<open>
  A platform for the examples: one item in stock, no payments yet, and the given fates for the first
  HTTP exchanges.
\<close>

definition small_platform :: "transport list \<Rightarrow> int \<Rightarrow> platform" where
  "small_platform fates n =
     \<lparr>pf_payment = \<lparr>payments = [], pay_store = idem_init, fail_rate = 0, latency_ms = 0, always_fail_over = 10000\<rparr>,
      pf_inventory = \<lparr>inv_db = \<lparr>inv_items = [\<lparr>item_id = ''pizza'', item_name = ''Pizza'', stock = n\<rparr>], reservations = []\<rparr>,
                      inv_store = idem_init\<rparr>,
      pf_orders = no_orders, pf_net = fates,
      pf_env = (\<lambda>n. \<lparr>env_uuid = replicate n (CHR ''A''), env_random = 1, env_now = 0\<rparr>), pf_calls = 0\<rparr>"

definition plain_conversions :: conversions where
  "plain_conversions = \<lparr>py_str = (\<lambda>j. case j of JStr s \<Rightarrow> s | _ \<Rightarrow> ''x''), py_lower = (\<lambda>s. s), parse_float = (\<lambda>s. None), parse_int = (\<lambda>s. None)\<rparr>"

lemma small_platform_reliable: "pf_reliable (small_platform [] n)"
  by (simp add: pf_reliable_def small_platform_def uuids_new_def payment_inv_def payments_ok_def inventory_inv_def
      inventory_ok_def idem_init_def idem_get_def)

lemma small_platform_fresh: "pf_fresh (small_platform fates n) k"
  by (simp add: pf_fresh_def small_platform_def idem_init_def)

lemma stub_keys: "distinct [step_key stub_env ''SAGA-0A'' ''payment'' ''authorize'',
    step_key stub_env ''SAGA-0A'' ''inventory'' ''reserve'', step_key stub_env ''SAGA-0A'' ''payment'' ''refund'']"
  by (simp add: stub_env_def generate_idempotency_key_def)

end
