(* ===== verification/Auth.thy ===== *)
theory Auth
  imports Security
begin

text \<open>
  The auth service, \<^verbatim>\<open>services/auth/app.py\<close>, over its tables (\<^verbatim>\<open>services/auth/models.py\<close>) and contracts
  (\<^verbatim>\<open>contracts/auth.py\<close>): accounts, login, token refresh, profiles, and the tenants of the merchant API with
  their keys. JWT, bcrypt and the mail address validator are parameters. Response fields that hold
  \<^verbatim>\<open>created_at.isoformat()\<close> hold the time itself.
\<close>

section \<open>Contracts and tables\<close>

record signup_request =
  su_email :: string
  su_password :: string
  su_name :: string
  su_role :: user_role

record login_request =
  li_email :: string
  li_password :: string

record 'tok token_response =
  tr_access_token :: 'tok
  tr_refresh_token :: 'tok
  tr_token_type :: string
  tr_expires_in :: int

record user_profile =
  up_user_id :: string
  up_email :: string
  up_name :: string
  up_role :: user_role
  up_created_at :: time

record create_tenant_request =
  ct_name :: string
  ct_email :: string
  ct_quota :: int

record tenant_response =
  te_tenant_id :: string
  te_name :: string
  te_email :: string
  te_api_key :: string
  te_api_secret :: "string option"
  te_quota :: int
  te_is_active :: bool
  te_created_at :: time

record user =
  usr_id :: string
  usr_email :: string
  usr_name :: string
  password_hash :: string
  usr_role :: string
  usr_created_at :: time
  usr_updated_at :: time

record tenant =
  tn_id :: string
  tn_tenant_id :: string
  tn_name :: string
  tn_email :: string
  tn_api_key :: string
  tn_api_secret :: string
  tn_quota :: int
  tn_is_active :: int
  tn_created_at :: time
  tn_updated_at :: time

record auth_db =
  users :: "user list"
  tenants :: "tenant list"

text \<open>The primary keys and unique columns.\<close>

definition auth_db_ok :: "auth_db \<Rightarrow> bool" where
  "auth_db_ok db \<longleftrightarrow>
     distinct (map usr_id (users db)) \<and> distinct (map usr_email (users db)) \<and>
     distinct (map tn_id (tenants db)) \<and> distinct (map tn_tenant_id (tenants db)) \<and> distinct (map tn_api_key (tenants db))"

text \<open>The request schemas; \<open>validate_email\<close> gives the normalised address of a valid one.\<close>

definition valid_signup :: "(string \<Rightarrow> string option) \<Rightarrow> signup_request \<Rightarrow> signup_request option" where
  "valid_signup validate_email r =
     (case validate_email (su_email r) of
        None \<Rightarrow> None
      | Some e \<Rightarrow>
          if 8 \<le> length (su_password r) \<and> length (su_password r) \<le> 128 \<and> 1 \<le> length (su_name r) \<and> length (su_name r) \<le> 100
          then Some (r\<lparr>su_email := e\<rparr>) else None)"

definition valid_tenant :: "(string \<Rightarrow> string option) \<Rightarrow> create_tenant_request \<Rightarrow> create_tenant_request option" where
  "valid_tenant validate_email r =
     (case validate_email (ct_email r) of
        None \<Rightarrow> None
      | Some e \<Rightarrow>
          if 2 \<le> length (ct_name r) \<and> length (ct_name r) \<le> 100 \<and> 1 \<le> ct_quota r \<and> ct_quota r \<le> 100000
          then Some (r\<lparr>ct_email := e\<rparr>) else None)"

text \<open>What one call draws: ids, salt and secrets, and the clock at its first and second reading.\<close>

record auth_env =
  ae_uuid :: string
  ae_tenant_hex :: string
  ae_salt :: string
  ae_token_hex :: string
  ae_token_urlsafe :: string
  ae_now :: time
  ae_then :: time

record 'tok security =
  sec_jwt :: "'tok jwt_lib"
  sec_bcrypt :: bcrypt_lib
  sec_key :: string

section \<open>Accounts\<close>

definition profile_of :: "user \<Rightarrow> user_profile outcome" where
  "profile_of u =
     (case user_role_of (JStr (usr_role u)) of
        Inl e \<Rightarrow> Inl e
      | Inr r \<Rightarrow> Inr \<lparr>up_user_id = usr_id u, up_email = usr_email u, up_name = usr_name u, up_role = r,
                      up_created_at = usr_created_at u\<rparr>)"

definition new_user :: "'tok security \<Rightarrow> auth_env \<Rightarrow> signup_request \<Rightarrow> user" where
  "new_user sec env r =
     \<lparr>usr_id = ae_uuid env, usr_email = su_email r, usr_name = su_name r,
      password_hash = hash_password (sec_bcrypt sec) (ae_salt env) (su_password r), usr_role = user_role_value (su_role r),
      usr_created_at = ae_now env, usr_updated_at = ae_then env\<rparr>"

definition signup :: "'tok security \<Rightarrow> auth_env \<Rightarrow> signup_request \<Rightarrow> auth_db \<Rightarrow> user_profile outcome \<times> auth_db" where
  "signup sec env r =
     get_session auth_db_ok
       (\<lambda>db. case find (\<lambda>u. usr_email u = su_email r) (users db) of
               Some _ \<Rightarrow> (Inl (HTTPException 409 (''Email '' @ su_email r @ '' is already registered'')), db)
             | None \<Rightarrow> (profile_of (new_user sec env r), db\<lparr>users := users db @ [new_user sec env r]\<rparr>))"

definition post_signup ::
  "(string \<Rightarrow> string option) \<Rightarrow> 'tok security \<Rightarrow> auth_env \<Rightarrow> signup_request \<Rightarrow> auth_db \<Rightarrow> user_profile outcome \<times> auth_db" where
  "post_signup validate_email sec env r db =
     (case valid_signup validate_email r of
        None \<Rightarrow> (Inl (HTTPException 422 ''validation error''), db)
      | Some r' \<Rightarrow> signup sec env r' db)"

definition issue_tokens :: "'tok security \<Rightarrow> auth_env \<Rightarrow> user \<Rightarrow> 'tok token_response" where
  "issue_tokens sec env u =
     \<lparr>tr_access_token = create_access_token (sec_jwt sec) (sec_key sec) (ae_now env) (usr_id u) (usr_role u) None,
      tr_refresh_token = create_refresh_token (sec_jwt sec) (sec_key sec) (ae_then env) (usr_id u),
      tr_token_type = ''bearer'', tr_expires_in = 900\<rparr>"

definition login :: "'tok security \<Rightarrow> auth_env \<Rightarrow> login_request \<Rightarrow> auth_db \<Rightarrow> 'tok token_response outcome \<times> auth_db" where
  "login sec env r =
     get_session auth_db_ok
       (\<lambda>db. case find (\<lambda>u. usr_email u = li_email r) (users db) of
               None \<Rightarrow> (Inl (HTTPException 401 ''Invalid email or password''), db)
             | Some u \<Rightarrow>
                 if \<not> verify_password (sec_bcrypt sec) (li_password r) (password_hash u)
                 then (Inl (HTTPException 401 ''Invalid email or password''), db)
                 else (Inr (issue_tokens sec env u), db))"

text \<open>\<open>t\<close> is the time at which the refresh token is verified.\<close>

definition refresh :: "'tok security \<Rightarrow> time \<Rightarrow> auth_env \<Rightarrow> 'tok \<Rightarrow> auth_db \<Rightarrow> 'tok token_response outcome \<times> auth_db" where
  "refresh sec t env token db =
     (case verify_refresh_token (sec_jwt sec) (sec_key sec) t token of
        Inl (ValueError m) \<Rightarrow> (Inl (HTTPException 401 m), db)
      | Inl e \<Rightarrow> (Inl e, db)
      | Inr payload \<Rightarrow>
          (case dict_index payload ''sub'' of
             Inl e \<Rightarrow> (Inl e, db)
           | Inr sub \<Rightarrow>
               get_session auth_db_ok
                 (\<lambda>db. case find (\<lambda>u. JStr (usr_id u) = sub) (users db) of
                         None \<Rightarrow> (Inl (HTTPException 401 ''User not found''), db)
                       | Some u \<Rightarrow> (Inr (issue_tokens sec env u), db)) db))"

text \<open>\<open>auth\<close> is what the dependency \<^verbatim>\<open>get_current_user\<close> gave.\<close>

definition get_profile :: "auth_context outcome \<Rightarrow> auth_db \<Rightarrow> user_profile outcome \<times> auth_db" where
  "get_profile auth db =
     (case auth of
        Inl e \<Rightarrow> (Inl e, db)
      | Inr a \<Rightarrow>
          get_session auth_db_ok
            (\<lambda>db. case find (\<lambda>u. JStr (usr_id u) = user_id a) (users db) of
                    None \<Rightarrow> (Inl (HTTPException 404 ''User not found''), db)
                  | Some u \<Rightarrow> (profile_of u, db)) db)"

section \<open>Tenants\<close>

definition tenant_view :: "string option \<Rightarrow> tenant \<Rightarrow> tenant_response" where
  "tenant_view secret t =
     \<lparr>te_tenant_id = tn_tenant_id t, te_name = tn_name t, te_email = tn_email t, te_api_key = tn_api_key t,
      te_api_secret = secret, te_quota = tn_quota t, te_is_active = (tn_is_active t \<noteq> 0), te_created_at = tn_created_at t\<rparr>"

definition new_tenant :: "auth_env \<Rightarrow> create_tenant_request \<Rightarrow> tenant" where
  "new_tenant env r =
     (let (api_key, api_secret) = generate_api_key_pair (ae_token_hex env) (ae_token_urlsafe env)
      in \<lparr>tn_id = ae_uuid env, tn_tenant_id = ''TENANT-'' @ ae_tenant_hex env, tn_name = ct_name r, tn_email = ct_email r,
          tn_api_key = api_key, tn_api_secret = api_secret, tn_quota = ct_quota r, tn_is_active = 1,
          tn_created_at = ae_now env, tn_updated_at = ae_then env\<rparr>)"

definition create_tenant ::
  "auth_context outcome \<Rightarrow> auth_env \<Rightarrow> create_tenant_request \<Rightarrow> auth_db \<Rightarrow> tenant_response outcome \<times> auth_db" where
  "create_tenant auth env r db =
     (case require_role [ADMIN] auth of
        Inl e \<Rightarrow> (Inl e, db)
      | Inr _ \<Rightarrow>
          get_session auth_db_ok
            (\<lambda>db. (Inr (tenant_view (Some (tn_api_secret (new_tenant env r))) (new_tenant env r)),
                   db\<lparr>tenants := tenants db @ [new_tenant env r]\<rparr>)) db)"

definition list_tenants :: "auth_context outcome \<Rightarrow> auth_db \<Rightarrow> tenant_response list outcome" where
  "list_tenants auth db =
     (case require_role [ADMIN] auth of
        Inl e \<Rightarrow> Inl e
      | Inr _ \<Rightarrow> Inr (map (tenant_view None) (sort_key (\<lambda>t. - tn_created_at t) (tenants db))))"

definition get_tenant :: "string \<Rightarrow> auth_context outcome \<Rightarrow> auth_db \<Rightarrow> tenant_response outcome" where
  "get_tenant tid auth db =
     (case require_role [ADMIN] auth of
        Inl e \<Rightarrow> Inl e
      | Inr _ \<Rightarrow>
          (case find (\<lambda>t. tn_tenant_id t = tid) (tenants db) of
             None \<Rightarrow> Inl (HTTPException 404 (''Tenant '' @ tid @ '' not found''))
           | Some t \<Rightarrow> Inr (tenant_view None t)))"

record key_info =
  ki_tenant_id :: string
  ki_api_secret :: string
  ki_quota :: int

definition verify_api_key :: "string \<Rightarrow> auth_db \<Rightarrow> key_info outcome" where
  "verify_api_key api_key db =
     (case find (\<lambda>t. tn_api_key t = api_key \<and> tn_is_active t = 1) (tenants db) of
        None \<Rightarrow> Inl (HTTPException 401 ''Invalid or inactive API key'')
      | Some t \<Rightarrow> Inr \<lparr>ki_tenant_id = tn_tenant_id t, ki_api_secret = tn_api_secret t, ki_quota = tn_quota t\<rparr>)"

section \<open>Lemmas\<close>

text \<open>bcrypt: a password matches its own hash.\<close>

definition bcrypt_ok :: "bcrypt_lib \<Rightarrow> bool" where
  "bcrypt_ok lib \<longleftrightarrow> (\<forall>p salt. checkpw lib p (hashpw lib p salt))"

lemma profile_of_new_user:
  "profile_of (new_user sec env r) =
     Inr \<lparr>up_user_id = ae_uuid env, up_email = su_email r, up_name = su_name r, up_role = su_role r, up_created_at = ae_now env\<rparr>"
  by (simp add: profile_of_def new_user_def)

lemma signup_cases:
  assumes "signup sec env r db = (x, db')"
  obtains (taken) "\<exists>u \<in> set (users db). usr_email u = su_email r"
      "x = Inl (HTTPException 409 (''Email '' @ su_email r @ '' is already registered''))" "db' = db"
  | (refused) "x = Inl IntegrityError" "db' = db" "\<not> auth_db_ok (db\<lparr>users := users db @ [new_user sec env r]\<rparr>)"
  | (created) "find (\<lambda>u. usr_email u = su_email r) (users db) = None" "x = profile_of (new_user sec env r)"
      "db' = db\<lparr>users := users db @ [new_user sec env r]\<rparr>" "auth_db_ok db'"
proof (cases "find (\<lambda>u. usr_email u = su_email r) (users db)")
  case None
  let ?db = "db\<lparr>users := users db @ [new_user sec env r]\<rparr>"
  obtain p where p: "profile_of (new_user sec env r) = Inr p" by (simp add: profile_of_new_user)
  show ?thesis
  proof (cases "auth_db_ok ?db")
    case True
    with assms None p have "x = Inr p" "db' = ?db" by (simp_all add: signup_def get_session_def)
    with None p True show ?thesis by (intro created) simp_all
  next
    case False
    with assms None p have "x = Inl IntegrityError" "db' = db" by (simp_all add: signup_def get_session_def)
    with False show ?thesis by (intro refused)
  qed
next
  case (Some u)
  then have u: "u \<in> set (users db) \<and> usr_email u = su_email r" by (rule find_SomeD)
  from assms Some have "x = Inl (HTTPException 409 (''Email '' @ su_email r @ '' is already registered''))" "db' = db"
    by (simp_all add: signup_def get_session_def)
  with u show ?thesis by (intro taken bexI [of _ u]) simp_all
qed

text \<open>What a session that reads only leaves and answers.\<close>

lemma get_session_read: "auth_db_ok db \<Longrightarrow> get_session auth_db_ok (\<lambda>db. (f db, db)) db = (f db, db)"
  by (simp add: get_session_def split: sum.split)

lemma login_eq:
  assumes "auth_db_ok db"
  shows "login sec env r db =
    ((case find (\<lambda>u. usr_email u = li_email r) (users db) of
        None \<Rightarrow> Inl (HTTPException 401 ''Invalid email or password'')
      | Some u \<Rightarrow> if verify_password (sec_bcrypt sec) (li_password r) (password_hash u) then Inr (issue_tokens sec env u)
                  else Inl (HTTPException 401 ''Invalid email or password'')), db)"
  using assms by (simp add: login_def get_session_def split: option.split)

lemma get_profile_eq:
  assumes "auth_db_ok db"
  shows "get_profile (Inr a) db =
    ((case find (\<lambda>u. JStr (usr_id u) = user_id a) (users db) of
        None \<Rightarrow> Inl (HTTPException 404 ''User not found'')
      | Some u \<Rightarrow> profile_of u), db)"
  using assms by (simp add: get_profile_def get_session_def split: option.split sum.split)

lemma find_user_id:
  assumes "auth_db_ok db" and "u \<in> set (users db)"
  shows "find (\<lambda>v. usr_id v = usr_id u) (users db) = Some u"
  using find_distinct [of usr_id "users db" u] assms by (simp add: auth_db_ok_def)

lemma find_user_email:
  assumes "auth_db_ok db" and "u \<in> set (users db)"
  shows "find (\<lambda>v. usr_email v = usr_email u) (users db) = Some u"
  using find_distinct [of usr_email "users db" u] assms by (simp add: auth_db_ok_def)

text \<open>The state the endpoints keep: the constraints hold and every stored role is one of the three.\<close>

definition auth_inv :: "auth_db \<Rightarrow> bool" where
  "auth_inv db \<longleftrightarrow> auth_db_ok db \<and> (\<forall>u \<in> set (users db). \<exists>r. usr_role u = user_role_value r)"

datatype 'tok auth_op =
    Signup auth_env signup_request
  | Login auth_env login_request
  | Refresh time auth_env 'tok
  | Profile "auth_context outcome"
  | CreateTenant "auth_context outcome" auth_env create_tenant_request

fun auth_step ::
  "(string \<Rightarrow> string option) \<Rightarrow> 'tok security \<Rightarrow> auth_db \<Rightarrow> 'tok auth_op \<Rightarrow> unit outcome \<times> auth_db" where
  "auth_step validate sec db (Signup env r) = map_prod (map_sum id (\<lambda>_. ())) id (post_signup validate sec env r db)"
| "auth_step validate sec db (Login env r) = map_prod (map_sum id (\<lambda>_. ())) id (login sec env r db)"
| "auth_step validate sec db (Refresh t env tok) = map_prod (map_sum id (\<lambda>_. ())) id (refresh sec t env tok db)"
| "auth_step validate sec db (Profile a) = map_prod (map_sum id (\<lambda>_. ())) id (get_profile a db)"
| "auth_step validate sec db (CreateTenant a env r) = map_prod (map_sum id (\<lambda>_. ())) id (create_tenant a env r db)"

lemma signup_inv:
  assumes "auth_inv db"
  shows "auth_inv (snd (signup sec env r db))"
proof (cases "signup sec env r db")
  case (Pair x db')
  then have "auth_inv db'"
  proof (cases rule: signup_cases)
    case created
    with assms show ?thesis by (auto simp: auth_inv_def new_user_def)
  qed (use assms in auto)
  with Pair show ?thesis by simp
qed

lemma login_unchanged [frame_simps]: "snd (login sec env r db) = db"
  by (auto simp: login_def get_session_def split: option.splits)

lemma refresh_unchanged [frame_simps]: "snd (refresh sec t env tok db) = db"
  by (auto simp: refresh_def get_session_def split: option.splits sum.splits py_exn.splits)

lemma get_profile_unchanged [frame_simps]: "snd (get_profile a db) = db"
  by (auto simp: get_profile_def get_session_def split: option.splits sum.splits)

lemma create_tenant_inv:
  assumes "auth_inv db"
  shows "auth_inv (snd (create_tenant a env r db))"
  using assms by (auto simp: create_tenant_def get_session_def auth_inv_def split: sum.splits)

lemma auth_step_inv: "auth_inv db \<Longrightarrow> auth_inv (snd (auth_step validate sec db op))"
  by (cases op) (auto simp: frame_simps post_signup_def signup_inv create_tenant_inv split: option.split)

definition empty_auth :: auth_db where
  "empty_auth = \<lparr>users = [], tenants = []\<rparr>"

interpretation accounts: guarded_service "auth_step validate sec" "\<lambda>_. True" auth_inv
  by unfold_locales (rule auth_step_inv)

lemma auth_run_inv: "auth_inv (run (auth_step validate sec) empty_auth ops)"
  by (rule accounts.run_inv) (simp_all add: auth_inv_def empty_auth_def auth_db_ok_def list_all_iff)

lemma token_context:
  assumes "jwt_ok (sec_jwt sec)" and "usr_role u = user_role_value role"
  shows "get_current_user (sec_jwt sec) (sec_key sec) t (Some (tr_access_token (issue_tokens sec env u))) =
    (if t < of_int \<lfloor>ae_now env + ACCESS_TOKEN_EXPIRE\<rfloor>
     then Inr \<lparr>user_id = JStr (usr_id u), auth_role = role, tenant_id = JNull\<rparr>
     else Inl (HTTPException 401 ''Access token has expired''))"
  using assms(2)
  by (auto simp: issue_tokens_def get_current_user_def verify_access_token_def decode_access [OF assms(1)] context_of_def
      dict_get_or_def dict_index_def)

lemma refresh_eq:
  assumes "jwt_ok (sec_jwt sec)" and "auth_db_ok db"
  shows "refresh sec t env (tr_refresh_token (issue_tokens sec env0 u)) db =
    (if t < of_int \<lfloor>ae_then env0 + REFRESH_TOKEN_EXPIRE\<rfloor>
     then (case find (\<lambda>v. usr_id v = usr_id u) (users db) of
             None \<Rightarrow> Inl (HTTPException 401 ''User not found'')
           | Some v \<Rightarrow> Inr (issue_tokens sec env v))
     else Inl (HTTPException 401 ''Refresh token has expired''), db)"
  using assms(2)
  by (auto simp: refresh_def issue_tokens_def verify_refresh_token_def decode_refresh [OF assms(1)]
      dict_get_or_def dict_index_def get_session_def split: option.split)

lemma find_strengthen:
  assumes "find p xs = Some x" and "q x"
  shows "find (\<lambda>y. p y \<and> q y) xs = Some x"
proof -
  have "find p xs = Some x \<Longrightarrow> q x \<Longrightarrow> find (\<lambda>y. p y \<and> q y) xs = Some x"
    by (induction xs) (auto split: if_splits)
  with assms show ?thesis by blast
qed

section \<open>Properties\<close>


definition plain_bcrypt :: bcrypt_lib where
  "plain_bcrypt = \<lparr>hashpw = (\<lambda>p salt. salt @ p), checkpw = (\<lambda>p h. drop (length h - length p) h = p)\<rparr>"

definition plain_security :: "(string \<times> json_dict) security" where
  "plain_security = \<lparr>sec_jwt = pair_jwt, sec_bcrypt = plain_bcrypt, sec_key = ''key''\<rparr>"

lemma plain_bcrypt_ok: "bcrypt_ok plain_bcrypt"
  by (simp add: bcrypt_ok_def plain_bcrypt_def)

definition sample_env :: auth_env where
  "sample_env = \<lparr>ae_uuid = ''u1'', ae_tenant_hex = ''AB'', ae_salt = ''salt'', ae_token_hex = ''0f'', ae_token_urlsafe = ''x'',
     ae_now = 0, ae_then = 0\<rparr>"


text \<open>
  C29: Whatever requests the service has handled, addresses and ids are unique and every account can be
  read: its profile exists, shows the stored address, and its role decodes.
\<close>

theorem accounts_well_formed:
  "let db = run (auth_step validate sec) empty_auth ops
   in distinct (map usr_email (users db)) \<and> distinct (map usr_id (users db)) \<and>
      (\<forall>u \<in> set (users db). \<exists>p. get_profile (Inr \<lparr>user_id = JStr (usr_id u), auth_role = role, tenant_id = tid\<rparr>) db = (Inr p, db) \<and>
         up_user_id p = usr_id u \<and> up_email p = usr_email u \<and> user_role_value (up_role p) = usr_role u)"
proof -
  let ?db = "run (auth_step validate sec) empty_auth ops"
  have inv: "auth_inv ?db" by (rule auth_run_inv)
  then have ok: "auth_db_ok ?db" by (simp add: auth_inv_def)
  have "\<exists>p. get_profile (Inr \<lparr>user_id = JStr (usr_id u), auth_role = role, tenant_id = tid\<rparr>) ?db = (Inr p, ?db) \<and>
      up_user_id p = usr_id u \<and> up_email p = usr_email u \<and> user_role_value (up_role p) = usr_role u" if u: "u \<in> set (users ?db)" for u
  proof -
    obtain r where "usr_role u = user_role_value r" using inv u by (auto simp: auth_inv_def)
    then show ?thesis by (simp add: get_profile_eq [OF ok] find_user_id [OF ok u] profile_of_def)
  qed
  with ok show ?thesis by (simp add: Let_def auth_db_ok_def)
qed

theorem accounts_well_formed_witness:
  "let r = \<lparr>su_email = ''a@b.c'', su_password = ''password'', su_name = ''A'', su_role = CUSTOMER\<rparr>;
       db = run (auth_step Some plain_security) empty_auth [Signup sample_env r, Signup sample_env r]
   in length (users db) = 1 \<and> (\<exists>p. get_profile (Inr \<lparr>user_id = JStr ''u1'', auth_role = CUSTOMER, tenant_id = JNull\<rparr>) db = (Inr p, db))"
proof -
  let ?r = "\<lparr>su_email = ''a@b.c'', su_password = ''password'', su_name = ''A'', su_role = CUSTOMER\<rparr>"
  let ?db = "run (auth_step Some plain_security) empty_auth [Signup sample_env ?r, Signup sample_env ?r]"
  have users: "users ?db = [new_user plain_security sample_env ?r]"
    by (simp add: post_signup_def valid_signup_def signup_def get_session_def empty_auth_def auth_db_ok_def profile_of_new_user)
  then have u: "new_user plain_security sample_env ?r \<in> set (users ?db)" by simp
  have "\<exists>p. get_profile (Inr \<lparr>user_id = JStr (usr_id (new_user plain_security sample_env ?r)), auth_role = CUSTOMER, tenant_id = JNull\<rparr>) ?db =
      (Inr p, ?db)"
    using accounts_well_formed [of Some plain_security "[Signup sample_env ?r, Signup sample_env ?r]" CUSTOMER JNull] u
    unfolding Let_def by blast
  moreover have "usr_id (new_user plain_security sample_env ?r) = ''u1''" by (simp add: new_user_def sample_env_def)
  ultimately show ?thesis using users unfolding Let_def by simp
qed

text \<open>
  A refresh keeps the identity and re-reads the role. The refresh token of a login or refresh, until it
  expires, gives its user new tokens, which authenticate that user in the role the table holds now; after
  the user's row is gone, or after the expiry, the answer is 401, and so it is for an access token.
\<close>

theorem refresh_keeps_identity:
  assumes "jwt_ok (sec_jwt sec)" and "auth_db_ok db" and "t < of_int \<lfloor>ae_then env0 + REFRESH_TOKEN_EXPIRE\<rfloor>"
    and "\<forall>v \<in> set (users db). \<exists>r. usr_role v = user_role_value r"
  shows "(case find (\<lambda>v. usr_id v = usr_id u) (users db) of
      None \<Rightarrow> refresh sec t env (tr_refresh_token (issue_tokens sec env0 u)) db = (Inl (HTTPException 401 ''User not found''), db)
    | Some v \<Rightarrow> (\<exists>tok role. refresh sec t env (tr_refresh_token (issue_tokens sec env0 u)) db = (Inr tok, db) \<and>
        usr_role v = user_role_value role \<and>
        (\<forall>t' < of_int \<lfloor>ae_now env + ACCESS_TOKEN_EXPIRE\<rfloor>.
           get_current_user (sec_jwt sec) (sec_key sec) t' (Some (tr_access_token tok)) =
             Inr \<lparr>user_id = JStr (usr_id u), auth_role = role, tenant_id = JNull\<rparr>))) \<and>
    (\<exists>m. refresh sec t env (tr_access_token (issue_tokens sec env0 u)) db = (Inl (HTTPException 401 m), db)) \<and>
    (of_int \<lfloor>ae_then env0 + REFRESH_TOKEN_EXPIRE\<rfloor> \<le> t' \<longrightarrow>
       refresh sec t' env (tr_refresh_token (issue_tokens sec env0 u)) db = (Inl (HTTPException 401 ''Refresh token has expired''), db))"
proof (intro conjI)
  show "case find (\<lambda>v. usr_id v = usr_id u) (users db) of
      None \<Rightarrow> refresh sec t env (tr_refresh_token (issue_tokens sec env0 u)) db = (Inl (HTTPException 401 ''User not found''), db)
    | Some v \<Rightarrow> (\<exists>tok role. refresh sec t env (tr_refresh_token (issue_tokens sec env0 u)) db = (Inr tok, db) \<and>
        usr_role v = user_role_value role \<and>
        (\<forall>t' < of_int \<lfloor>ae_now env + ACCESS_TOKEN_EXPIRE\<rfloor>.
           get_current_user (sec_jwt sec) (sec_key sec) t' (Some (tr_access_token tok)) =
             Inr \<lparr>user_id = JStr (usr_id u), auth_role = role, tenant_id = JNull\<rparr>))"
  proof (cases "find (\<lambda>v. usr_id v = usr_id u) (users db)")
    case None
    then show ?thesis using assms(3) by (simp add: refresh_eq [OF assms(1,2)])
  next
    case (Some v)
    then have v: "v \<in> set (users db)" "usr_id v = usr_id u" using find_SomeD by fast+
    then obtain role where role: "usr_role v = user_role_value role" using assms(4) by blast
    show ?thesis
      using Some v(2) assms(3) role by (auto simp: refresh_eq [OF assms(1,2)] token_context [OF assms(1) role])
  qed
  show "\<exists>m. refresh sec t env (tr_access_token (issue_tokens sec env0 u)) db = (Inl (HTTPException 401 m), db)"
    by (simp add: refresh_def issue_tokens_def verify_refresh_token_def decode_access [OF assms(1)] dict_get_or_def)
qed (simp add: refresh_eq [OF assms(1,2)])

theorem refresh_keeps_identity_witness:
  "let u = new_user plain_security sample_env \<lparr>su_email = ''a@b.c'', su_password = ''password'', su_name = ''A'', su_role = CUSTOMER\<rparr>;
       db = \<lparr>users = [u], tenants = []\<rparr>
   in \<exists>tok. refresh plain_security 100 sample_env (tr_refresh_token (issue_tokens plain_security sample_env u)) db = (Inr tok, db)"
proof -
  let ?u = "new_user plain_security sample_env \<lparr>su_email = ''a@b.c'', su_password = ''password'', su_name = ''A'', su_role = CUSTOMER\<rparr>"
  let ?db = "\<lparr>users = [?u], tenants = []\<rparr>"
  have "jwt_ok (sec_jwt plain_security)" "auth_db_ok ?db" "(100 :: rat) < of_int \<lfloor>ae_then sample_env + REFRESH_TOKEN_EXPIRE\<rfloor>"
    by (simp_all add: plain_security_def pair_jwt_ok auth_db_ok_def sample_env_def)
  moreover have "\<forall>v \<in> set (users ?db). \<exists>r. usr_role v = user_role_value r"
    by (auto simp: new_user_def simp del: user_role_value.simps)
  ultimately show ?thesis using refresh_keeps_identity [of plain_security ?db 100 sample_env sample_env ?u] by (auto simp: Let_def)
qed



end
