(* ===== verification/Webhook.thy ===== *)
theory Webhook
  imports Security
begin

text \<open>
  The webhook dispatcher, \<^verbatim>\<open>services/webhook/app.py\<close>, over its tables (\<^verbatim>\<open>services/webhook/models.py\<close>) and
  contracts (\<^verbatim>\<open>contracts/webhook.py\<close>): subscriptions, the signed dispatch of an event to every matching
  subscriber, the delivery log and manual redelivery. The state holds, beside the database, the requests
  that left the service: a rollback takes back rows, never requests. HMAC is a parameter, and so is what
  the merchant's endpoint does with a request.
\<close>

section \<open>Contracts and tables\<close>

datatype webhook_status = PENDING | SUCCESS | FAILED | RETRYING

fun webhook_status_value :: "webhook_status \<Rightarrow> string" where
  "webhook_status_value PENDING = ''PENDING''"
| "webhook_status_value SUCCESS = ''SUCCESS''"
| "webhook_status_value FAILED = ''FAILED''"
| "webhook_status_value RETRYING = ''RETRYING''"

definition webhook_status_of :: "string \<Rightarrow> webhook_status outcome" where
  "webhook_status_of v =
     (case find (\<lambda>s. webhook_status_value s = v) [PENDING, SUCCESS, FAILED, RETRYING] of
        Some s \<Rightarrow> Inr s
      | None \<Rightarrow> Inl (ValueError ''not a valid WebhookStatus''))"

lemma webhook_status_of_value [simp]: "webhook_status_of (webhook_status_value s) = Inr s"
  by (cases s) (simp_all add: webhook_status_of_def)

record subscription_create =
  sc_url :: string
  sc_event_types :: "string list"
  sc_description :: "string option"

record subscription_response =
  sr_id :: string
  sr_tenant_id :: json
  sr_url :: string
  sr_event_types :: "string list"
  sr_secret :: string
  sr_is_active :: bool
  sr_created_at :: time

record dispatch_request =
  dq_event_id :: string
  dq_event_type :: string
  dq_tenant_id :: string
  dq_payload :: json_dict

record webhook_subscription =
  ws_id :: string
  ws_tenant_id :: json
  ws_url :: string
  ws_event_types :: "string list json_text"
  ws_secret :: string
  ws_description :: "string option"
  ws_is_active :: int
  ws_created_at :: time

record webhook_delivery =
  wd_id :: string
  wd_tenant_id :: json
  wd_subscription_id :: string
  wd_event_id :: string
  wd_event_type :: string
  wd_url :: string
  wd_payload :: "json_dict json_text"
  wd_status_code :: nat
  wd_response_time_ms :: rat
  wd_attempt_count :: nat
  wd_max_attempts :: nat
  wd_next_retry_at :: "time option"
  wd_status :: string
  wd_error_message :: "string option"
  wd_created_at :: time
  wd_updated_at :: time

record delivery_response =
  dp_id :: string
  dp_tenant_id :: json
  dp_subscription_id :: string
  dp_event_id :: string
  dp_event_type :: string
  dp_url :: string
  dp_payload :: json_dict
  dp_status_code :: nat
  dp_attempt_count :: nat
  dp_response_time_ms :: rat
  dp_next_retry_at :: "time option"
  dp_status :: webhook_status
  dp_error_message :: "string option"
  dp_created_at :: time

record webhook_db =
  subscriptions :: "webhook_subscription list"
  deliveries :: "webhook_delivery list"

definition webhook_db_ok :: "webhook_db \<Rightarrow> bool" where
  "webhook_db_ok db \<longleftrightarrow> distinct (map ws_id (subscriptions db)) \<and> distinct (map wd_id (deliveries db))"

section \<open>Sending\<close>

record webhook_call =
  wc_url :: string
  wc_content :: "json_dict json_text"
  wc_signature :: string
  wc_timestamp :: int

text \<open>What \<^verbatim>\<open>httpx.post\<close> does: a response after some seconds, a timeout, or another exception with its text.\<close>

datatype http_try = Answered nat rat | TimedOut | Failed string

text \<open>What one delivery draws: the id of its row, the clocks, and the merchant's reaction.\<close>

record delivery_env =
  de_uuid :: string
  de_clock :: time
  de_now :: time
  de_post :: "webhook_call \<Rightarrow> http_try"

record delivery_result =
  res_success :: bool
  res_status_code :: nat
  res_response_time_ms :: rat
  res_error :: "string option"

definition webhook_call_of ::
  "(string \<Rightarrow> json_dict json_text \<Rightarrow> string) \<Rightarrow> delivery_env \<Rightarrow> string \<Rightarrow> json_dict json_text \<Rightarrow> string \<Rightarrow> webhook_call" where
  "webhook_call_of hmac_hex env url payload_bytes secret =
     \<lparr>wc_url = url, wc_content = payload_bytes, wc_signature = compute_hmac_signature hmac_hex secret payload_bytes,
      wc_timestamp = py_int (de_clock env)\<rparr>"

definition deliver_webhook ::
  "(string \<Rightarrow> json_dict json_text \<Rightarrow> string) \<Rightarrow> delivery_env \<Rightarrow> string \<Rightarrow> json_dict json_text \<Rightarrow> string \<Rightarrow> delivery_result" where
  "deliver_webhook hmac_hex env url payload_bytes secret =
     (case de_post env (webhook_call_of hmac_hex env url payload_bytes secret) of
        Answered code elapsed \<Rightarrow>
          \<lparr>res_success = (200 \<le> code \<and> code < 300), res_status_code = code,
           res_response_time_ms = py_round 1 (elapsed * 1000), res_error = None\<rparr>
      | TimedOut \<Rightarrow>
          \<lparr>res_success = False, res_status_code = 0, res_response_time_ms = 10000, res_error = Some ''Timeout (10s)''\<rparr>
      | Failed e \<Rightarrow> \<lparr>res_success = False, res_status_code = 0, res_response_time_ms = 0, res_error = Some e\<rparr>)"

record webhook_service =
  wh_db :: webhook_db
  wh_sent :: "webhook_call list"

section \<open>Subscriptions\<close>

definition caller_tenant :: "auth_context \<Rightarrow> json" where
  "caller_tenant a = (if py_truthy (tenant_id a) then tenant_id a else user_id a)"

definition new_subscription :: "call_env \<Rightarrow> string \<Rightarrow> subscription_create \<Rightarrow> auth_context \<Rightarrow> webhook_subscription" where
  "new_subscription env token_urlsafe r a =
     \<lparr>ws_id = env_uuid env, ws_tenant_id = caller_tenant a, ws_url = sc_url r, ws_event_types = json_dumps (sc_event_types r),
      ws_secret = snd (generate_api_key_pair [] token_urlsafe), ws_description = sc_description r, ws_is_active = 1,
      ws_created_at = env_now env\<rparr>"

definition create_subscription ::
  "auth_context outcome \<Rightarrow> call_env \<Rightarrow> string \<Rightarrow> subscription_create \<Rightarrow> webhook_service \<Rightarrow>
   subscription_response outcome \<times> webhook_service" where
  "create_subscription auth env token_urlsafe r s =
     (case auth of
        Inl e \<Rightarrow> (Inl e, s)
      | Inr a \<Rightarrow>
          let sub = new_subscription env token_urlsafe r a;
              (x, db') = get_session webhook_db_ok
                (\<lambda>db. (Inr \<lparr>sr_id = ws_id sub, sr_tenant_id = ws_tenant_id sub, sr_url = ws_url sub,
                           sr_event_types = sc_event_types r, sr_secret = ws_secret sub,
                           sr_is_active = (ws_is_active sub \<noteq> 0), sr_created_at = ws_created_at sub\<rparr>,
                       db\<lparr>subscriptions := subscriptions db @ [sub]\<rparr>)) (wh_db s)
          in (x, s\<lparr>wh_db := db'\<rparr>))"

text \<open>Eight bullets in UTF-8.\<close>

definition masked :: string where
  "masked = concat (replicate 8 [CHR 0xE2, CHR 0x80, CHR 0xA2])"

definition subscription_view :: "webhook_subscription \<Rightarrow> subscription_response outcome" where
  "subscription_view sub =
     (case json_loads (ws_event_types sub) of
        Inl e \<Rightarrow> Inl e
      | Inr types \<Rightarrow>
          Inr \<lparr>sr_id = ws_id sub, sr_tenant_id = ws_tenant_id sub, sr_url = ws_url sub, sr_event_types = types,
               sr_secret = masked, sr_is_active = (ws_is_active sub \<noteq> 0), sr_created_at = ws_created_at sub\<rparr>)"

definition list_subscriptions :: "auth_context outcome \<Rightarrow> webhook_service \<Rightarrow> subscription_response list outcome" where
  "list_subscriptions auth s =
     (case auth of
        Inl e \<Rightarrow> Inl e
      | Inr a \<Rightarrow>
          all_outcomes subscription_view
            (sort_key (\<lambda>x. - ws_created_at x) (filter (\<lambda>x. ws_tenant_id x = caller_tenant a) (subscriptions (wh_db s)))))"

section \<open>The delivery log\<close>

definition delivery_view :: "webhook_delivery \<Rightarrow> delivery_response outcome" where
  "delivery_view d =
     (case json_loads (wd_payload d) of
        Inl e \<Rightarrow> Inl e
      | Inr p \<Rightarrow>
          (case webhook_status_of (wd_status d) of
             Inl e \<Rightarrow> Inl e
           | Inr st \<Rightarrow>
               Inr \<lparr>dp_id = wd_id d, dp_tenant_id = wd_tenant_id d, dp_subscription_id = wd_subscription_id d,
                    dp_event_id = wd_event_id d, dp_event_type = wd_event_type d, dp_url = wd_url d, dp_payload = p,
                    dp_status_code = wd_status_code d, dp_attempt_count = wd_attempt_count d,
                    dp_response_time_ms = wd_response_time_ms d, dp_next_retry_at = wd_next_retry_at d, dp_status = st,
                    dp_error_message = wd_error_message d, dp_created_at = wd_created_at d\<rparr>))"

definition list_deliveries :: "nat \<Rightarrow> auth_context outcome \<Rightarrow> webhook_service \<Rightarrow> delivery_response list outcome" where
  "list_deliveries limit auth s =
     (case auth of
        Inl e \<Rightarrow> Inl e
      | Inr a \<Rightarrow>
          all_outcomes delivery_view
            (take limit (sort_key (\<lambda>x. - wd_created_at x) (filter (\<lambda>x. wd_tenant_id x = caller_tenant a) (deliveries (wh_db s))))))"

section \<open>Manual redelivery\<close>

definition after_retry :: "delivery_env \<Rightarrow> delivery_result \<Rightarrow> webhook_delivery \<Rightarrow> webhook_delivery" where
  "after_retry env res d =
     d\<lparr>wd_attempt_count := wd_attempt_count d + 1, wd_status_code := res_status_code res,
       wd_response_time_ms := res_response_time_ms res, wd_error_message := res_error res,
       wd_status := webhook_status_value (if res_success res then SUCCESS else FAILED), wd_updated_at := de_now env\<rparr>"

record retry_answer =
  ra_success :: bool
  ra_status_code :: nat

definition retry_delivery ::
  "(string \<Rightarrow> json_dict json_text \<Rightarrow> string) \<Rightarrow> auth_context outcome \<Rightarrow> delivery_env \<Rightarrow> string \<Rightarrow> webhook_service \<Rightarrow>
   retry_answer outcome \<times> webhook_service" where
  "retry_delivery hmac_hex auth env delivery_id s =
     (case require_role [ADMIN] auth of
        Inl e \<Rightarrow> (Inl e, s)
      | Inr _ \<Rightarrow>
          (case find (\<lambda>d. wd_id d = delivery_id) (deliveries (wh_db s)) of
             None \<Rightarrow> (Inl (HTTPException 404 ''Delivery not found''), s)
           | Some d \<Rightarrow>
               (case find (\<lambda>x. ws_id x = wd_subscription_id d) (subscriptions (wh_db s)) of
                  None \<Rightarrow> (Inl (HTTPException 404 ''Subscription not found''), s)
                | Some sub \<Rightarrow>
                    let call = webhook_call_of hmac_hex env (wd_url d) (wd_payload d) (ws_secret sub);
                        res = deliver_webhook hmac_hex env (wd_url d) (wd_payload d) (ws_secret sub);
                        (x, db') = get_session webhook_db_ok
                          (\<lambda>db. (Inr \<lparr>ra_success = res_success res, ra_status_code = res_status_code res\<rparr>,
                                 db\<lparr>deliveries := update_first (\<lambda>y. wd_id y = delivery_id) (after_retry env res) (deliveries db)\<rparr>))
                          (wh_db s)
                    in (x, s\<lparr>wh_db := db', wh_sent := wh_sent s @ [call]\<rparr>))))"

section \<open>Dispatch\<close>

definition new_delivery :: "delivery_env \<Rightarrow> dispatch_request \<Rightarrow> webhook_subscription \<Rightarrow> delivery_result \<Rightarrow> webhook_delivery" where
  "new_delivery env req sub res =
     (let next_retry = (if \<not> res_success res then Some (de_now env + 2 ^ 0) else None);
          status_val = (if \<not> res_success res then RETRYING else SUCCESS)
      in \<lparr>wd_id = de_uuid env, wd_tenant_id = JStr (dq_tenant_id req), wd_subscription_id = ws_id sub,
          wd_event_id = dq_event_id req, wd_event_type = dq_event_type req, wd_url = ws_url sub,
          wd_payload = json_dumps (dq_payload req), wd_status_code = res_status_code res,
          wd_response_time_ms = res_response_time_ms res, wd_attempt_count = 1, wd_max_attempts = 5,
          wd_next_retry_at = next_retry, wd_status = webhook_status_value status_val, wd_error_message = res_error res,
          wd_created_at = de_now env, wd_updated_at = de_now env\<rparr>)"

text \<open>
  The loop over the subscriptions: how many were served, or the exception of an event list that does not
  decode, the requests sent and the rows added until then. \<open>envs\<close> gives each iteration its own draws.
\<close>

fun dispatch_loop ::
  "(string \<Rightarrow> json_dict json_text \<Rightarrow> string) \<Rightarrow> (nat \<Rightarrow> delivery_env) \<Rightarrow> dispatch_request \<Rightarrow> webhook_subscription list \<Rightarrow>
   nat outcome \<times> webhook_call list \<times> webhook_delivery list" where
  "dispatch_loop hmac_hex envs req [] = (Inr 0, [], [])"
| "dispatch_loop hmac_hex envs req (sub # rest) =
     (case json_loads (ws_event_types sub) of
        Inl e \<Rightarrow> (Inl e, [], [])
      | Inr types \<Rightarrow>
          if dq_event_type req \<notin> set types then dispatch_loop hmac_hex envs req rest
          else
            let env = envs (length rest);
                bytes = json_dumps (dq_payload req);
                call = webhook_call_of hmac_hex env (ws_url sub) bytes (ws_secret sub);
                res = deliver_webhook hmac_hex env (ws_url sub) bytes (ws_secret sub);
                (n, calls, rows) = dispatch_loop hmac_hex envs req rest
            in (map_sum id Suc n, call # calls, new_delivery env req sub res # rows))"

definition dispatch_event ::
  "(string \<Rightarrow> json_dict json_text \<Rightarrow> string) \<Rightarrow> (nat \<Rightarrow> delivery_env) \<Rightarrow> dispatch_request \<Rightarrow> webhook_service \<Rightarrow>
   nat outcome \<times> webhook_service" where
  "dispatch_event hmac_hex envs req s =
     (let subs = filter (\<lambda>x. ws_tenant_id x = JStr (dq_tenant_id req) \<and> ws_is_active x = 1) (subscriptions (wh_db s));
          (n, calls, rows) = dispatch_loop hmac_hex envs req subs;
          (x, db') = get_session webhook_db_ok (\<lambda>db. (n, db\<lparr>deliveries := deliveries db @ rows\<rparr>)) (wh_db s)
      in (x, s\<lparr>wh_db := db', wh_sent := wh_sent s @ calls\<rparr>))"

section \<open>Lemmas\<close>

text \<open>The subscriptions an event goes to.\<close>

definition subscribed :: "dispatch_request \<Rightarrow> webhook_subscription \<Rightarrow> bool" where
  "subscribed req x \<longleftrightarrow> ws_tenant_id x = JStr (dq_tenant_id req) \<and> ws_is_active x = 1 \<and>
     (\<exists>types. json_loads (ws_event_types x) = Inr types \<and> dq_event_type req \<in> set types)"

text \<open>
  One subscription served by one request and one row of the log: the request carries the payload under a
  signature that the subscription's secret verifies, the row records it with the outcome.
\<close>

definition served ::
  "(string \<Rightarrow> json_dict json_text \<Rightarrow> string) \<Rightarrow> dispatch_request \<Rightarrow> webhook_subscription \<Rightarrow> webhook_call \<Rightarrow> webhook_delivery \<Rightarrow> bool" where
  "served hmac_hex req x c d \<longleftrightarrow>
     wc_url c = ws_url x \<and> wc_content c = json_dumps (dq_payload req) \<and>
     verify_hmac_signature hmac_hex (ws_secret x) (wc_content c) (Some (wc_signature c)) \<and>
     wd_subscription_id d = ws_id x \<and> wd_tenant_id d = JStr (dq_tenant_id req) \<and> wd_event_id d = dq_event_id req \<and>
     wd_url d = wc_url c \<and> wd_payload d = wc_content c \<and> wd_attempt_count d = 1 \<and>
     (200 \<le> wd_status_code d \<and> wd_status_code d < 300 \<and> wd_status d = webhook_status_value SUCCESS \<and> wd_next_retry_at d = None \<or>
      \<not> (200 \<le> wd_status_code d \<and> wd_status_code d < 300) \<and> wd_status d = webhook_status_value RETRYING \<and>
      wd_next_retry_at d = Some (wd_created_at d + 1))"

lemma own_signature [simp]: "verify_hmac_signature hmac_hex secret b (Some (compute_hmac_signature hmac_hex secret b))"
  by (simp add: verify_hmac_signature_def compute_hmac_signature_def)

lemma deliver_success: "res_success (deliver_webhook h env u b k) \<longleftrightarrow>
    200 \<le> res_status_code (deliver_webhook h env u b k) \<and> res_status_code (deliver_webhook h env u b k) < 300"
  by (simp add: deliver_webhook_def split: http_try.split)

lemma served_new_delivery:
  "served h req x (webhook_call_of h env (ws_url x) (json_dumps (dq_payload req)) (ws_secret x))
     (new_delivery env req x (deliver_webhook h env (ws_url x) (json_dumps (dq_payload req)) (ws_secret x)))"
  using deliver_success [of h env "ws_url x" "json_dumps (dq_payload req)" "ws_secret x"]
  by (simp add: served_def webhook_call_of_def new_delivery_def Let_def)

lemma dispatch_loop_serves:
  assumes "dispatch_loop h envs req xs = (Inr n, calls, rows)"
    and "\<forall>x \<in> set xs. ws_tenant_id x = JStr (dq_tenant_id req) \<and> ws_is_active x = 1"
  shows "n = length calls \<and> length rows = length calls \<and>
    list_all2 (\<lambda>x (c, d). served h req x c d) (filter (subscribed req) xs) (zip calls rows)"
  using assms
proof (induction xs arbitrary: n calls rows)
  case (Cons x xs)
  obtain types where types: "json_loads (ws_event_types x) = Inr types"
    using Cons.prems(1) by (auto split: sum.splits)
  obtain r cs ds where rest: "dispatch_loop h envs req xs = (r, cs, ds)" by (metis prod_cases3)
  show ?case
  proof (cases "dq_event_type req \<in> set types")
    case False
    then have "\<not> subscribed req x" by (simp add: subscribed_def types)
    with False types Cons show ?thesis by simp
  next
    case True
    then have sub: "subscribed req x" using Cons.prems(2) types by (simp add: subscribed_def)
    obtain m where m: "r = Inr m" "n = Suc m" using Cons.prems(1) True types rest by (cases r) (auto simp: Let_def)
    have "calls = webhook_call_of h (envs (length xs)) (ws_url x) (json_dumps (dq_payload req)) (ws_secret x) # cs"
      "rows = new_delivery (envs (length xs)) req x
        (deliver_webhook h (envs (length xs)) (ws_url x) (json_dumps (dq_payload req)) (ws_secret x)) # ds"
      using Cons.prems(1) True types rest by (simp_all add: Let_def)
    moreover have "m = length cs \<and> length ds = length cs \<and>
        list_all2 (\<lambda>x (c, d). served h req x c d) (filter (subscribed req) xs) (zip cs ds)"
      using Cons.prems(2) rest m by (intro Cons.IH) simp_all
    ultimately show ?thesis using sub m by (simp add: served_new_delivery)
  qed
qed simp

lemma dispatch_loop_counts:
  assumes "dispatch_loop h envs req xs = (r, calls, rows)"
  shows "sum_list (map wd_attempt_count rows) = length calls \<and>
    (\<forall>d \<in> set rows. (\<exists>p. json_loads (wd_payload d) = Inr p) \<and> (\<exists>st. wd_status d = webhook_status_value st))"
  using assms
proof (induction xs arbitrary: r calls rows)
  case (Cons x xs)
  obtain r' cs ds where rest: "dispatch_loop h envs req xs = (r', cs, ds)" by (metis prod_cases3)
  have row: "wd_attempt_count (new_delivery env req x res) = 1" "wd_payload (new_delivery env req x res) = json_dumps (dq_payload req)"
    "\<exists>st. wd_status (new_delivery env req x res) = webhook_status_value st" for env res
    by (auto simp: new_delivery_def Let_def simp del: webhook_status_value.simps)
  from Cons.IH [OF rest] Cons.prems rest row show ?case
    by (auto simp: Let_def simp del: webhook_status_value.simps split: sum.splits if_splits)
qed simp

lemma dispatch_loop_decodes:
  assumes "\<forall>x \<in> set xs. \<exists>types. json_loads (ws_event_types x) = Inr types"
  shows "\<exists>n. fst (dispatch_loop h envs req xs) = Inr n"
  using assms
proof (induction xs)
  case (Cons x xs)
  then obtain types n where "json_loads (ws_event_types x) = Inr types" "fst (dispatch_loop h envs req xs) = Inr n" by auto
  then show ?case by (auto simp: Let_def split: prod.split)
qed simp

lemma sum_list_update_first:
  fixes f :: "'a \<Rightarrow> nat"
  assumes "find p xs = Some x" and "f (g x) = f x + 1"
  shows "sum_list (map f (update_first p g xs)) = sum_list (map f xs) + 1"
  using assms by (induction xs) (auto split: if_splits)

section \<open>The service\<close>

datatype webhook_op =
    Subscribe "auth_context outcome" call_env string subscription_create
  | Dispatch "nat \<Rightarrow> delivery_env" dispatch_request
  | Retry "auth_context outcome" delivery_env string

fun webhook_step ::
  "(string \<Rightarrow> json_dict json_text \<Rightarrow> string) \<Rightarrow> webhook_service \<Rightarrow> webhook_op \<Rightarrow> unit outcome \<times> webhook_service" where
  "webhook_step h s (Subscribe a env tok r) = map_prod (map_sum id (\<lambda>_. ())) id (create_subscription a env tok r s)"
| "webhook_step h s (Dispatch envs req) = map_prod (map_sum id (\<lambda>_. ())) id (dispatch_event h envs req s)"
| "webhook_step h s (Retry a env i) = map_prod (map_sum id (\<lambda>_. ())) id (retry_delivery h a env i s)"

definition attempts :: "webhook_service \<Rightarrow> nat" where
  "attempts s = sum_list (map wd_attempt_count (deliveries (wh_db s)))"

definition readable :: "webhook_service \<Rightarrow> bool" where
  "readable s \<longleftrightarrow> (\<forall>x \<in> set (subscriptions (wh_db s)). \<exists>types. json_loads (ws_event_types x) = Inr types) \<and>
     (\<forall>d \<in> set (deliveries (wh_db s)). (\<exists>p. json_loads (wd_payload d) = Inr p) \<and> (\<exists>st. wd_status d = webhook_status_value st))"

text \<open>What one request does to the log and to the wire: a logged attempt for each request sent, or nothing logged.\<close>

definition accounted :: "webhook_service \<Rightarrow> 'a outcome \<times> webhook_service \<Rightarrow> bool" where
  "accounted s t \<longleftrightarrow> readable (snd t) \<and> attempts s \<le> attempts (snd t) \<and>
     attempts (snd t) + length (wh_sent s) \<le> attempts s + length (wh_sent (snd t)) \<and>
     (fst t \<noteq> Inl IntegrityError \<longrightarrow> attempts (snd t) + length (wh_sent s) = attempts s + length (wh_sent (snd t)))"

lemma create_subscription_accounted:
  assumes "readable s"
  shows "accounted s (create_subscription a env tok r s)"
  using assms
  by (auto simp: accounted_def create_subscription_def Let_def get_session_def readable_def attempts_def new_subscription_def
      split: sum.split)

lemma dispatch_event_accounted:
  assumes "readable s"
  shows "accounted s (dispatch_event h envs req s)"
proof -
  let ?subs = "filter (\<lambda>x. ws_tenant_id x = JStr (dq_tenant_id req) \<and> ws_is_active x = 1) (subscriptions (wh_db s))"
  have "\<forall>x \<in> set ?subs. \<exists>types. json_loads (ws_event_types x) = Inr types" using assms by (auto simp: readable_def)
  then obtain n where "fst (dispatch_loop h envs req ?subs) = Inr n" using dispatch_loop_decodes by blast
  then obtain calls rows where loop: "dispatch_loop h envs req ?subs = (Inr n, calls, rows)"
    by (cases "dispatch_loop h envs req ?subs") auto
  from dispatch_loop_counts [OF loop] assms show ?thesis
    by (auto simp: accounted_def dispatch_event_def loop get_session_def readable_def attempts_def)
qed

lemma retry_attempts:
  assumes "find p xs = Some d"
  shows "sum_list (map wd_attempt_count (update_first p (after_retry env res) xs)) = sum_list (map wd_attempt_count xs) + 1"
  by (rule sum_list_update_first [OF assms]) (simp add: after_retry_def)

lemma retry_delivery_accounted:
  assumes "readable s"
  shows "accounted s (retry_delivery h a env i s)"
proof -
  have status: "\<exists>st. wd_status (after_retry env res d) = webhook_status_value st"
    "wd_payload (after_retry env res d) = wd_payload d" for res d
    by (auto simp: after_retry_def simp del: webhook_status_value.simps)
  have rows: "(\<exists>p. json_loads (wd_payload d) = Inr p) \<and> (\<exists>st. wd_status d = webhook_status_value st)"
    if "d \<in> set (update_first p (after_retry env res) (deliveries (wh_db s)))" for p res d
    using update_first_set [OF that] assms status by (auto simp: readable_def)
  show ?thesis
    using assms status rows
    by (auto simp: accounted_def retry_delivery_def Let_def get_session_def readable_def attempts_def
        retry_attempts split: sum.split option.split)
qed

lemma webhook_step_accounted:
  assumes "readable s"
  shows "accounted s (webhook_step h s op)"
proof -
  have lift: "accounted s t \<Longrightarrow> accounted s (map_prod (map_sum id (\<lambda>_. ())) id t)" for t :: "'x outcome \<times> webhook_service"
    by (cases t, cases "fst t") (auto simp: accounted_def)
  show ?thesis
    by (cases op) (auto simp: assms intro!: lift create_subscription_accounted dispatch_event_accounted retry_delivery_accounted)
qed

definition no_webhooks :: webhook_service where
  "no_webhooks = \<lparr>wh_db = \<lparr>subscriptions = [], deliveries = []\<rparr>, wh_sent = []\<rparr>"

lemma webhook_run:
  "readable (run (webhook_step h) no_webhooks ops) \<and>
   attempts (run (webhook_step h) no_webhooks ops) \<le> length (wh_sent (run (webhook_step h) no_webhooks ops)) \<and>
   (Inl IntegrityError \<notin> set (outcomes (webhook_step h) no_webhooks ops) \<longrightarrow>
      attempts (run (webhook_step h) no_webhooks ops) = length (wh_sent (run (webhook_step h) no_webhooks ops)))"
proof (induction ops rule: rev_induct)
  case Nil
  show ?case by (simp add: no_webhooks_def readable_def attempts_def)
next
  case (snoc op ops)
  then have "accounted (run (webhook_step h) no_webhooks ops) (webhook_step h (run (webhook_step h) no_webhooks ops) op)"
    by (intro webhook_step_accounted) blast
  with snoc show ?case by (auto simp: accounted_def outcomes_append)
qed

lemma delivery_view_Inr:
  assumes "readable s" and "d \<in> set (deliveries (wh_db s))"
  shows "\<exists>v. delivery_view d = Inr v"
proof -
  obtain p st where "json_loads (wd_payload d) = Inr p" "wd_status d = webhook_status_value st"
    using assms by (auto simp: readable_def)
  then show ?thesis by (simp add: delivery_view_def)
qed

lemma delivery_view_tenant: "delivery_view d = Inr v \<Longrightarrow> dp_tenant_id v = wd_tenant_id d \<and> dp_id v = wd_id d"
  by (auto simp: delivery_view_def split: sum.splits)

section \<open>Properties\<close>



text \<open>
  The delivery log accounts for the wire. Whatever subscriptions, dispatches and redeliveries the
  service has handled, the attempts recorded in the log never exceed the requests sent, and they are
  exactly as many unless a commit failed after its requests had left; and every row can be shown, to its
  own tenant only.
\<close>

theorem delivery_log_accounts:
  "let s = run (webhook_step h) no_webhooks ops
   in attempts s \<le> length (wh_sent s) \<and>
      (Inl IntegrityError \<notin> set (outcomes (webhook_step h) no_webhooks ops) \<longrightarrow> attempts s = length (wh_sent s)) \<and>
      (\<exists>vs. list_deliveries limit (Inr a) s = Inr vs \<and> (\<forall>v \<in> set vs. dp_tenant_id v = caller_tenant a) \<and>
         length vs = min limit (length (filter (\<lambda>d. wd_tenant_id d = caller_tenant a) (deliveries (wh_db s)))))"
proof -
  let ?s = "run (webhook_step h) no_webhooks ops"
  let ?ds = "take limit (sort_key (\<lambda>x. - wd_created_at x) (filter (\<lambda>x. wd_tenant_id x = caller_tenant a) (deliveries (wh_db ?s))))"
  have own: "\<forall>d \<in> set ?ds. d \<in> set (deliveries (wh_db ?s)) \<and> wd_tenant_id d = caller_tenant a"
    by (auto dest: in_set_takeD)
  then have "\<forall>d \<in> set ?ds. \<exists>v. delivery_view d = Inr v" using delivery_view_Inr [of ?s] webhook_run [of h ops] by blast
  then obtain vs where vs: "all_outcomes delivery_view ?ds = Inr vs" "length vs = length ?ds"
    "\<forall>v \<in> set vs. \<exists>d \<in> set ?ds. delivery_view d = Inr v"
    using all_outcomes_Inr by blast
  have "\<forall>v \<in> set vs. dp_tenant_id v = caller_tenant a"
  proof
    fix v assume "v \<in> set vs"
    with vs(3) obtain d where d: "d \<in> set ?ds" "delivery_view d = Inr v" by blast
    with own have "wd_tenant_id d = caller_tenant a" by blast
    with delivery_view_tenant [OF d(2)] show "dp_tenant_id v = caller_tenant a" by simp
  qed
  then show ?thesis using webhook_run [of h ops] vs(1,2) by (simp add: Let_def list_deliveries_def min.commute)
qed

theorem delivery_log_accounts_witness:
  "let a = Inr \<lparr>user_id = JStr ''m1'', auth_role = MERCHANT, tenant_id = JNull\<rparr>;
       env = \<lparr>env_uuid = ''S1'', env_random = 0, env_now = 0\<rparr>;
       r = \<lparr>sc_url = ''https://m'', sc_event_types = [''order.created''], sc_description = None\<rparr>;
       denv = (\<lambda>_. \<lparr>de_uuid = ''D1'', de_clock = 5, de_now = 5, de_post = (\<lambda>_. TimedOut)\<rparr>);
       req = \<lparr>dq_event_id = ''E1'', dq_event_type = ''order.created'', dq_tenant_id = ''m1'', dq_payload = []\<rparr>;
       s = run (webhook_step (\<lambda>k b. k)) no_webhooks [Subscribe a env ''k'' r, Dispatch denv req]
   in attempts s = length (wh_sent s)"
proof -
  let ?ops = "[Subscribe (Inr \<lparr>user_id = JStr ''m1'', auth_role = MERCHANT, tenant_id = JNull\<rparr>)
      \<lparr>env_uuid = ''S1'', env_random = 0, env_now = 0\<rparr> ''k''
      \<lparr>sc_url = ''https://m'', sc_event_types = [''order.created''], sc_description = None\<rparr>,
    Dispatch (\<lambda>_. \<lparr>de_uuid = ''D1'', de_clock = 5, de_now = 5, de_post = (\<lambda>_. TimedOut)\<rparr>)
      \<lparr>dq_event_id = ''E1'', dq_event_type = ''order.created'', dq_tenant_id = ''m1'', dq_payload = []\<rparr>]"
  have "Inl IntegrityError \<notin> set (outcomes (webhook_step (\<lambda>k b. k)) no_webhooks ?ops)"
    by (simp add: create_subscription_def new_subscription_def caller_tenant_def get_session_def webhook_db_ok_def no_webhooks_def
        dispatch_event_def new_delivery_def Let_def)
  then show ?thesis using delivery_log_accounts [of "\<lambda>k b. k" ?ops] unfolding Let_def by blast
qed

end
