(* ===== verification/Features.thy ===== *)
theory Features
  imports Prelude "HOL-Library.AList"
begin

text \<open>
  The feature contract of the ETA model, \<^verbatim>\<open>contracts/features.py\<close>, and the feature engineering shared by
  training and serving, \<^verbatim>\<open>scripts/data_clean_utils.py\<close>. A data frame is a list of rows, a row an
  association list from column names to cells; the columns of a frame are distinct after renaming. The
  operations of the code are row by row, so most definitions are on one row. pandas' parsers and \<^verbatim>\<open>cut\<close> are
  parameters; numbers are real.
\<close>

section \<open>The contract\<close>

abbreviation FEATURE_SCHEMA_VERSION :: string where
  "FEATURE_SCHEMA_VERSION \<equiv> ''1.0.0''"

definition NUMERICAL_FEATURES :: "string list" where
  "NUMERICAL_FEATURES = [''age'', ''ratings'', ''distance'']"

definition NOMINAL_FEATURES :: "string list" where
  "NOMINAL_FEATURES = [''weather'', ''type_of_order'', ''type_of_vehicle'', ''festival'', ''city_type'', ''is_weekend'', ''order_time_of_day'']"

definition ORDINAL_FEATURES :: "string list" where
  "ORDINAL_FEATURES = [''traffic'', ''distance_type'']"

definition TARGET_COLUMN :: string where
  "TARGET_COLUMN = ''time_taken''"

datatype weather_condition = SUNNY | STORMY | SANDSTORMS | WINDY | FOG | CLOUDY
datatype traffic_density = LOW | MEDIUM | HIGH | JAM
datatype order_type = SNACK | MEAL | DRINKS | BUFFET
datatype vehicle_type = MOTORCYCLE | SCOOTER | ELECTRIC_SCOOTER | BICYCLE
datatype festival_type = YES | NO
datatype city_type = URBAN | METROPOLITAN | SEMI_URBAN

fun weather_value :: "weather_condition \<Rightarrow> string" where
  "weather_value SUNNY = ''sunny''"
| "weather_value STORMY = ''stormy''"
| "weather_value SANDSTORMS = ''sandstorms''"
| "weather_value WINDY = ''windy''"
| "weather_value FOG = ''fog''"
| "weather_value CLOUDY = ''cloudy''"

fun traffic_value :: "traffic_density \<Rightarrow> string" where
  "traffic_value LOW = ''low''"
| "traffic_value MEDIUM = ''medium''"
| "traffic_value HIGH = ''high''"
| "traffic_value JAM = ''jam''"

fun order_type_value :: "order_type \<Rightarrow> string" where
  "order_type_value SNACK = ''snack''"
| "order_type_value MEAL = ''meal''"
| "order_type_value DRINKS = ''drinks''"
| "order_type_value BUFFET = ''buffet''"

fun vehicle_value :: "vehicle_type \<Rightarrow> string" where
  "vehicle_value MOTORCYCLE = ''motorcycle''"
| "vehicle_value SCOOTER = ''scooter''"
| "vehicle_value ELECTRIC_SCOOTER = ''electric_scooter''"
| "vehicle_value BICYCLE = ''bicycle''"

fun festival_value :: "festival_type \<Rightarrow> string" where
  "festival_value YES = ''yes''"
| "festival_value NO = ''no''"

fun city_value :: "city_type \<Rightarrow> string" where
  "city_value URBAN = ''urban''"
| "city_value METROPOLITAN = ''metropolitan''"
| "city_value SEMI_URBAN = ''semi-urban''"

record order_prediction_request =
  rq_id :: "string option"
  rq_rider_id :: "string option"
  rq_age :: real
  rq_ratings :: real
  rq_restaurant_latitude :: real
  rq_restaurant_longitude :: real
  rq_delivery_latitude :: real
  rq_delivery_longitude :: real
  rq_order_date :: string
  rq_order_time :: string
  rq_weather :: weather_condition
  rq_traffic :: traffic_density
  rq_vehicle_condition :: int
  rq_type_of_order :: order_type
  rq_type_of_vehicle :: vehicle_type
  rq_festival :: festival_type
  rq_city_type :: city_type

definition valid_prediction_request :: "order_prediction_request \<Rightarrow> bool" where
  "valid_prediction_request r \<longleftrightarrow>
     18 \<le> rq_age r \<and> rq_age r \<le> 75 \<and> 1 \<le> rq_ratings r \<and> rq_ratings r \<le> 5 \<and>
     -90 \<le> rq_restaurant_latitude r \<and> rq_restaurant_latitude r \<le> 90 \<and>
     -180 \<le> rq_restaurant_longitude r \<and> rq_restaurant_longitude r \<le> 180 \<and>
     -90 \<le> rq_delivery_latitude r \<and> rq_delivery_latitude r \<le> 90 \<and>
     -180 \<le> rq_delivery_longitude r \<and> rq_delivery_longitude r \<le> 180 \<and>
     0 \<le> rq_vehicle_condition r \<and> rq_vehicle_condition r \<le> 3"

section \<open>Rows\<close>

datatype cell = Num real | Str string | Missing

type_synonym row = "(string \<times> cell) list"

text \<open>\<^verbatim>\<open>request.model_dump()\<close> as the row of a frame; an enum member is a string.\<close>

definition request_row :: "order_prediction_request \<Rightarrow> row" where
  "request_row r =
     [(''id'', case rq_id r of Some s \<Rightarrow> Str s | None \<Rightarrow> Missing),
      (''rider_id'', case rq_rider_id r of Some s \<Rightarrow> Str s | None \<Rightarrow> Missing),
      (''age'', Num (rq_age r)), (''ratings'', Num (rq_ratings r)),
      (''restaurant_latitude'', Num (rq_restaurant_latitude r)), (''restaurant_longitude'', Num (rq_restaurant_longitude r)),
      (''delivery_latitude'', Num (rq_delivery_latitude r)), (''delivery_longitude'', Num (rq_delivery_longitude r)),
      (''order_date'', Str (rq_order_date r)), (''order_time'', Str (rq_order_time r)),
      (''weather'', Str (weather_value (rq_weather r))), (''traffic'', Str (traffic_value (rq_traffic r))),
      (''vehicle_condition'', Num (of_int (rq_vehicle_condition r))),
      (''type_of_order'', Str (order_type_value (rq_type_of_order r))),
      (''type_of_vehicle'', Str (vehicle_value (rq_type_of_vehicle r))),
      (''festival'', Str (festival_value (rq_festival r))), (''city_type'', Str (city_value (rq_city_type r)))]"

text \<open>
  pandas: \<^verbatim>\<open>cut\<close> on one value, the day name and the hour of a parsed date or time (\<^verbatim>\<open>errors="coerce"\<close>: none when
  it does not parse), \<^verbatim>\<open>to_numeric\<close> with coercion, and the text \<^verbatim>\<open>astype(str)\<close> gives a number.
\<close>

record pandas =
  pd_cut :: "bool \<Rightarrow> real list \<Rightarrow> string list \<Rightarrow> real \<Rightarrow> string option"
  pd_day_name :: "cell \<Rightarrow> string option"
  pd_hour :: "cell \<Rightarrow> nat option"
  pd_to_numeric :: "cell \<Rightarrow> cell"
  pd_str :: "real \<Rightarrow> string"

section \<open>Feature engineering\<close>

definition COLUMNS_TO_DROP :: "string list" where
  "COLUMNS_TO_DROP = [''id'', ''rider_id'', ''restaurant_latitude'', ''restaurant_longitude'', ''delivery_latitude'',
     ''delivery_longitude'', ''order_date'', ''order_time'', ''order_time_hour'', ''order_day'', ''city_name'',
     ''order_day_of_week'', ''order_month'', ''pickup_time_minutes'', ''multiple_deliveries'']"

definition char_lower :: "char \<Rightarrow> char" where
  "char_lower c = (if 65 \<le> (of_char c :: nat) \<and> of_char c \<le> (90 :: nat) then char_of (of_char c + 32 :: nat) else c)"

definition str_lower :: "string \<Rightarrow> string" where
  "str_lower = map char_lower"

definition rename_dict :: "(string \<times> string) list" where
  "rename_dict = [(''delivery_person_id'', ''rider_id''), (''delivery_person_age'', ''age''), (''delivery_person_ratings'', ''ratings''),
     (''delivery_location_latitude'', ''delivery_latitude''), (''delivery_location_longitude'', ''delivery_longitude''),
     (''time_orderd'', ''order_time''), (''time_order_picked'', ''order_picked_time''), (''weatherconditions'', ''weather''),
     (''road_traffic_density'', ''traffic''), (''city'', ''city_type''), (''time_taken(min)'', TARGET_COLUMN)]"

definition rename_column :: "string \<Rightarrow> string" where
  "rename_column c = (case map_of rename_dict (str_lower c) of Some n \<Rightarrow> n | None \<Rightarrow> str_lower c)"

definition change_column_names :: "row \<Rightarrow> row" where
  "change_column_names d = map (\<lambda>(c, v). (rename_column c, v)) d"

definition time_of_day :: "pandas \<Rightarrow> nat \<Rightarrow> cell" where
  "time_of_day pd h =
     (case pd_cut pd True [-1, 6, 12, 17, 20, 24] [''after_midnight'', ''morning'', ''afternoon'', ''evening'', ''night''] (of_nat h) of
        Some l \<Rightarrow> Str l
      | None \<Rightarrow> Missing)"

definition radians :: "real \<Rightarrow> real" where
  "radians x = x * pi / 180"

text \<open>
  The distance from the absolute values of the coordinates. The four values are bound the way the code
  binds them: \<^verbatim>\<open>lon1_rad, lat1_rad, lon2_rad, lat2_rad = map(np.radians, [lon1, lon2, lat1, lat2])\<close>.
\<close>

definition haversine :: "real \<Rightarrow> real \<Rightarrow> real \<Rightarrow> real \<Rightarrow> real" where
  "haversine lat1 lon1 lat2 lon2 =
     (let lon1_rad = radians lon1; lat1_rad = radians lon2; lon2_rad = radians lat1; lat2_rad = radians lat2;
          dlon = lon2_rad - lon1_rad;
          dlat = lat2_rad - lat1_rad;
          a = (sin (dlat / 2))\<^sup>2 + cos lat1_rad * cos lat2_rad * (sin (dlon / 2))\<^sup>2;
          c = 2 * arcsin (min 1 (max 0 (sqrt a)))
      in 6371 * c)"

definition column_abs :: "row \<Rightarrow> string \<Rightarrow> real option outcome" where
  "column_abs d c =
     (case map_of d c of
        None \<Rightarrow> Inl (KeyError c)
      | Some (Num x) \<Rightarrow> Inr (Some \<bar>x\<bar>)
      | Some Missing \<Rightarrow> Inr None
      | Some (Str s) \<Rightarrow> Inl (TypeError ''bad operand type for abs()''))"

definition calculate_haversine_distance :: "row \<Rightarrow> row outcome" where
  "calculate_haversine_distance d =
     (case all_outcomes (column_abs d) [''restaurant_latitude'', ''restaurant_longitude'', ''delivery_latitude'', ''delivery_longitude''] of
        Inl e \<Rightarrow> Inl e
      | Inr vs \<Rightarrow>
          Inr (AList.update ''distance''
                 (case vs of
                    [Some lat1, Some lon1, Some lat2, Some lon2] \<Rightarrow> Num (haversine lat1 lon1 lat2 lon2)
                  | _ \<Rightarrow> Missing) d))"

definition distance_bin :: "pandas \<Rightarrow> cell \<Rightarrow> cell" where
  "distance_bin pd v =
     (case v of
        Num x \<Rightarrow>
          (case pd_cut pd False [-1/10, 5, 10, 15, 1000] [''short'', ''medium'', ''long'', ''very_long''] x of
             Some l \<Rightarrow> Str l
           | None \<Rightarrow> Missing)
      | _ \<Rightarrow> Missing)"

definition create_distance_type :: "pandas \<Rightarrow> row \<Rightarrow> row outcome" where
  "create_distance_type pd d =
     (case map_of d ''distance'' of
        None \<Rightarrow> Inl (KeyError ''distance'')
      | Some v \<Rightarrow> Inr (AList.update ''distance_type'' (distance_bin pd v) d))"

text \<open>\<^verbatim>\<open>str.replace(old, "")\<close> for a non-empty \<open>old\<close>.\<close>

function py_remove :: "string \<Rightarrow> string \<Rightarrow> string" where
  "py_remove old [] = []"
| "py_remove old (c # s) =
     (if old \<noteq> [] \<and> take (length old) (c # s) = old then py_remove old (drop (length old) (c # s)) else c # py_remove old s)"
  by pat_completeness auto
termination
  by (relation "measure (\<lambda>(old, s). length s)") auto

definition CATEGORICAL :: "string list" where
  "CATEGORICAL = [''weather'', ''traffic'', ''type_of_order'', ''type_of_vehicle'', ''festival'', ''city_type'']"

definition standardise :: "pandas \<Rightarrow> cell \<Rightarrow> cell" where
  "standardise pd v =
     (let t = (case v of Str s \<Rightarrow> s | Num x \<Rightarrow> pd_str pd x | Missing \<Rightarrow> ''nan'');
          u = str_lower (py_strip (py_remove ''conditions '' t))
      in if u = ''nan'' then Missing else Str u)"

definition standardise_column :: "pandas \<Rightarrow> string \<Rightarrow> row \<Rightarrow> row" where
  "standardise_column pd c d = (case map_of d c of None \<Rightarrow> d | Some v \<Rightarrow> AList.update c (standardise pd v) d)"

definition date_features :: "pandas \<Rightarrow> row \<Rightarrow> row" where
  "date_features pd d =
     AList.update ''is_weekend''
       (case map_of d ''order_date'' of
          None \<Rightarrow> Num 0
        | Some v \<Rightarrow> Num (if pd_day_name pd v \<in> {Some ''Saturday'', Some ''Sunday''} then 1 else 0)) d"

definition time_features :: "pandas \<Rightarrow> row \<Rightarrow> row" where
  "time_features pd d =
     (case map_of d ''order_time'' of
        None \<Rightarrow> AList.update ''order_time_of_day'' (Str ''evening'') d
      | Some v \<Rightarrow>
          let hour = (case pd_hour pd v of Some h \<Rightarrow> h | None \<Rightarrow> 12)
          in AList.update ''order_time_of_day'' (time_of_day pd hour) (AList.update ''order_time_hour'' (Num (of_nat hour)) d))"

definition extract_features :: "pandas \<Rightarrow> row \<Rightarrow> row outcome" where
  "extract_features pd d =
     (let d = time_features pd (date_features pd d);
          d = fold (standardise_column pd) CATEGORICAL d
      in case calculate_haversine_distance d of
           Inl e \<Rightarrow> Inl e
         | Inr d \<Rightarrow> create_distance_type pd d)"

definition feature_columns :: "string list" where
  "feature_columns = NUMERICAL_FEATURES @ NOMINAL_FEATURES @ ORDINAL_FEATURES"

definition select_features :: "row \<Rightarrow> row" where
  "select_features d = List.map_filter (\<lambda>c. map_option (Pair c) (map_of d c)) feature_columns"

definition normalise_for_inference :: "pandas \<Rightarrow> row \<Rightarrow> row outcome" where
  "normalise_for_inference pd d = map_sum id select_features (extract_features pd (change_column_names d))"

section \<open>Training rows\<close>

text \<open>
  The filters of \<^verbatim>\<open>filter_training_rows\<close> on one row; none when the row is dropped. The cast of the target from
  text is done on the cells that hold text.
\<close>

fun cell_between :: "real \<Rightarrow> real option \<Rightarrow> cell \<Rightarrow> bool" where
  "cell_between lo hi (Num x) \<longleftrightarrow> lo \<le> x \<and> (case hi of Some h \<Rightarrow> x \<le> h | None \<Rightarrow> True)"
| "cell_between lo hi _ \<longleftrightarrow> False"

definition numeric_filter :: "pandas \<Rightarrow> string \<Rightarrow> real \<Rightarrow> real option \<Rightarrow> row \<Rightarrow> row option" where
  "numeric_filter pd c lo hi d =
     (case map_of d c of
        None \<Rightarrow> Some d
      | Some v \<Rightarrow>
          if cell_between lo hi (pd_to_numeric pd v) then Some (AList.update c (pd_to_numeric pd v) d) else None)"

definition clean_target :: "pandas \<Rightarrow> row \<Rightarrow> row" where
  "clean_target pd d =
     (case map_of d TARGET_COLUMN of
        None \<Rightarrow> d
      | Some v \<Rightarrow>
          AList.update TARGET_COLUMN
            (pd_to_numeric pd (case v of Str s \<Rightarrow> Str (py_strip (py_remove ''(min) '' s)) | _ \<Rightarrow> v)) d)"

definition dropna :: "row \<Rightarrow> row option" where
  "dropna d = (if list_all (\<lambda>(c, v). v \<noteq> Missing) d then Some d else None)"

definition filter_training_row :: "pandas \<Rightarrow> row \<Rightarrow> row option" where
  "filter_training_row pd d =
     (case numeric_filter pd ''age'' 18 None d of
        None \<Rightarrow> None
      | Some d \<Rightarrow>
          (case numeric_filter pd ''ratings'' 1 (Some 5) d of
             None \<Rightarrow> None
           | Some d \<Rightarrow> dropna (clean_target pd d)))"

definition filter_training_rows :: "pandas \<Rightarrow> row list \<Rightarrow> row list" where
  "filter_training_rows pd ds = List.map_filter (filter_training_row pd) ds"

definition drop_columns :: "string list \<Rightarrow> row \<Rightarrow> row" where
  "drop_columns cs d = filter (\<lambda>(c, v). c \<notin> set cs) d"

definition perform_data_cleaning :: "pandas \<Rightarrow> row list \<Rightarrow> row list outcome" where
  "perform_data_cleaning pd ds =
     (case all_outcomes (extract_features pd) (filter_training_rows pd (map change_column_names ds)) of
        Inl e \<Rightarrow> Inl e
      | Inr fs \<Rightarrow> Inr (List.map_filter (\<lambda>d. dropna (drop_columns COLUMNS_TO_DROP d)) fs))"

section \<open>What pandas promises\<close>

text \<open>
  \<^verbatim>\<open>cut\<close> with labels puts a value into the bin that holds it, closed on the right or on the left, and gives no
  label outside all bins; a parsed hour is below 24; \<^verbatim>\<open>to_numeric\<close> leaves numbers and missing values alone.
\<close>

definition in_bin :: "bool \<Rightarrow> real list \<Rightarrow> real \<Rightarrow> nat \<Rightarrow> bool" where
  "in_bin right bins x i \<longleftrightarrow> (if right then bins ! i < x \<and> x \<le> bins ! Suc i else bins ! i \<le> x \<and> x < bins ! Suc i)"

definition cut_ok :: "(bool \<Rightarrow> real list \<Rightarrow> string list \<Rightarrow> real \<Rightarrow> string option) \<Rightarrow> bool" where
  "cut_ok f \<longleftrightarrow>
     (\<forall>right bins labels x. sorted_wrt (<) bins \<longrightarrow> length bins = Suc (length labels) \<longrightarrow>
        (\<forall>i < length labels. in_bin right bins x i \<longrightarrow> f right bins labels x = Some (labels ! i)) \<and>
        ((\<forall>i < length labels. \<not> in_bin right bins x i) \<longrightarrow> f right bins labels x = None))"

definition pandas_ok :: "pandas \<Rightarrow> bool" where
  "pandas_ok pd \<longleftrightarrow> cut_ok (pd_cut pd) \<and> (\<forall>v h. pd_hour pd v = Some h \<longrightarrow> h < 24) \<and> (\<forall>x. pd_to_numeric pd (Num x) = Num x) \<and>
     pd_to_numeric pd Missing = Missing"

lemma cut_in_bin:
  assumes "cut_ok f" and "sorted_wrt (<) bins" and "length bins = Suc (length labels)" and "i < length labels" and "in_bin right bins x i"
  shows "f right bins labels x = Some (labels ! i)"
  using assms unfolding cut_ok_def by blast

lemma cut_outside:
  assumes "cut_ok f" and "sorted_wrt (<) bins" and "length bins = Suc (length labels)" and "\<forall>i < length labels. \<not> in_bin right bins x i"
  shows "f right bins labels x = None"
  using assms unfolding cut_ok_def by blast

definition plain_cut :: "bool \<Rightarrow> real list \<Rightarrow> string list \<Rightarrow> real \<Rightarrow> string option" where
  "plain_cut right bins labels x = map_option ((!) labels) (find (in_bin right bins x) [0..<length labels])"

lemma in_bin_unique:
  assumes "sorted_wrt (<) bins" and "in_bin right bins x i" and "in_bin right bins x j" and "Suc i < length bins" and "Suc j < length bins"
  shows "i = j"
proof -
  have less: "bins ! a < bins ! b" if "a < b" "b < length bins" for a b
    using assms(1) that by (simp add: sorted_wrt_nth_less)
  have "\<not> a < b" if "in_bin right bins x a" "in_bin right bins x b" "Suc b < length bins" for a b
  proof
    assume "a < b"
    then have "bins ! Suc a \<le> bins ! b" using less [of "Suc a" b] that(3) by (cases "Suc a = b") auto
    with that(1,2) show False by (auto simp: in_bin_def split: if_splits)
  qed
  with assms show ?thesis by (meson linorder_neqE_nat)
qed

lemma plain_cut_ok: "cut_ok plain_cut"
proof -
  have "plain_cut right bins labels x = Some (labels ! i)"
    if *: "sorted_wrt (<) bins" "length bins = Suc (length labels)" "i < length labels" "in_bin right bins x i" for right bins labels x i
  proof -
    have "find (in_bin right bins x) [0..<length labels] \<noteq> None" using * by (auto simp: find_None_iff)
    then obtain j where j: "find (in_bin right bins x) [0..<length labels] = Some j" by blast
    then have "j < length labels \<and> in_bin right bins x j" by (auto dest: find_SomeD)
    with * have "j = i" by (intro in_bin_unique [of bins right x]) auto
    with j show ?thesis by (simp add: plain_cut_def)
  qed
  moreover have "plain_cut right bins labels x = None" if "\<forall>i < length labels. \<not> in_bin right bins x i" for right bins labels x
    using that by (auto simp: plain_cut_def find_None_iff)
  ultimately show ?thesis unfolding cut_ok_def by blast
qed

definition plain_pandas :: pandas where
  "plain_pandas = \<lparr>pd_cut = plain_cut, pd_day_name = (\<lambda>_. None), pd_hour = (\<lambda>_. Some 19),
     pd_to_numeric = (\<lambda>v. case v of Num x \<Rightarrow> Num x | _ \<Rightarrow> Missing), pd_str = (\<lambda>_. ''0.0'')\<rparr>"

lemma plain_pandas_ok: "pandas_ok plain_pandas"
  by (simp add: pandas_ok_def plain_pandas_def plain_cut_ok)

section \<open>Bands and distances\<close>

definition time_band :: "nat \<Rightarrow> string" where
  "time_band h = (if h \<le> 6 then ''after_midnight'' else if h \<le> 12 then ''morning'' else if h \<le> 17 then ''afternoon''
     else if h \<le> 20 then ''evening'' else ''night'')"

definition distance_band :: "real \<Rightarrow> cell" where
  "distance_band x = (if x < 5 then Str ''short'' else if x < 10 then Str ''medium'' else if x < 15 then Str ''long''
     else if x < 1000 then Str ''very_long'' else Missing)"

lemma time_of_day_band:
  assumes "pandas_ok pd" and "h < 24"
  shows "time_of_day pd h = Str (time_band h)"
proof -
  let ?bins = "[-1, 6, 12, 17, 20, 24] :: real list"
  let ?labels = "[''after_midnight'', ''morning'', ''afternoon'', ''evening'', ''night'']"
  let ?i = "if h \<le> 6 then 0 else if h \<le> 12 then 1 else if h \<le> 17 then 2 else if h \<le> 20 then 3 else 4 :: nat"
  have "in_bin True ?bins (of_nat h) ?i" using assms(2) by (auto simp: in_bin_def)
  moreover have "?i < length ?labels" by simp
  ultimately have "pd_cut pd True ?bins ?labels (of_nat h) = Some (?labels ! ?i)"
    using assms(1) by (intro cut_in_bin) (auto simp: pandas_ok_def)
  then show ?thesis by (simp add: time_of_day_def time_band_def)
qed

lemma distance_bin_band:
  assumes "pandas_ok pd" and "0 \<le> x"
  shows "distance_bin pd (Num x) = distance_band x"
proof -
  let ?bins = "[-1/10, 5, 10, 15, 1000] :: real list"
  let ?labels = "[''short'', ''medium'', ''long'', ''very_long'']"
  show ?thesis
  proof (cases "x < 1000")
    case True
    let ?i = "if x < 5 then 0 else if x < 10 then 1 else if x < 15 then 2 else 3 :: nat"
    have "in_bin False ?bins x ?i" using assms(2) True by (auto simp: in_bin_def)
    moreover have "?i < length ?labels" by simp
    ultimately have "pd_cut pd False ?bins ?labels x = Some (?labels ! ?i)"
      using assms(1) by (intro cut_in_bin) (auto simp: pandas_ok_def)
    with True show ?thesis by (simp add: distance_bin_def distance_band_def)
  next
    case False
    have "\<forall>i < length ?labels. \<not> in_bin False ?bins x i" using False by (auto simp: in_bin_def less_Suc_eq)
    then have "pd_cut pd False ?bins ?labels x = None" using assms(1) by (intro cut_outside) (auto simp: pandas_ok_def)
    with False show ?thesis by (simp add: distance_bin_def distance_band_def)
  qed
qed

lemma haversine_bounds: "0 \<le> haversine lat1 lon1 lat2 lon2 \<and> haversine lat1 lon1 lat2 lon2 \<le> 6371 * pi"
proof -
  have "0 \<le> arcsin (min 1 (max 0 y)) \<and> 2 * arcsin (min 1 (max 0 y)) \<le> pi" for y
  proof -
    have y: "0 \<le> min 1 (max 0 y)" "min 1 (max 0 y) \<le> 1" by simp_all
    then have "-1 \<le> min 1 (max 0 y)" by linarith
    with y arcsin_le_arcsin [of 0 "min 1 (max 0 y)"] arcsin_ubound [of "min 1 (max 0 y)"] show ?thesis by simp
  qed
  then show ?thesis by (simp add: haversine_def Let_def)
qed

section \<open>Looking up an engineered feature\<close>

lemma map_of_fold_standardise:
  assumes "distinct cs"
  shows "map_of (fold (standardise_column pd) cs d) c =
    (if c \<in> set cs then map_option (standardise pd) (map_of d c) else map_of d c)"
  using assms
proof (induction cs arbitrary: d)
  case (Cons x cs)
  have "map_of (standardise_column pd x d) c = (if c = x then map_option (standardise pd) (map_of d c) else map_of d c)"
    by (auto simp: standardise_column_def update_conv split: option.split)
  with Cons show ?case by auto
qed simp

definition order_hour :: "pandas \<Rightarrow> cell \<Rightarrow> nat" where
  "order_hour pd v = (case pd_hour pd v of Some h \<Rightarrow> h | None \<Rightarrow> 12)"

definition weekend_flag :: "pandas \<Rightarrow> cell option \<Rightarrow> cell" where
  "weekend_flag pd v = (case v of None \<Rightarrow> Num 0 | Some v \<Rightarrow> Num (if pd_day_name pd v \<in> {Some ''Saturday'', Some ''Sunday''} then 1 else 0))"

definition time_flag :: "pandas \<Rightarrow> cell option \<Rightarrow> cell" where
  "time_flag pd v = (case v of None \<Rightarrow> Str ''evening'' | Some v \<Rightarrow> time_of_day pd (order_hour pd v))"

text \<open>The columns before the distance is computed.\<close>

definition prepared :: "pandas \<Rightarrow> row \<Rightarrow> row" where
  "prepared pd d = fold (standardise_column pd) CATEGORICAL (time_features pd (date_features pd d))"

lemma date_features_lookup:
  "map_of (date_features pd d) = (map_of d)(''is_weekend'' \<mapsto> weekend_flag pd (map_of d ''order_date''))"
  unfolding date_features_def weekend_flag_def by (rule update_conv')

lemma time_features_lookup:
  "map_of (time_features pd d) c =
     (if c = ''order_time_of_day'' then Some (time_flag pd (map_of d ''order_time''))
      else if c = ''order_time_hour'' then
        (case map_of d ''order_time'' of None \<Rightarrow> map_of d c | Some v \<Rightarrow> Some (Num (of_nat (order_hour pd v))))
      else map_of d c)"
  by (simp add: time_features_def time_flag_def order_hour_def Let_def update_conv split: option.split)

lemma prepared_lookup:
  "map_of (prepared pd d) c =
     (if c \<in> set CATEGORICAL then map_option (standardise pd) (map_of d c)
      else if c = ''order_time_of_day'' then Some (time_flag pd (map_of d ''order_time''))
      else if c = ''order_time_hour'' then
        (case map_of d ''order_time'' of None \<Rightarrow> map_of d c | Some v \<Rightarrow> Some (Num (of_nat (order_hour pd v))))
      else if c = ''is_weekend'' then Some (weekend_flag pd (map_of d ''order_date''))
      else map_of d c)"
proof -
  have cols: "distinct CATEGORICAL" "''order_time_of_day'' \<notin> set CATEGORICAL" "''order_time_hour'' \<notin> set CATEGORICAL"
    "''is_weekend'' \<notin> set CATEGORICAL"
    by (simp_all add: CATEGORICAL_def)
  have time: "map_of (date_features pd d) ''order_time'' = map_of d ''order_time''"
    "map_of (date_features pd d) ''order_time_hour'' = map_of d ''order_time_hour''"
    by (simp_all add: date_features_lookup)
  have "map_of (prepared pd d) c =
      (if c \<in> set CATEGORICAL then map_option (standardise pd) (map_of (time_features pd (date_features pd d)) c)
       else map_of (time_features pd (date_features pd d)) c)"
    unfolding prepared_def by (rule map_of_fold_standardise [OF cols(1)])
  also have "... = (if c \<in> set CATEGORICAL then map_option (standardise pd) (map_of d c)
      else if c = ''order_time_of_day'' then Some (time_flag pd (map_of d ''order_time''))
      else if c = ''order_time_hour'' then
        (case map_of d ''order_time'' of None \<Rightarrow> map_of d c | Some v \<Rightarrow> Some (Num (of_nat (order_hour pd v))))
      else if c = ''is_weekend'' then Some (weekend_flag pd (map_of d ''order_date''))
      else map_of d c)"
    using cols unfolding time_features_lookup time by (cases "c \<in> set CATEGORICAL") (auto simp: date_features_lookup time split: option.split)
  finally show ?thesis .
qed

text \<open>The distance of a row whose coordinates are numbers.\<close>

definition coordinates :: "row \<Rightarrow> (real \<times> real \<times> real \<times> real) option" where
  "coordinates d =
     (case (map_of d ''restaurant_latitude'', map_of d ''restaurant_longitude'', map_of d ''delivery_latitude'', map_of d ''delivery_longitude'') of
        (Some (Num a), Some (Num b), Some (Num c), Some (Num e)) \<Rightarrow> Some (a, b, c, e)
      | _ \<Rightarrow> None)"

definition distance_of :: "real \<times> real \<times> real \<times> real \<Rightarrow> real" where
  "distance_of p = (case p of (a, b, c, e) \<Rightarrow> haversine \<bar>a\<bar> \<bar>b\<bar> \<bar>c\<bar> \<bar>e\<bar>)"

lemma extract_features_eq:
  assumes "coordinates d = Some p"
  shows "extract_features pd d =
    Inr (AList.update ''distance_type'' (distance_bin pd (Num (distance_of p))) (AList.update ''distance'' (Num (distance_of p)) (prepared pd d)))"
proof -
  obtain a b c e where "map_of d ''restaurant_latitude'' = Some (Num a)" "map_of d ''restaurant_longitude'' = Some (Num b)"
    "map_of d ''delivery_latitude'' = Some (Num c)" "map_of d ''delivery_longitude'' = Some (Num e)" "p = (a, b, c, e)"
    using assms by (auto simp: coordinates_def split: option.splits cell.splits)
  then show ?thesis
    unfolding extract_features_def Let_def prepared_def [symmetric]
    by (simp add: calculate_haversine_distance_def create_distance_type_def column_abs_def prepared_lookup CATEGORICAL_def update_conv
        distance_of_def)
qed

text \<open>Every feature of the engineered row, from the columns of the row it was made from.\<close>

definition feature_of :: "pandas \<Rightarrow> row \<Rightarrow> real \<times> real \<times> real \<times> real \<Rightarrow> string \<Rightarrow> cell option" where
  "feature_of pd d p c =
     (if c = ''distance_type'' then Some (distance_bin pd (Num (distance_of p)))
      else if c = ''distance'' then Some (Num (distance_of p)) else map_of (prepared pd d) c)"

lemma extract_features_lookup:
  assumes "coordinates d = Some p"
  obtains d' where "extract_features pd d = Inr d'" and "\<And>c. map_of d' c = feature_of pd d p c"
  using that [OF extract_features_eq [OF assms]] by (simp add: feature_of_def update_conv)

section \<open>Serving\<close>

definition clean_text :: "string \<Rightarrow> string" where
  "clean_text s = str_lower (py_strip (py_remove ''conditions '' s))"

lemma standardise_Str: "standardise pd (Str s) = (if clean_text s = ''nan'' then Missing else Str (clean_text s))"
  by (simp add: standardise_def clean_text_def)

text \<open>The texts of the enums are already clean.\<close>

lemma clean_enums:
  "list_all (\<lambda>s. clean_text s = s) [''sunny'', ''stormy'', ''sandstorms'', ''windy'', ''fog'', ''cloudy'', ''low'', ''medium'', ''high'',
     ''jam'', ''snack'', ''meal'', ''drinks'', ''buffet'', ''motorcycle'', ''scooter'', ''electric_scooter'', ''bicycle'', ''yes'', ''no'',
     ''urban'', ''metropolitan'', ''semi-urban'']"
  by code_simp

lemma standardise_weather: "standardise pd (Str (weather_value w)) = Str (weather_value w)"
  using clean_enums by (cases w) (simp_all add: standardise_Str)

lemma standardise_traffic: "standardise pd (Str (traffic_value t)) = Str (traffic_value t)"
  using clean_enums by (cases t) (simp_all add: standardise_Str)

lemma standardise_order: "standardise pd (Str (order_type_value t)) = Str (order_type_value t)"
  using clean_enums by (cases t) (simp_all add: standardise_Str)

lemma standardise_vehicle: "standardise pd (Str (vehicle_value v)) = Str (vehicle_value v)"
  using clean_enums by (cases v) (simp_all add: standardise_Str)

lemma standardise_festival: "standardise pd (Str (festival_value f)) = Str (festival_value f)"
  using clean_enums by (cases f) (simp_all add: standardise_Str)

lemma standardise_city: "standardise pd (Str (city_value x)) = Str (city_value x)"
  using clean_enums by (cases x) (simp_all add: standardise_Str)

lemmas standardise_enums = standardise_weather standardise_traffic standardise_order standardise_vehicle standardise_festival standardise_city

lemma request_columns:
  "list_all (\<lambda>c. rename_column c = c) [''id'', ''rider_id'', ''age'', ''ratings'', ''restaurant_latitude'', ''restaurant_longitude'',
     ''delivery_latitude'', ''delivery_longitude'', ''order_date'', ''order_time'', ''weather'', ''traffic'', ''vehicle_condition'',
     ''type_of_order'', ''type_of_vehicle'', ''festival'', ''city_type'']"
  by code_simp

lemma change_request_row: "change_column_names (request_row r) = request_row r"
  using request_columns by (simp add: change_column_names_def request_row_def)

lemma request_lookup:
  "map_of (request_row r) ''age'' = Some (Num (rq_age r))" "map_of (request_row r) ''ratings'' = Some (Num (rq_ratings r))"
  "map_of (request_row r) ''order_date'' = Some (Str (rq_order_date r))" "map_of (request_row r) ''order_time'' = Some (Str (rq_order_time r))"
  "map_of (request_row r) ''weather'' = Some (Str (weather_value (rq_weather r)))"
  "map_of (request_row r) ''traffic'' = Some (Str (traffic_value (rq_traffic r)))"
  "map_of (request_row r) ''type_of_order'' = Some (Str (order_type_value (rq_type_of_order r)))"
  "map_of (request_row r) ''type_of_vehicle'' = Some (Str (vehicle_value (rq_type_of_vehicle r)))"
  "map_of (request_row r) ''festival'' = Some (Str (festival_value (rq_festival r)))"
  "map_of (request_row r) ''city_type'' = Some (Str (city_value (rq_city_type r)))"
  "coordinates (request_row r) = Some (rq_restaurant_latitude r, rq_restaurant_longitude r, rq_delivery_latitude r, rq_delivery_longitude r)"
  by (simp_all add: request_row_def coordinates_def)

definition request_distance :: "order_prediction_request \<Rightarrow> real" where
  "request_distance r = distance_of (rq_restaurant_latitude r, rq_restaurant_longitude r, rq_delivery_latitude r, rq_delivery_longitude r)"

lemma request_distance_nonneg: "0 \<le> request_distance r"
  by (simp add: request_distance_def distance_of_def haversine_bounds)

lemma select_lookup:
  assumes "\<And>c. map_of d c = f c" and "\<forall>c \<in> set feature_columns. f c \<noteq> None"
  shows "select_features d = map (\<lambda>c. (c, the (f c))) feature_columns"
proof -
  have "List.map_filter (\<lambda>c. map_option (Pair c) (map_of d c)) cs = map (\<lambda>c. (c, the (f c))) cs"
    if "\<forall>c \<in> set cs. f c \<noteq> None" for cs
    using that by (induction cs) (auto simp: map_filter_simps assms(1))
  with assms(2) show ?thesis by (simp add: select_features_def)
qed

lemma order_hour_lt: "pandas_ok pd \<Longrightarrow> order_hour pd v < 24"
  by (auto simp: order_hour_def pandas_ok_def split: option.split)

definition serving_cell :: "pandas \<Rightarrow> order_prediction_request \<Rightarrow> string \<Rightarrow> cell option" where
  "serving_cell pd r =
     [''age'' \<mapsto> Num (rq_age r), ''ratings'' \<mapsto> Num (rq_ratings r), ''distance'' \<mapsto> Num (request_distance r),
      ''weather'' \<mapsto> Str (weather_value (rq_weather r)), ''type_of_order'' \<mapsto> Str (order_type_value (rq_type_of_order r)),
      ''type_of_vehicle'' \<mapsto> Str (vehicle_value (rq_type_of_vehicle r)), ''festival'' \<mapsto> Str (festival_value (rq_festival r)),
      ''city_type'' \<mapsto> Str (city_value (rq_city_type r)), ''is_weekend'' \<mapsto> weekend_flag pd (Some (Str (rq_order_date r))),
      ''order_time_of_day'' \<mapsto> Str (time_band (order_hour pd (Str (rq_order_time r)))),
      ''traffic'' \<mapsto> Str (traffic_value (rq_traffic r)), ''distance_type'' \<mapsto> distance_band (request_distance r)]"

lemma feature_of_request:
  assumes "pandas_ok pd" and "c \<in> set feature_columns"
  shows "feature_of pd (request_row r) (rq_restaurant_latitude r, rq_restaurant_longitude r, rq_delivery_latitude r, rq_delivery_longitude r) c =
    serving_cell pd r c"
  using assms(2)
  by (auto simp: feature_columns_def NUMERICAL_FEATURES_def NOMINAL_FEATURES_def ORDINAL_FEATURES_def feature_of_def prepared_lookup
      CATEGORICAL_def request_lookup standardise_enums serving_cell_def request_distance_def [symmetric]
      distance_bin_band [OF assms(1) request_distance_nonneg] time_flag_def time_of_day_band [OF assms(1) order_hour_lt [OF assms(1)]])

lemma inference_row:
  assumes "pandas_ok pd"
  shows "normalise_for_inference pd (request_row r) = Inr (map (\<lambda>c. (c, the (serving_cell pd r c))) feature_columns)"
proof -
  obtain d where d: "extract_features pd (request_row r) = Inr d"
    "\<And>c. map_of d c = feature_of pd (request_row r)
       (rq_restaurant_latitude r, rq_restaurant_longitude r, rq_delivery_latitude r, rq_delivery_longitude r) c"
    by (rule extract_features_lookup [OF request_lookup(11)]) blast
  have some: "\<forall>c \<in> set feature_columns. serving_cell pd r c \<noteq> None"
    by (simp add: feature_columns_def NUMERICAL_FEATURES_def NOMINAL_FEATURES_def ORDINAL_FEATURES_def serving_cell_def)
  have "select_features d = map (\<lambda>c. (c, the (serving_cell pd r c))) feature_columns"
    using select_lookup [OF d(2)] some by (simp add: feature_of_request [OF assms])
  with d(1) show ?thesis by (simp add: normalise_for_inference_def change_request_row)
qed

section \<open>Training and serving\<close>

lemma map_of_drop_columns: "map_of (drop_columns cs d) c = (if c \<in> set cs then None else map_of d c)"
  by (induction d) (auto simp: drop_columns_def)

lemma features_kept: "c \<in> set feature_columns \<Longrightarrow> c \<notin> set COLUMNS_TO_DROP"
  by (auto simp: feature_columns_def NUMERICAL_FEATURES_def NOMINAL_FEATURES_def ORDINAL_FEATURES_def COLUMNS_TO_DROP_def)

text \<open>A row whose ages and ratings are numbers where they are given.\<close>

fun numeric_cell :: "cell option \<Rightarrow> bool" where
  "numeric_cell (Some (Str _)) \<longleftrightarrow> False"
| "numeric_cell _ \<longleftrightarrow> True"

definition numeric_row :: "row \<Rightarrow> bool" where
  "numeric_row d \<longleftrightarrow> numeric_cell (map_of d ''age'') \<and> numeric_cell (map_of d ''ratings'')"

lemma numeric_filter_lookup:
  assumes "pandas_ok pd" and "numeric_filter pd c lo hi d = Some d'" and "numeric_cell (map_of d c)"
  shows "map_of d' = map_of d"
proof (cases "map_of d c")
  case None
  with assms(2) show ?thesis by (simp add: numeric_filter_def)
next
  case (Some v)
  show ?thesis
  proof (cases v)
    case (Num x)
    then have "d' = AList.update c (Num x) d" using assms Some by (auto simp: numeric_filter_def pandas_ok_def split: if_splits)
    with Some Num show ?thesis by (simp add: update_conv' fun_upd_idem)
  next
    case (Str s)
    with Some assms(3) show ?thesis by simp
  next
    case Missing
    then have eq: "d' = AList.update c (pd_to_numeric pd Missing) d" and "cell_between lo hi (pd_to_numeric pd Missing)"
      using assms Some by (auto simp: numeric_filter_def split: if_splits)
    with Some Missing assms(1) show ?thesis by (cases "pd_to_numeric pd Missing") (auto simp: pandas_ok_def)
  qed
qed

lemma filter_training_lookup:
  assumes "pandas_ok pd" and "filter_training_row pd d = Some d'" and "numeric_row d"
  shows "c \<noteq> TARGET_COLUMN \<Longrightarrow> map_of d' c = map_of d c" and "list_all (\<lambda>(c, v). v \<noteq> Missing) d'"
    and "map_of d ''age'' = Some v \<Longrightarrow> cell_between 18 None v" and "map_of d ''ratings'' = Some v \<Longrightarrow> cell_between 1 (Some 5) v"
proof -
  obtain d1 where d1: "numeric_filter pd ''age'' 18 None d = Some d1"
    using assms(2) by (auto simp: filter_training_row_def split: option.splits)
  obtain d2 where d2: "numeric_filter pd ''ratings'' 1 (Some 5) d1 = Some d2" "dropna (clean_target pd d2) = Some d'"
    using assms(2) d1 by (auto simp: filter_training_row_def split: option.splits)
  have m1: "map_of d1 = map_of d" using d1 assms by (auto simp: numeric_row_def intro!: numeric_filter_lookup)
  have m2: "map_of d2 = map_of d1" using d2(1) assms(3) m1 by (intro numeric_filter_lookup [OF assms(1)]) (auto simp: numeric_row_def)
  have d': "d' = clean_target pd d2" "list_all (\<lambda>(c, v). v \<noteq> Missing) d'" using d2(2) by (auto simp: dropna_def split: if_splits)
  show "list_all (\<lambda>(c, v). v \<noteq> Missing) d'" by (rule d'(2))
  show "map_of d' c = map_of d c" if "c \<noteq> TARGET_COLUMN"
    unfolding d'(1) using that m1 m2 by (simp add: clean_target_def update_conv split: option.split)
  show "cell_between 18 None v" if "map_of d ''age'' = Some v"
    using d1 that assms(1,3) by (cases v) (auto simp: numeric_filter_def pandas_ok_def numeric_row_def split: if_splits)
  show "cell_between 1 (Some 5) v" if "map_of d ''ratings'' = Some v"
    using d2(1) that assms(1,3) m1 by (cases v) (auto simp: numeric_filter_def pandas_ok_def numeric_row_def split: if_splits)
qed

lemma not_target: "c \<in> set feature_columns \<Longrightarrow> c \<noteq> TARGET_COLUMN"
  by (auto simp: feature_columns_def NUMERICAL_FEATURES_def NOMINAL_FEATURES_def ORDINAL_FEATURES_def TARGET_COLUMN_def)

lemma feature_of_cong:
  assumes "\<And>c. c \<noteq> TARGET_COLUMN \<Longrightarrow> map_of d' c = map_of d c" and "c \<noteq> TARGET_COLUMN"
  shows "feature_of pd d' p c = feature_of pd d p c" and "coordinates d' = coordinates d"
proof -
  have cols: "map_of d' x = map_of d x" if "x \<in> {''order_time'', ''order_date'', ''restaurant_latitude'', ''restaurant_longitude'',
      ''delivery_latitude'', ''delivery_longitude''}" for x
    using that by (intro assms(1)) (auto simp: TARGET_COLUMN_def)
  show "feature_of pd d' p c = feature_of pd d p c"
    using assms(1) [OF assms(2)] cols by (auto simp: feature_of_def prepared_lookup split: option.split)
  show "coordinates d' = coordinates d" using cols by (simp add: coordinates_def)
qed

lemma select_features_cong: "(\<And>c. c \<in> set feature_columns \<Longrightarrow> map_of a c = map_of b c) \<Longrightarrow> select_features a = select_features b"
proof -
  assume eq: "\<And>c. c \<in> set feature_columns \<Longrightarrow> map_of a c = map_of b c"
  have "List.map_filter (\<lambda>c. map_option (Pair c) (map_of a c)) cs = List.map_filter (\<lambda>c. map_option (Pair c) (map_of b c)) cs"
    if "set cs \<subseteq> set feature_columns" for cs
    using that by (induction cs) (auto simp: map_filter_simps eq split: option.split)
  then show ?thesis by (simp add: select_features_def)
qed

text \<open>A row without gaps whose features could be computed has four numbers for coordinates.\<close>

lemma extract_Inr_coordinates:
  assumes "extract_features pd d = Inr f" and "list_all (\<lambda>(c, v). v \<noteq> Missing) d"
  shows "\<exists>p. coordinates d = Some p"
proof -
  have lookup: "map_of (prepared pd d) c = map_of d c"
    if "c \<in> {''restaurant_latitude'', ''restaurant_longitude'', ''delivery_latitude'', ''delivery_longitude''}" for c
    using that by (auto simp: prepared_lookup CATEGORICAL_def)
  have present: "map_of d c \<noteq> Some Missing" for c using assms(2) by (auto simp: list_all_iff dest: map_of_SomeD)
  have num: "\<exists>x. map_of d c = Some (Num x)"
    if "c \<in> {''restaurant_latitude'', ''restaurant_longitude'', ''delivery_latitude'', ''delivery_longitude''}" for c
  proof -
    have "\<exists>v. column_abs (prepared pd d) c = Inr v"
      using assms(1) that unfolding extract_features_def Let_def prepared_def [symmetric] calculate_haversine_distance_def
      by (auto split: sum.splits)
    then show ?thesis using lookup [OF that] present [of c] by (auto simp: column_abs_def split: option.splits cell.splits)
  qed
  from num [of "''restaurant_latitude''"] num [of "''restaurant_longitude''"] num [of "''delivery_latitude''"] num [of "''delivery_longitude''"]
  show ?thesis by (auto simp: coordinates_def)
qed

lemma map_filter_mem: "y \<in> set (List.map_filter f xs) \<longleftrightarrow> (\<exists>x \<in> set xs. f x = Some y)"
  by (induction xs) (auto simp: map_filter_simps split: option.splits)

lemma training_row_matches:
  assumes "pandas_ok pd" and "numeric_row d" and "filter_training_row pd d = Some d'" and "extract_features pd d' = Inr f"
  shows "map_sum id select_features (extract_features pd d) = Inr (select_features (drop_columns COLUMNS_TO_DROP f))"
proof -
  note kept = filter_training_lookup [OF assms(1,3,2)]
  obtain p where p': "coordinates d' = Some p" using extract_Inr_coordinates [OF assms(4) kept(2)] by blast
  have p: "coordinates d = Some p" using feature_of_cong(2) [of d' d "''age''"] kept(1) p' by (simp add: TARGET_COLUMN_def)
  obtain g where g: "extract_features pd d = Inr g" "\<And>c. map_of g c = feature_of pd d p c" by (rule extract_features_lookup [OF p, of pd]) blast
  have f: "map_of f c = feature_of pd d' p c" for c
    using extract_features_lookup [OF p', of pd] assms(4) by (metis sum.inject(2))
  have "select_features g = select_features (drop_columns COLUMNS_TO_DROP f)"
    by (rule select_features_cong) (simp add: map_of_drop_columns features_kept g(2) f feature_of_cong(1) [OF kept(1)] not_target)
  with g(1) show ?thesis by simp
qed

text \<open>The example of the contract.\<close>

definition sample_request :: order_prediction_request where
  "sample_request =
     \<lparr>rq_id = Some ''ORD-12345'', rq_rider_id = Some ''BANGRES19DEL01'', rq_age = 28, rq_ratings = 48 / 10,
      rq_restaurant_latitude = 129716 / 10000, rq_restaurant_longitude = 775946 / 10000, rq_delivery_latitude = 130358 / 10000,
      rq_delivery_longitude = 775970 / 10000, rq_order_date = ''15-03-2026'', rq_order_time = ''19:30:00'', rq_weather = SUNNY,
      rq_traffic = MEDIUM, rq_vehicle_condition = 2, rq_type_of_order = MEAL, rq_type_of_vehicle = MOTORCYCLE, rq_festival = NO,
      rq_city_type = METROPOLITAN\<rparr>"

section \<open>Properties\<close>

text \<open>
  What the model is asked. A prediction request always becomes exactly the twelve columns of the
  feature contract, in its order: the rider's age and rating, the computed distance, the categories as
  the contract spells them, the weekend flag, the time band of the order hour (noon when the time does not
  parse) and the distance band. The distance band is the only cell that can be missing, and it is missing
  exactly when the computed distance reaches 1000 km.
\<close>

theorem serving_row_complete:
  assumes "pandas_ok pd"
  shows "\<exists>row. normalise_for_inference pd (request_row r) = Inr row \<and> map fst row = feature_columns \<and>
    (\<forall>c \<in> set feature_columns. map_of row c = serving_cell pd r c) \<and>
    (\<forall>c \<in> set feature_columns. map_of row c = Some Missing \<longleftrightarrow> c = ''distance_type'' \<and> 1000 \<le> request_distance r)"
proof -
  let ?row = "map (\<lambda>c. (c, the (serving_cell pd r c))) feature_columns"
  have some: "\<forall>c \<in> set feature_columns. serving_cell pd r c \<noteq> None"
    by (simp add: feature_columns_def NUMERICAL_FEATURES_def NOMINAL_FEATURES_def ORDINAL_FEATURES_def serving_cell_def)
  have lookup: "map_of (map (\<lambda>c. (c, the (serving_cell pd r c))) cs) c = (if c \<in> set cs then Some (the (serving_cell pd r c)) else None)"
    for cs c by (induction cs) auto
  have cells: "\<forall>c \<in> set feature_columns. map_of ?row c = serving_cell pd r c" using some lookup by auto
  have "\<forall>c \<in> set feature_columns. serving_cell pd r c = Some Missing \<longleftrightarrow> c = ''distance_type'' \<and> 1000 \<le> request_distance r"
    by (auto simp: feature_columns_def NUMERICAL_FEATURES_def NOMINAL_FEATURES_def ORDINAL_FEATURES_def serving_cell_def
        weekend_flag_def distance_band_def)
  with cells inference_row [OF assms] show ?thesis by (intro exI [of _ ?row]) (auto simp: comp_def)
qed

theorem serving_row_complete_witness:
  "\<exists>row. normalise_for_inference plain_pandas (request_row sample_request) = Inr row \<and> map fst row = feature_columns"
  using serving_row_complete [OF plain_pandas_ok, of sample_request] by blast



text \<open>
  The distance is always between zero and half the circumference of the earth, but it is not the
  distance: the coordinates are bound in the wrong order, so a restaurant delivering to its own position
  on the equator at 90 degrees is put a quarter of the circumference away.
\<close>

theorem distance_bounded_but_swapped:
  "0 \<le> request_distance r \<and> request_distance r \<le> 6371 * pi \<and> haversine 0 90 0 90 = 6371 * (pi / 2)"
proof -
  have "0 \<le> sin (pi / 4)" by (simp add: sin_45)
  moreover have "arcsin (sin (pi / 4)) = pi / 4" by (rule arcsin_sin) (simp_all add: field_simps)
  ultimately have "haversine 0 90 0 90 = 6371 * (pi / 2)"
    by (simp add: haversine_def radians_def Let_def)
  then show ?thesis by (simp add: request_distance_def distance_of_def haversine_bounds split: prod.split)
qed

end
