(* ===== verification/Eta.thy ===== *)
theory Eta
  imports Features Http_Adapters
begin

text \<open>
  The ETA service: its application frame (\<^verbatim>\<open>core/app_factory.py\<close>, \<^verbatim>\<open>core/errors.py\<close>), loading the model,
  readiness and prediction with its interval (\<^verbatim>\<open>app.py\<close>), and the endpoint as the orchestrator's adapter
  calls it. The joblib artifacts and the fitted pipeline are parameters, as are pandas and the schema
  library's coercions of numbers.
\<close>

section \<open>The application frame\<close>

record problem_details =
  pr_type :: string
  pr_title :: string
  pr_status :: nat
  pr_detail :: string
  pr_instance :: string
  pr_correlation_id :: "string option"

definition deliveriq_exception_handler :: "string \<Rightarrow> string option \<Rightarrow> string \<Rightarrow> nat \<Rightarrow> string \<Rightarrow> problem_details" where
  "deliveriq_exception_handler path cid title status detail =
     \<lparr>pr_type = ''https://deliveriq.io/errors/domain-error'', pr_title = title, pr_status = status, pr_detail = detail,
      pr_instance = path, pr_correlation_id = cid\<rparr>"

definition validation_exception_handler :: "string \<Rightarrow> string option \<Rightarrow> problem_details" where
  "validation_exception_handler path cid =
     \<lparr>pr_type = ''https://deliveriq.io/errors/validation-error'', pr_title = ''Unprocessable Entity'', pr_status = 422,
      pr_detail = ''Request validation failed. Check invalid_params for details.'', pr_instance = path, pr_correlation_id = cid\<rparr>"

definition unhandled_exception_handler :: "string \<Rightarrow> string option \<Rightarrow> problem_details" where
  "unhandled_exception_handler path cid =
     \<lparr>pr_type = ''https://deliveriq.io/errors/internal-server-error'', pr_title = ''Internal Server Error'', pr_status = 500,
      pr_detail = ''An unexpected internal error occurred.'', pr_instance = path, pr_correlation_id = cid\<rparr>"

definition ModelNotReadyException :: "string \<Rightarrow> py_exn" where
  "ModelNotReadyException detail = DeliverIQException ''Model Not Ready'' 503 detail"

definition ResourceNotFoundException :: "string \<Rightarrow> string \<Rightarrow> py_exn" where
  "ResourceNotFoundException resource_type resource_id =
     DeliverIQException ''Resource Not Found'' 404 (resource_type @ '' with ID '' @ [CHR 0x27] @ resource_id @ [CHR 0x27] @ '' was not found.'')"

text \<open>The handler FastAPI picks: the registered one of the exception's class; \<^verbatim>\<open>HTTPException\<close> has its own.\<close>

fun problem_of :: "string \<Rightarrow> string option \<Rightarrow> py_exn \<Rightarrow> problem_details option" where
  "problem_of path cid (DeliverIQException t s d) = Some (deliveriq_exception_handler path cid t s d)"
| "problem_of path cid (HTTPException s d) = None"
| "problem_of path cid e = Some (unhandled_exception_handler path cid)"

text \<open>
  \<^verbatim>\<open>CorrelationIdMiddleware.dispatch\<close>: \<open>call_next\<close> gets the id through the context and returns the response
  with its headers, or raises past the middleware.
\<close>

definition correlation_of :: "(string \<times> string) list \<Rightarrow> string \<Rightarrow> string" where
  "correlation_of headers uuid =
     (case map_of headers ''X-Correlation-ID'' of
        Some (c # s) \<Rightarrow> c # s
      | _ \<Rightarrow> (case map_of headers ''X-Request-ID'' of Some (c # s) \<Rightarrow> c # s | _ \<Rightarrow> uuid))"

definition correlation_dispatch ::
  "(string \<times> string) list \<Rightarrow> string \<Rightarrow> (string \<Rightarrow> ('r \<times> (string \<times> string) list) outcome) \<Rightarrow> ('r \<times> (string \<times> string) list) outcome" where
  "correlation_dispatch headers uuid call_next =
     (let cid = correlation_of headers uuid
      in map_sum id (map_prod id (AList.update ''X-Correlation-ID'' cid)) (call_next cid))"

section \<open>The model\<close>

record 'pipe model_state =
  model_pipeline :: "'pipe option"
  ms_model_version :: string
  ms_ready :: bool
  degraded_fallback_eta :: rat

definition initial_model_state :: "'pipe model_state" where
  "initial_model_state = \<lparr>model_pipeline = None, ms_model_version = ''1.0.0'', ms_ready = False, degraded_fallback_eta = 32\<rparr>"

text \<open>\<open>preprocessor\<close> and \<open>model\<close> are what the two \<^verbatim>\<open>joblib.load\<close> give; any exception means no pipeline.\<close>

definition load_local_pipeline :: "'a outcome \<Rightarrow> 'b outcome \<Rightarrow> ('a \<times> 'b) option" where
  "load_local_pipeline preprocessor model =
     (case preprocessor of
        Inl e \<Rightarrow> None
      | Inr p \<Rightarrow> (case model of Inl e \<Rightarrow> None | Inr m \<Rightarrow> Some (p, m)))"

definition lifespan_startup :: "'a outcome \<Rightarrow> 'b outcome \<Rightarrow> ('a \<times> 'b) model_state \<Rightarrow> ('a \<times> 'b) model_state" where
  "lifespan_startup preprocessor model st =
     (case load_local_pipeline preprocessor model of
        Some pipe \<Rightarrow> st\<lparr>model_pipeline := Some pipe, ms_ready := True\<rparr>
      | None \<Rightarrow> st\<lparr>ms_ready := False\<rparr>)"

record ready_answer =
  rd_model_version :: string
  rd_feature_schema_version :: string

definition ready :: "'pipe model_state \<Rightarrow> ready_answer outcome" where
  "ready st =
     (if \<not> ms_ready st \<and> model_pipeline st = None then Inl (ModelNotReadyException ''Model artifacts are not loaded.'')
      else Inr \<lparr>rd_model_version = ms_model_version st, rd_feature_schema_version = FEATURE_SCHEMA_VERSION\<rparr>)"

record version_answer =
  va_model_version :: string
  va_feature_schema_version :: string
  va_degraded_mode :: bool

definition version :: "'pipe model_state \<Rightarrow> version_answer" where
  "version st = \<lparr>va_model_version = ms_model_version st, va_feature_schema_version = FEATURE_SCHEMA_VERSION, va_degraded_mode = (\<not> ms_ready st)\<rparr>"

section \<open>Prediction\<close>

record prediction_response =
  ps_eta_minutes :: rat
  ps_lower_bound :: rat
  ps_upper_bound :: rat
  ps_model_version :: string
  ps_feature_schema_version :: string
  ps_degraded :: bool
  ps_latency_ms :: rat
  ps_request_id :: "string option"

text \<open>The pipeline's answer for the row, or the fallback; the flag is \<^verbatim>\<open>is_degraded\<close>.\<close>

definition estimate :: "('pipe \<Rightarrow> row \<Rightarrow> rat outcome) \<Rightarrow> 'pipe model_state \<Rightarrow> row \<Rightarrow> rat \<times> bool" where
  "estimate run_pipeline st row =
     (if ms_ready st then
        (case model_pipeline st of
           Some pipe \<Rightarrow>
             (case run_pipeline pipe row of
                Inr eta \<Rightarrow> (eta, False)
              | Inl e \<Rightarrow> (degraded_fallback_eta st, True))
         | None \<Rightarrow> (degraded_fallback_eta st, True))
      else (degraded_fallback_eta st, True))"

text \<open>\<open>elapsed\<close> is the difference of the two \<^verbatim>\<open>time.perf_counter()\<close> readings, in seconds.\<close>

definition predict ::
  "pandas \<Rightarrow> ('pipe \<Rightarrow> row \<Rightarrow> rat outcome) \<Rightarrow> rat \<Rightarrow> rat \<Rightarrow> string option \<Rightarrow> 'pipe model_state \<Rightarrow> order_prediction_request \<Rightarrow>
   prediction_response outcome" where
  "predict pd run_pipeline margin elapsed cid st request =
     (case normalise_for_inference pd (request_row request) of
        Inl e \<Rightarrow> Inl e
      | Inr normalized \<Rightarrow>
          let (eta_prediction, is_degraded) = estimate run_pipeline st normalized;
              lower = max 5 (py_round 1 (eta_prediction - margin));
              upper = max (lower + 2) (py_round 1 (eta_prediction + margin));
              point_estimate = py_round 1 eta_prediction
          in Inr \<lparr>ps_eta_minutes = point_estimate, ps_lower_bound = lower, ps_upper_bound = upper,
                  ps_model_version = ms_model_version st, ps_feature_schema_version = FEATURE_SCHEMA_VERSION,
                  ps_degraded = is_degraded, ps_latency_ms = py_round 2 (elapsed * 1000), ps_request_id = cid\<rparr>)"

section \<open>The endpoint\<close>

text \<open>The schema library's coercions: a number for a numeric field, or none.\<close>

record schema_lib =
  coerce_float :: "json \<Rightarrow> rat option"
  coerce_int :: "json \<Rightarrow> int option"

definition schema_ok :: "schema_lib \<Rightarrow> bool" where
  "schema_ok lib \<longleftrightarrow> (\<forall>x. coerce_float lib (JFloat x) = Some x) \<and> (\<forall>i. coerce_int lib (JInt i) = Some i)"

fun json_string :: "json \<Rightarrow> string option" where
  "json_string (JStr s) = Some s"
| "json_string _ = None"

text \<open>A field that is optional and may be null, with its default.\<close>

definition optional_string :: "json_dict \<Rightarrow> string \<Rightarrow> string \<Rightarrow> string option option" where
  "optional_string d k dflt =
     (case dict_get_or d k (JStr dflt) of
        JNull \<Rightarrow> Some None
      | JStr s \<Rightarrow> Some (Some s)
      | _ \<Rightarrow> None)"

definition enum_field :: "('e \<Rightarrow> string) \<Rightarrow> 'e list \<Rightarrow> json_dict \<Rightarrow> string \<Rightarrow> json \<Rightarrow> 'e option" where
  "enum_field val es d k dflt =
     (case json_string (dict_get_or d k dflt) of None \<Rightarrow> None | Some s \<Rightarrow> find (\<lambda>e. val e = s) es)"

definition float_field :: "schema_lib \<Rightarrow> json_dict \<Rightarrow> string \<Rightarrow> real option" where
  "float_field lib d k = map_option of_rat (coerce_float lib (dict_get d k))"

definition decode_request :: "schema_lib \<Rightarrow> json_dict \<Rightarrow> order_prediction_request option" where
  "decode_request lib d =
     (case (optional_string d ''id'' ''REQ-001'', optional_string d ''rider_id'' ''RIDER_DEFAULT'',
            float_field lib d ''age'', float_field lib d ''ratings'') of
        (Some i, Some rider, Some age, Some ratings) \<Rightarrow>
     (case (float_field lib d ''restaurant_latitude'', float_field lib d ''restaurant_longitude'',
            float_field lib d ''delivery_latitude'', float_field lib d ''delivery_longitude'') of
        (Some lat1, Some lon1, Some lat2, Some lon2) \<Rightarrow>
     (case (json_string (dict_get d ''order_date''), json_string (dict_get d ''order_time''),
            enum_field weather_value [SUNNY, STORMY, SANDSTORMS, WINDY, FOG, CLOUDY] d ''weather'' JNull,
            enum_field traffic_value [LOW, MEDIUM, HIGH, JAM] d ''traffic'' JNull) of
        (Some date, Some clock, Some w, Some t) \<Rightarrow>
     (case (coerce_int lib (dict_get_or d ''vehicle_condition'' (JInt 1)),
            enum_field order_type_value [SNACK, MEAL, DRINKS, BUFFET] d ''type_of_order'' JNull,
            enum_field vehicle_value [MOTORCYCLE, SCOOTER, ELECTRIC_SCOOTER, BICYCLE] d ''type_of_vehicle'' JNull,
            enum_field festival_value [YES, NO] d ''festival'' (JStr ''no''),
            enum_field city_value [URBAN, METROPOLITAN, SEMI_URBAN] d ''city_type'' JNull) of
        (Some cond, Some kind, Some vehicle, Some fest, Some city) \<Rightarrow>
          let r = \<lparr>rq_id = i, rq_rider_id = rider, rq_age = age, rq_ratings = ratings, rq_restaurant_latitude = lat1,
                   rq_restaurant_longitude = lon1, rq_delivery_latitude = lat2, rq_delivery_longitude = lon2,
                   rq_order_date = date, rq_order_time = clock, rq_weather = w, rq_traffic = t,
                   rq_vehicle_condition = cond, rq_type_of_order = kind, rq_type_of_vehicle = vehicle,
                   rq_festival = fest, rq_city_type = city\<rparr>
          in if valid_prediction_request r then Some r else None
      | _ \<Rightarrow> None) | _ \<Rightarrow> None) | _ \<Rightarrow> None) | _ \<Rightarrow> None)"

definition encode_prediction :: "prediction_response \<Rightarrow> json_dict" where
  "encode_prediction p =
     [(''eta_minutes'', JFloat (ps_eta_minutes p)), (''lower_bound'', JFloat (ps_lower_bound p)),
      (''upper_bound'', JFloat (ps_upper_bound p)), (''model_version'', JStr (ps_model_version p)),
      (''feature_schema_version'', JStr (ps_feature_schema_version p)), (''degraded'', JBool (ps_degraded p)),
      (''latency_ms'', JFloat (ps_latency_ms p)),
      (''request_id'', case ps_request_id p of Some s \<Rightarrow> JStr s | None \<Rightarrow> JNull)]"

definition serve_predict ::
  "schema_lib \<Rightarrow> pandas \<Rightarrow> ('pipe \<Rightarrow> row \<Rightarrow> rat outcome) \<Rightarrow> rat \<Rightarrow> rat \<Rightarrow> string option \<Rightarrow> 'pipe model_state \<Rightarrow> json_dict \<Rightarrow>
   http_response" where
  "serve_predict lib pd run_pipeline margin elapsed cid st payload =
     (case decode_request lib payload of
        None \<Rightarrow> \<lparr>status_code = 422, body_json = [(''title'', JStr ''Unprocessable Entity'')]\<rparr>
      | Some r \<Rightarrow> respond encode_prediction (predict pd run_pipeline margin elapsed cid st r))"

section \<open>Lemmas\<close>

lemma predict_eq:
  assumes "pandas_ok pd"
  obtains row where "normalise_for_inference pd (request_row r) = Inr row"
    and "predict pd run_pipeline margin elapsed cid st r =
      (let (eta, deg) = estimate run_pipeline st row; lower = max 5 (py_round 1 (eta - margin))
       in Inr \<lparr>ps_eta_minutes = py_round 1 eta, ps_lower_bound = lower, ps_upper_bound = max (lower + 2) (py_round 1 (eta + margin)),
               ps_model_version = ms_model_version st, ps_feature_schema_version = FEATURE_SCHEMA_VERSION,
               ps_degraded = deg, ps_latency_ms = py_round 2 (elapsed * 1000), ps_request_id = cid\<rparr>)"
  using that [OF inference_row [OF assms, of r]] by (simp add: predict_def inference_row [OF assms] Let_def)

lemma estimate_cases:
  "estimate run_pipeline st row =
     (case (if ms_ready st then model_pipeline st else None) of
        None \<Rightarrow> (degraded_fallback_eta st, True)
      | Some pipe \<Rightarrow> (case run_pipeline pipe row of Inr eta \<Rightarrow> (eta, False) | Inl e \<Rightarrow> (degraded_fallback_eta st, True)))"
  by (simp add: estimate_def split: option.split)

lemma py_round_5: "py_round 1 (5 :: rat) = 5"
  using py_round_of_int [of 1 5, where ?'a = rat] by simp

text \<open>An order that says nothing about its delivery: the adapter fills in its defaults.\<close>

definition delivery_keys :: "string list" where
  "delivery_keys = [''city'', ''city_type'', ''delivery_person_age'', ''delivery_person_ratings'', ''restaurant_latitude'',
     ''restaurant_longitude'', ''delivery_location_latitude'', ''delivery_location_longitude'', ''order_date'', ''time_order_picked'',
     ''weather_conditions'', ''road_traffic_density'', ''vehicle_condition'', ''type_of_order'', ''type_of_vehicle'', ''festival'']"

definition conversions_ok :: "conversions \<Rightarrow> bool" where
  "conversions_ok c \<longleftrightarrow> (\<forall>s. py_str c (JStr s) = s) \<and> (\<forall>s. str_lower s = s \<longrightarrow> py_lower c s = s)"

lemma default_lower: "list_all (\<lambda>s. str_lower s = s) [''sunny'', ''medium'', ''meal'', ''motorcycle'', ''no'']"
  by code_simp

definition default_request :: "string \<Rightarrow> order_prediction_request" where
  "default_request oid =
     \<lparr>rq_id = Some oid, rq_rider_id = Some ''RIDER_DEFAULT'', rq_age = 28, rq_ratings = 9 / 2, rq_restaurant_latitude = 1297 / 100,
      rq_restaurant_longitude = 7759 / 100, rq_delivery_latitude = 1293 / 100, rq_delivery_longitude = 7762 / 100,
      rq_order_date = ''2026-08-20'', rq_order_time = ''19:30:00'', rq_weather = SUNNY, rq_traffic = MEDIUM, rq_vehicle_condition = 2,
      rq_type_of_order = MEAL, rq_type_of_vehicle = MOTORCYCLE, rq_festival = NO, rq_city_type = METROPOLITAN\<rparr>"

definition default_payload :: "string \<Rightarrow> json_dict" where
  "default_payload oid =
     [(''id'', JStr oid), (''rider_id'', JStr ''RIDER_DEFAULT''), (''age'', JFloat 28), (''ratings'', JFloat (9 / 2)),
      (''restaurant_latitude'', JFloat (1297 / 100)), (''restaurant_longitude'', JFloat (7759 / 100)),
      (''delivery_latitude'', JFloat (1293 / 100)), (''delivery_longitude'', JFloat (7762 / 100)),
      (''order_date'', JStr ''2026-08-20''), (''order_time'', JStr ''19:30:00''), (''weather'', JStr ''sunny''),
      (''traffic'', JStr ''medium''), (''vehicle_condition'', JInt 2), (''type_of_order'', JStr ''meal''),
      (''type_of_vehicle'', JStr ''motorcycle''), (''festival'', JStr ''no''), (''city_type'', JStr ''metropolitan'')]"

lemma default_eta_payload:
  assumes "conversions_ok c" and "\<forall>k \<in> set delivery_keys. map_of data k = None"
  shows "eta_payload c data = Inr (default_payload (py_str c (dict_get_or data ''order_id'' (JStr ''ORD-SAGA''))))"
proof -
  have get: "dict_get_or data k d = d" if "k \<in> set delivery_keys" for k d using assms(2) that by (simp add: dict_get_or_def)
  have conv: "py_str c (JStr s) = s" for s using assms(1) by (simp add: conversions_ok_def)
  have low: "py_lower c ''sunny'' = ''sunny''" "py_lower c ''medium'' = ''medium''" "py_lower c ''meal'' = ''meal''"
    "py_lower c ''motorcycle'' = ''motorcycle''" "py_lower c ''no'' = ''no''"
    using assms(1) default_lower by (simp_all add: conversions_ok_def)
  note keys = get [unfolded delivery_keys_def, simplified]
  show ?thesis
    unfolding eta_payload_def Let_def by (simp add: keys conv low default_payload_def city_map_def)
qed

lemma default_decodes:
  assumes "schema_ok lib"
  shows "decode_request lib (default_payload oid) = Some (default_request oid)"
proof -
  have num: "coerce_float lib (JFloat x) = Some x" "coerce_int lib (JInt i) = Some i" for x i
    using assms by (simp_all add: schema_ok_def)
  show ?thesis
    by (simp add: decode_request_def default_payload_def optional_string_def float_field_def enum_field_def dict_get_or_def num
        default_request_def valid_prediction_request_def of_rat_divide)
qed

section \<open>Properties\<close>



text \<open>
  A service whose artifacts did not load says so and still answers. Started from its initial state, it
  is ready exactly when both artifacts loaded, and reports the degraded mode otherwise; then the readiness
  probe fails with 503 and every prediction is the fallback of 32 minutes between 28 and 36.
\<close>

theorem startup_without_artifacts:
  assumes "pandas_ok pd" and "st = lifespan_startup preprocessor model initial_model_state"
  shows "((\<exists>a. ready st = Inr a) \<longleftrightarrow> (\<exists>p m. preprocessor = Inr p \<and> model = Inr m)) \<and>
    (va_degraded_mode (version st) \<longleftrightarrow> \<not> (\<exists>p m. preprocessor = Inr p \<and> model = Inr m)) \<and>
    (\<not> (\<exists>p m. preprocessor = Inr p \<and> model = Inr m) \<longrightarrow>
       (\<exists>e. ready st = Inl e \<and> (\<forall>path cid. \<exists>q. problem_of path cid e = Some q \<and> pr_status q = 503)) \<and>
       (\<exists>p. predict pd run_pipeline 4 elapsed cid st r = Inr p \<and> ps_degraded p \<and> ps_eta_minutes p = 32 \<and>
          ps_lower_bound p = 28 \<and> ps_upper_bound p = 36))"
proof -
  have st: "ms_ready st \<longleftrightarrow> (\<exists>p m. preprocessor = Inr p \<and> model = Inr m)" "model_pipeline st = None \<longleftrightarrow> \<not> ms_ready st"
    "degraded_fallback_eta st = 32"
    by (auto simp: assms(2) lifespan_startup_def load_local_pipeline_def initial_model_state_def split: sum.split)
  have round: "py_round 1 (32 :: rat) = 32" "py_round 1 (28 :: rat) = 28" "py_round 1 (36 :: rat) = 36"
    using py_round_of_int [of 1 32, where ?'a = rat] py_round_of_int [of 1 28, where ?'a = rat] py_round_of_int [of 1 36, where ?'a = rat]
    by simp_all
  obtain row where row: "predict pd run_pipeline 4 elapsed cid st r =
      (let (eta, deg) = estimate run_pipeline st row; lower = max 5 (py_round 1 (eta - 4))
       in Inr \<lparr>ps_eta_minutes = py_round 1 eta, ps_lower_bound = lower, ps_upper_bound = max (lower + 2) (py_round 1 (eta + 4)),
               ps_model_version = ms_model_version st, ps_feature_schema_version = FEATURE_SCHEMA_VERSION,
               ps_degraded = deg, ps_latency_ms = py_round 2 (elapsed * 1000), ps_request_id = cid\<rparr>)"
    by (rule predict_eq [OF assms(1), of r run_pipeline 4 elapsed cid st])
  show ?thesis
  proof (cases "ms_ready st")
    case True
    with st show ?thesis by (simp add: ready_def version_def)
  next
    case False
    with st have "estimate run_pipeline st row = (32, True)" by (simp add: estimate_def)
    with False st show ?thesis
      by (simp add: row ready_def version_def Let_def round [unfolded One_nat_def] ModelNotReadyException_def deliveriq_exception_handler_def)
  qed
qed

theorem startup_without_artifacts_witness:
  "let st = lifespan_startup (Inl (RuntimeError ''missing'') :: unit outcome) (Inr ()) initial_model_state
   in (\<exists>e. ready st = Inl e) \<and>
      (\<exists>p. predict plain_pandas (\<lambda>_ _. Inr 20) 4 0 None st sample_request = Inr p \<and> ps_degraded p \<and> ps_eta_minutes p = 32)"
  using startup_without_artifacts [OF plain_pandas_ok refl, of "Inl (RuntimeError ''missing'') :: unit outcome" "Inr ()" "\<lambda>_ _. Inr 20" 0 None
    sample_request] unfolding Let_def by auto

text \<open>
  The request the orchestrator's adapter makes of the ETA service is one the service accepts. For an
  order that carries no delivery details, over a delivered exchange, the adapter's call returns the
  service's prediction itself, never its substitute for a refused request.
\<close>

theorem default_order_gets_prediction:
  assumes "pandas_ok pd" and "schema_ok lib" and "conversions_ok c" and "\<forall>k \<in> set delivery_keys. map_of data k = None"
    and "next_transport pf = Delivered"
  shows "\<exists>p pf'. http_predict c (serve_predict lib pd run_pipeline margin elapsed cid st) data pf = (Inr (Some (encode_prediction p)), pf') \<and>
    predict pd run_pipeline margin elapsed cid st
      (default_request (py_str c (dict_get_or data ''order_id'' (JStr ''ORD-SAGA'')))) = Inr p \<and>
    pf_payment pf' = pf_payment pf \<and> pf_inventory pf' = pf_inventory pf \<and> pf_orders pf' = pf_orders pf"
proof -
  let ?oid = "py_str c (dict_get_or data ''order_id'' (JStr ''ORD-SAGA''))"
  obtain p where p: "predict pd run_pipeline margin elapsed cid st (default_request ?oid) = Inr p"
    by (rule predict_eq [OF assms(1), of "default_request ?oid" run_pipeline margin elapsed cid st])
      (simp add: Let_def split: prod.splits)
  have "serve_predict lib pd run_pipeline margin elapsed cid st (default_payload ?oid) = \<lparr>status_code = 200, body_json = encode_prediction p\<rparr>"
    by (simp add: serve_predict_def default_decodes [OF assms(2)] p)
  with p assms(5) show ?thesis by (simp add: http_predict_def default_eta_payload [OF assms(3,4)] http_call_def)
qed

definition plain_schema :: schema_lib where
  "plain_schema = \<lparr>coerce_float = (\<lambda>j. case j of JFloat x \<Rightarrow> Some x | JInt i \<Rightarrow> Some (of_int i) | _ \<Rightarrow> None),
     coerce_int = (\<lambda>j. case j of JInt i \<Rightarrow> Some i | _ \<Rightarrow> None)\<rparr>"

theorem default_order_gets_prediction_witness:
  "\<exists>p pf'. http_predict plain_conversions (serve_predict plain_schema plain_pandas (\<lambda>_ _. Inr 20) 4 0 None (initial_model_state :: unit model_state))
     [(''order_id'', JStr ''O1'')] (small_platform [] 1) = (Inr (Some (encode_prediction p)), pf')"
proof -
  have "schema_ok plain_schema" "conversions_ok plain_conversions" "next_transport (small_platform [] 1) = Delivered"
    "\<forall>k \<in> set delivery_keys. map_of [(''order_id'', JStr ''O1'')] k = None"
    by (simp_all add: schema_ok_def plain_schema_def conversions_ok_def plain_conversions_def delivery_keys_def next_transport_def
        small_platform_def)
  then show ?thesis
    using default_order_gets_prediction [OF plain_pandas_ok, of plain_schema plain_conversions "[(''order_id'', JStr ''O1'')]" "small_platform [] 1"
      "\<lambda>_ _. Inr 20" 4 0 None "initial_model_state :: unit model_state"] by blast
qed

end
