(* ===== verification/Monitoring.thy ===== *)
theory Monitoring
  imports Prelude
begin

text \<open>
  The monitoring service: the prediction log with its delayed labels
  (\<^verbatim>\<open>services/monitoring/prediction_logger.py\<close>), rolling performance (\<^verbatim>\<open>performance_tracker.py\<close>), drift
  detection by population stability index (\<^verbatim>\<open>drift_detector.py\<close>), the compound retrain gate
  (\<^verbatim>\<open>retrain_gate.py\<close>) and the endpoints of \<^verbatim>\<open>app.py\<close>, over the tables of \<^verbatim>\<open>models.py\<close>.

  The columns are of type \<^verbatim>\<open>DateTime\<close> without a time zone. A session that has just written
  \<^verbatim>\<open>datetime.now(UTC)\<close> still holds the aware value; what a later session reads is the database
  driver's business, the parameter \<open>load\<close>. Python refuses to subtract a naive time from an aware one. The
  histograms of \<^verbatim>\<open>numpy\<close> are parameters too.
\<close>

section \<open>Time stamps\<close>

datatype stamp = Aware time | Naive time

fun stamp_time :: "stamp \<Rightarrow> time" where
  "stamp_time (Aware t) = t"
| "stamp_time (Naive t) = t"

text \<open>\<^verbatim>\<open>(now - s).total_seconds()\<close> for an aware \<^verbatim>\<open>now\<close>.\<close>

fun seconds_since :: "time \<Rightarrow> stamp \<Rightarrow> rat outcome" where
  "seconds_since now (Aware t) = Inr (now - t)"
| "seconds_since now (Naive t) = Inl (TypeError ''can't subtract offset-naive and offset-aware datetimes'')"

section \<open>Tables\<close>

record prediction_log =
  prediction_id :: string
  pl_order_id :: string
  pl_correlation_id :: "string option"
  model_version :: string
  feature_schema_version :: string
  input_features :: json_dict
  pl_eta_minutes :: rat
  lower_bound :: "rat option"
  upper_bound :: "rat option"
  pl_degraded :: bool
  predicted_at :: stamp
  actual_minutes :: "rat option"
  delivered_at :: "stamp option"
  label_lag_seconds :: "rat option"

record drift_report =
  report_id :: string
  feature_name :: string
  psi_score :: real
  dr_threshold :: real
  is_drifted :: bool
  dr_sample_size :: nat
  computed_at :: stamp

datatype gate_outcome = TRIGGERED | SUPPRESSED

record gate_details =
  gd_drift_detected :: bool
  gd_drifted_features :: "string list"
  gd_mae :: rat
  gd_late_rate :: rat
  gd_interval_coverage :: rat
  gd_labelled_count :: nat
  gd_cooldown_ok :: bool
  gd_mae_threshold :: rat
  gd_late_rate_threshold :: rat

record retrain_decision =
  decision_id :: string
  rd_drift_detected :: bool
  rd_perf_degraded :: bool
  rd_sample_count :: nat
  rd_cooldown_ok :: bool
  gate_result :: gate_outcome
  rd_reason :: string
  rd_details :: gate_details
  decided_at :: stamp

record monitoring_db =
  prediction_logs :: "prediction_log list"
  drift_reports :: "drift_report list"
  retrain_decisions :: "retrain_decision list"

definition monitoring_ok :: "monitoring_db \<Rightarrow> bool" where
  "monitoring_ok db \<longleftrightarrow> distinct (map prediction_id (prediction_logs db)) \<and>
     distinct (map report_id (drift_reports db)) \<and> distinct (map decision_id (retrain_decisions db))"

text \<open>What the next session reads of what this one committed: every time stamp as \<open>load\<close> gives it back.\<close>

definition reloaded :: "(stamp \<Rightarrow> stamp) \<Rightarrow> monitoring_db \<Rightarrow> monitoring_db" where
  "reloaded load db =
     \<lparr>prediction_logs = map (\<lambda>r. r\<lparr>predicted_at := load (predicted_at r), delivered_at := map_option load (delivered_at r)\<rparr>)
        (prediction_logs db),
      drift_reports = map (\<lambda>r. r\<lparr>computed_at := load (computed_at r)\<rparr>) (drift_reports db),
      retrain_decisions = map (\<lambda>r. r\<lparr>decided_at := load (decided_at r)\<rparr>) (retrain_decisions db)\<rparr>"

definition monitoring_session ::
  "(stamp \<Rightarrow> stamp) \<Rightarrow> (monitoring_db \<Rightarrow> 'a outcome \<times> monitoring_db) \<Rightarrow> monitoring_db \<Rightarrow> 'a outcome \<times> monitoring_db" where
  "monitoring_session load body db = (case get_session monitoring_ok body db of (r, db') \<Rightarrow> (r, reloaded load db'))"

text \<open>The documented behaviour of such a column: the time zone is not stored.\<close>

definition drops_time_zone :: "(stamp \<Rightarrow> stamp) \<Rightarrow> bool" where
  "drops_time_zone load \<longleftrightarrow> (\<forall>s. load s = Naive (stamp_time s))"

text \<open>\<^verbatim>\<open>order_by(column.desc())\<close>.\<close>

definition newest_first :: "('a \<Rightarrow> stamp) \<Rightarrow> 'a list \<Rightarrow> 'a list" where
  "newest_first col rows = sort_key (\<lambda>r. - stamp_time (col r)) rows"

section \<open>The prediction log\<close>

record log_prediction_request =
  lp_order_id :: string
  lp_model_version :: string
  lp_schema_version :: string
  lp_input_features :: json_dict
  lp_eta_minutes :: rat
  lp_lower_bound :: "rat option"
  lp_upper_bound :: "rat option"
  lp_degraded :: bool
  lp_correlation_id :: "string option"

definition log_prediction :: "call_env \<Rightarrow> log_prediction_request \<Rightarrow> monitoring_db \<Rightarrow> string outcome \<times> monitoring_db" where
  "log_prediction env req db =
     (let pid = ''PRED-'' @ env_uuid env;
          row = \<lparr>prediction_id = pid, pl_order_id = lp_order_id req, pl_correlation_id = lp_correlation_id req,
                 model_version = lp_model_version req, feature_schema_version = lp_schema_version req,
                 input_features = lp_input_features req, pl_eta_minutes = lp_eta_minutes req,
                 lower_bound = lp_lower_bound req, upper_bound = lp_upper_bound req, pl_degraded = lp_degraded req,
                 predicted_at = Aware (env_now env), actual_minutes = None, delivered_at = None, label_lag_seconds = None\<rparr>
      in (Inr pid, db\<lparr>prediction_logs := prediction_logs db @ [row]\<rparr>))"

text \<open>
  \<^verbatim>\<open>join_actual\<close>: the first unlabelled prediction of the order. The attributes are assigned before the
  lag is computed, so an exception there leaves a half-written row in the session, which the rollback
  discards.
\<close>

definition unlabelled :: "string \<Rightarrow> prediction_log \<Rightarrow> bool" where
  "unlabelled oid r \<longleftrightarrow> pl_order_id r = oid \<and> actual_minutes r = None"

definition join_actual :: "time \<Rightarrow> string \<Rightarrow> rat \<Rightarrow> monitoring_db \<Rightarrow> prediction_log option outcome \<times> monitoring_db" where
  "join_actual now oid actual db =
     (case find (unlabelled oid) (prediction_logs db) of
        None \<Rightarrow> (Inr None, db)
      | Some r \<Rightarrow>
          let r' = r\<lparr>actual_minutes := Some actual, delivered_at := Some (Aware now)\<rparr>;
              write = (\<lambda>x. db\<lparr>prediction_logs := update_first (unlabelled oid) (\<lambda>_. x) (prediction_logs db)\<rparr>)
          in (case seconds_since now (predicted_at r) of
                Inl e \<Rightarrow> (Inl e, write r')
              | Inr lag \<Rightarrow>
                  let r'' = r'\<lparr>label_lag_seconds := Some lag\<rparr> in (Inr (Some r''), write r'')))"

definition labelled :: "prediction_log \<Rightarrow> bool" where
  "labelled r \<longleftrightarrow> actual_minutes r \<noteq> None"

definition get_labelled_predictions :: "nat \<Rightarrow> monitoring_db \<Rightarrow> prediction_log list" where
  "get_labelled_predictions limit db = take limit (newest_first predicted_at (filter labelled (prediction_logs db)))"

definition get_recent_predictions :: "nat \<Rightarrow> monitoring_db \<Rightarrow> prediction_log list" where
  "get_recent_predictions limit db = take limit (newest_first predicted_at (prediction_logs db))"

section \<open>Rolling performance\<close>

record performance_metrics =
  mae :: rat
  late_rate :: rat
  interval_coverage :: rat
  sample_count :: nat
  labelled_count :: nat

definition actual_of :: "prediction_log \<Rightarrow> rat" where
  "actual_of r = (case actual_minutes r of Some a \<Rightarrow> a | None \<Rightarrow> 0)"

definition is_late :: "prediction_log \<Rightarrow> bool" where
  "is_late r \<longleftrightarrow> actual_of r > pl_eta_minutes r + 5"

fun in_interval :: "rat option \<Rightarrow> rat option \<Rightarrow> rat \<Rightarrow> bool" where
  "in_interval (Some l) (Some u) a \<longleftrightarrow> l \<le> a \<and> a \<le> u"
| "in_interval _ _ a \<longleftrightarrow> False"

definition has_interval :: "prediction_log \<Rightarrow> bool" where
  "has_interval r \<longleftrightarrow> lower_bound r \<noteq> None \<and> upper_bound r \<noteq> None"

definition compute_rolling_metrics :: "nat \<Rightarrow> monitoring_db \<Rightarrow> performance_metrics" where
  "compute_rolling_metrics window_size db =
     (let rows = get_labelled_predictions window_size db;
          total = length (get_recent_predictions window_size db)
      in if rows = [] then
           \<lparr>mae = 0, late_rate = 0, interval_coverage = 0, sample_count = total, labelled_count = 0\<rparr>
         else
           let n = of_nat (length rows);
               with_interval = filter has_interval rows;
               in_count = length (filter (\<lambda>r. in_interval (lower_bound r) (upper_bound r) (actual_of r)) with_interval)
           in \<lparr>mae = py_round 4 (sum_list (map (\<lambda>r. \<bar>actual_of r - pl_eta_minutes r\<bar>) rows) / n),
               late_rate = py_round 4 (of_nat (length (filter is_late rows)) / n),
               interval_coverage = py_round 4 (if with_interval \<noteq> [] then of_nat in_count / of_nat (length with_interval) else 0),
               sample_count = total, labelled_count = length rows\<rparr>)"

section \<open>Drift\<close>

text \<open>
  The parameters: \<open>linspace lo hi n\<close> are the \<open>n\<close> edges of \<^verbatim>\<open>np.linspace\<close>, \<open>histogram xs edges\<close> the counts of
  \<^verbatim>\<open>np.histogram\<close>, one per bin. The arithmetic on the arrays is elementwise.
\<close>

record numpy =
  np_linspace :: "real \<Rightarrow> real \<Rightarrow> nat \<Rightarrow> real list"
  np_histogram :: "real list \<Rightarrow> real list \<Rightarrow> nat list"

definition proportions :: "real \<Rightarrow> nat \<Rightarrow> nat \<Rightarrow> nat list \<Rightarrow> real list" where
  "proportions epsilon bins n counts = map (\<lambda>c. (of_nat c + epsilon) / (of_nat n + epsilon * of_nat bins)) counts"

definition breakpoints :: "numpy \<Rightarrow> nat \<Rightarrow> real list \<Rightarrow> real list \<Rightarrow> real list" where
  "breakpoints np bins reference current =
     np_linspace np (min (Min (set reference)) (Min (set current))) (max (Max (set reference)) (Max (set current))) (bins + 1)"

definition smoothed :: "numpy \<Rightarrow> real list \<Rightarrow> nat \<Rightarrow> real \<Rightarrow> real list \<Rightarrow> real list" where
  "smoothed np edges bins epsilon xs = proportions epsilon bins (length xs) (np_histogram np xs edges)"

definition raw_psi :: "numpy \<Rightarrow> real list \<Rightarrow> real list \<Rightarrow> nat \<Rightarrow> real \<Rightarrow> real" where
  "raw_psi np reference current bins epsilon =
     (let edges = breakpoints np bins reference current;
          ref = smoothed np edges bins epsilon reference;
          cur = smoothed np edges bins epsilon current
      in sum_list (map2 (\<lambda>c r. (c - r) * ln (c / r)) cur ref))"

definition compute_psi :: "numpy \<Rightarrow> real list \<Rightarrow> real list \<Rightarrow> nat \<Rightarrow> real \<Rightarrow> real" where
  "compute_psi np reference current bins epsilon =
     (if length reference < bins \<or> length current < bins then 0
      else max (raw_psi np reference current bins epsilon) 0)"

text \<open>The documented behaviour of the histogram: one count per pair of neighbouring edges.\<close>

definition one_count_per_bin :: "numpy \<Rightarrow> bool" where
  "one_count_per_bin np \<longleftrightarrow> (\<forall>xs edges. length (np_histogram np xs edges) = length edges - 1)"

abbreviation DEFAULT_BINS :: nat where
  "DEFAULT_BINS \<equiv> 10"

abbreviation DEFAULT_EPSILON :: real where
  "DEFAULT_EPSILON \<equiv> 1 / 10000"

definition detect_drift :: "numpy \<Rightarrow> string \<Rightarrow> real list \<Rightarrow> real list \<Rightarrow> real \<Rightarrow> call_env \<Rightarrow> drift_report" where
  "detect_drift np name reference current threshold env =
     (let psi = compute_psi np reference current DEFAULT_BINS DEFAULT_EPSILON
      in \<lparr>report_id = ''DRIFT-'' @ env_uuid env, feature_name = name, psi_score = py_round 6 psi, dr_threshold = threshold,
          is_drifted = (psi > threshold), dr_sample_size = length current, computed_at = Aware (env_now env)\<rparr>)"

text \<open>\<^verbatim>\<open>run_drift_check\<close>: \<open>envs\<close> gives each report its own uuid and clock reading.\<close>

fun drift_loop ::
  "numpy \<Rightarrow> (nat \<Rightarrow> call_env) \<Rightarrow> (string \<times> real list) list \<Rightarrow> (string \<times> real list) list \<Rightarrow> real \<Rightarrow> drift_report list" where
  "drift_loop np envs [] current threshold = []"
| "drift_loop np envs ((name, ref) # rest) current threshold =
     (let cur = (case map_of current name of Some xs \<Rightarrow> xs | None \<Rightarrow> [])
      in if length cur < 10 then drift_loop np envs rest current threshold
         else detect_drift np name ref cur threshold (envs (length rest)) # drift_loop np envs rest current threshold)"

definition run_drift_check ::
  "numpy \<Rightarrow> (nat \<Rightarrow> call_env) \<Rightarrow> (string \<times> real list) list \<Rightarrow> (string \<times> real list) list \<Rightarrow> real \<Rightarrow> monitoring_db \<Rightarrow>
   drift_report list outcome \<times> monitoring_db" where
  "run_drift_check np envs reference current threshold db =
     (let reports = drift_loop np envs reference current threshold
      in (Inr reports, db\<lparr>drift_reports := drift_reports db @ reports\<rparr>))"

definition get_latest_drift_reports :: "nat \<Rightarrow> monitoring_db \<Rightarrow> drift_report list" where
  "get_latest_drift_reports limit db = take limit (newest_first computed_at (drift_reports db))"

section \<open>The retrain gate\<close>

record gate_config =
  psi_threshold :: rat
  mae_degradation_factor :: rat
  baseline_mae :: rat
  late_rate_threshold :: rat
  min_samples :: int
  cooldown_seconds :: rat

definition default_gate_config :: gate_config where
  "default_gate_config = \<lparr>psi_threshold = 1 / 5, mae_degradation_factor = 23 / 20, baseline_mae = 15 / 2,
     late_rate_threshold = 1 / 5, min_samples = 200, cooldown_seconds = 3600\<rparr>"

definition gate_config_of :: "gate_config option \<Rightarrow> gate_config" where
  "gate_config_of config = (case config of None \<Rightarrow> default_gate_config | Some c \<Rightarrow> c)"

record gate_answer =
  ga_triggered :: bool
  ga_reason :: string
  ga_details :: gate_details

text \<open>The four conditions.\<close>

definition drift_detected :: "drift_report list \<Rightarrow> bool" where
  "drift_detected reports \<longleftrightarrow> length (filter is_drifted reports) > 0"

definition perf_degraded :: "gate_config \<Rightarrow> performance_metrics \<Rightarrow> bool" where
  "perf_degraded config p \<longleftrightarrow>
     mae p > baseline_mae config * mae_degradation_factor config \<or> late_rate p > late_rate_threshold config"

definition enough_samples :: "gate_config \<Rightarrow> performance_metrics \<Rightarrow> bool" where
  "enough_samples config p \<longleftrightarrow> int (labelled_count p) \<ge> min_samples config"

definition last_trigger :: "monitoring_db \<Rightarrow> retrain_decision option" where
  "last_trigger db =
     (case newest_first decided_at (filter (\<lambda>d. gate_result d = TRIGGERED) (retrain_decisions db)) of
        [] \<Rightarrow> None | d # ds \<Rightarrow> Some d)"

definition cooldown_ok :: "gate_config \<Rightarrow> time \<Rightarrow> monitoring_db \<Rightarrow> bool outcome" where
  "cooldown_ok config now db =
     (case last_trigger db of
        None \<Rightarrow> Inr True
      | Some d \<Rightarrow>
          (case seconds_since now (decided_at d) of
             Inl e \<Rightarrow> Inl e
           | Inr elapsed \<Rightarrow> Inr (elapsed \<ge> cooldown_seconds config)))"

text \<open>
  The reason: \<^verbatim>\<open>:.2f\<close>, \<^verbatim>\<open>:.2%\<close> and the printed list of feature names (names of printable characters
  without quotes or backslashes).
\<close>

definition fixed2 :: "rat \<Rightarrow> string" where
  "fixed2 x =
     (let c = nat \<bar>round_half_even (x * 100)\<bar>
      in (if x < 0 then ''-'' else []) @ nat_str (c div 100) @ ''.'' @ nat_str (c div 10 mod 10) @ nat_str (c mod 10))"

definition percent2 :: "rat \<Rightarrow> string" where
  "percent2 x = fixed2 (x * 100) @ ''%''"

definition int_str :: "int \<Rightarrow> string" where
  "int_str i = (if i < 0 then ''-'' else []) @ nat_str (nat \<bar>i\<bar>)"

definition names_str :: "string list \<Rightarrow> string" where
  "names_str ns = ''['' @ py_join '', '' (map (\<lambda>n. [CHR 0x27] @ n @ [CHR 0x27]) ns) @ '']''"

definition suppressions :: "gate_config \<Rightarrow> performance_metrics \<Rightarrow> bool \<Rightarrow> bool \<Rightarrow> bool \<Rightarrow> bool \<Rightarrow> string list" where
  "suppressions config p drift perf enough cool =
     (if drift then [] else [''no significant drift detected'']) @
     (if perf then []
      else [''performance within bounds (MAE='' @ fixed2 (mae p) @ '', late_rate='' @ percent2 (late_rate p) @ '')'']) @
     (if enough then []
      else [''insufficient samples ('' @ nat_str (labelled_count p) @ ''/'' @ int_str (min_samples config) @ '')'']) @
     (if cool then [] else [''cooldown not elapsed''])"

definition reason_of :: "bool \<Rightarrow> string list \<Rightarrow> performance_metrics \<Rightarrow> string list \<Rightarrow> string" where
  "reason_of triggered names p reasons =
     (if triggered then
        ''TRIGGERED: drift on '' @ names_str names @ '', MAE='' @ fixed2 (mae p) @ '', late_rate='' @ percent2 (late_rate p)
      else ''SUPPRESSED: '' @ py_join ''; '' reasons)"

definition evaluate_gate ::
  "call_env \<Rightarrow> drift_report list \<Rightarrow>
   performance_metrics \<Rightarrow> gate_config option \<Rightarrow> monitoring_db \<Rightarrow> gate_answer outcome \<times> monitoring_db" where
  "evaluate_gate env reports p config db =
     (let config = gate_config_of config;
          drift = drift_detected reports;
          perf = perf_degraded config p;
          enough = enough_samples config p
      in (case cooldown_ok config (env_now env) db of
            Inl e \<Rightarrow> (Inl e, db)
          | Inr cool \<Rightarrow>
              let triggered = (drift \<and> perf \<and> enough \<and> cool);
                  names = map feature_name (filter is_drifted reports);
                  reason = reason_of triggered names p (suppressions config p drift perf enough cool);
                  details = \<lparr>gd_drift_detected = drift, gd_drifted_features = names, gd_mae = mae p, gd_late_rate = late_rate p,
                             gd_interval_coverage = interval_coverage p, gd_labelled_count = labelled_count p,
                             gd_cooldown_ok = cool, gd_mae_threshold = baseline_mae config * mae_degradation_factor config,
                             gd_late_rate_threshold = late_rate_threshold config\<rparr>;
                  row = \<lparr>decision_id = ''GATE-'' @ env_uuid env, rd_drift_detected = drift, rd_perf_degraded = perf,
                         rd_sample_count = labelled_count p, rd_cooldown_ok = cool,
                         gate_result = (if triggered then TRIGGERED else SUPPRESSED), rd_reason = reason, rd_details = details,
                         decided_at = Aware (env_now env)\<rparr>
              in (Inr \<lparr>ga_triggered = triggered, ga_reason = reason, ga_details = details\<rparr>,
                  db\<lparr>retrain_decisions := retrain_decisions db @ [row]\<rparr>)))"

section \<open>Endpoints\<close>

definition log_prediction_endpoint :: "(stamp \<Rightarrow> stamp) \<Rightarrow> call_env \<Rightarrow> log_prediction_request \<Rightarrow> monitoring_db \<Rightarrow> string outcome \<times> monitoring_db" where
  "log_prediction_endpoint load env req = monitoring_session load (log_prediction env req)"

definition log_actual_endpoint ::
  "(stamp \<Rightarrow> stamp) \<Rightarrow> call_env \<Rightarrow> string \<Rightarrow> rat \<Rightarrow> monitoring_db \<Rightarrow> prediction_log outcome \<times> monitoring_db" where
  "log_actual_endpoint load env oid actual =
     monitoring_session load
       (\<lambda>db. case join_actual (env_now env) oid actual db of
               (Inl e, db') \<Rightarrow> (Inl e, db')
             | (Inr None, db') \<Rightarrow> (Inl (HTTPException 404 (''No unmatched prediction found for order '' @ oid)), db')
             | (Inr (Some r), db') \<Rightarrow> (Inr r, db'))"

definition drift_check_endpoint ::
  "(stamp \<Rightarrow> stamp) \<Rightarrow> numpy \<Rightarrow> (nat \<Rightarrow> call_env) \<Rightarrow> (string \<times> real list) list \<Rightarrow> (string \<times> real list) list \<Rightarrow> real \<Rightarrow> monitoring_db \<Rightarrow>
   drift_report list outcome \<times> monitoring_db" where
  "drift_check_endpoint load np envs reference current threshold db =
     (if 0 \<le> threshold \<and> threshold \<le> 1 then monitoring_session load (run_drift_check np envs reference current threshold) db
      else (Inl (HTTPException 422 ''threshold''), db))"

definition evaluate_gate_endpoint ::
  "(stamp \<Rightarrow> stamp) \<Rightarrow> call_env \<Rightarrow> gate_config option \<Rightarrow>
   monitoring_db \<Rightarrow> gate_answer outcome \<times> monitoring_db" where
  "evaluate_gate_endpoint load env config =
     monitoring_session load
       (\<lambda>db. evaluate_gate env (get_latest_drift_reports 20 db) (compute_rolling_metrics 200 db) config db)"

definition performance_endpoint :: "monitoring_db \<Rightarrow> performance_metrics" where
  "performance_endpoint db = compute_rolling_metrics 200 db"

definition drift_report_endpoint :: "monitoring_db \<Rightarrow> drift_report list" where
  "drift_report_endpoint db = get_latest_drift_reports 20 db"

definition retrain_decisions_endpoint :: "monitoring_db \<Rightarrow> retrain_decision list" where
  "retrain_decisions_endpoint db = take 20 (newest_first decided_at (retrain_decisions db))"

section \<open>The stability index\<close>

lemma psi_term_nonneg:
  fixes a b :: real
  assumes "0 < a" and "0 < b"
  shows "0 \<le> (a - b) * ln (a / b)" and "(a - b) * ln (a / b) = 0 \<longleftrightarrow> a = b"
    and "(b - a) * ln (b / a) = (a - b) * ln (a / b)"
proof -
  show "0 \<le> (a - b) * ln (a / b)"
  proof (cases "b \<le> a")
    case True
    with assms show ?thesis by (intro mult_nonneg_nonneg) simp_all
  next
    case False
    with assms have "ln (a / b) \<le> 0" by simp
    with False show ?thesis by (intro mult_nonpos_nonpos) simp_all
  qed
  show "(a - b) * ln (a / b) = 0 \<longleftrightarrow> a = b" using assms by auto
  show "(b - a) * ln (b / a) = (a - b) * ln (a / b)" using assms by (simp add: ln_div algebra_simps)
qed

lemma smoothed_pos:
  assumes "0 < epsilon" and "0 < bins" and "x \<in> set (smoothed np edges bins epsilon xs)"
  shows "0 < x"
  using assms by (auto simp: smoothed_def proportions_def intro!: divide_pos_pos add_nonneg_pos)

definition psi_sum :: "real list \<Rightarrow> real list \<Rightarrow> real" where
  "psi_sum cur ref = sum_list (map2 (\<lambda>c r. (c - r) * ln (c / r)) cur ref)"

lemma psi_sum_nonneg:
  assumes "\<forall>x \<in> set cur. 0 < x" and "\<forall>x \<in> set ref. 0 < x"
  shows "0 \<le> psi_sum cur ref"
  unfolding psi_sum_def using assms by (intro sum_list_nonneg) (auto dest: set_zip_leftD set_zip_rightD intro: psi_term_nonneg(1))

lemma psi_sum_Cons: "psi_sum (c # cur) (r # ref) = (c - r) * ln (c / r) + psi_sum cur ref"
  by (simp add: psi_sum_def)

lemma psi_sum_sym:
  assumes "length cur = length ref" and "\<forall>x \<in> set cur. 0 < x" and "\<forall>x \<in> set ref. 0 < x"
  shows "psi_sum ref cur = psi_sum cur ref"
  using assms
proof (induction cur ref rule: list_induct2)
  case (Cons c cur r ref)
  then show ?case using psi_term_nonneg(3) [of c r] by (simp add: psi_sum_Cons)
qed simp

lemma psi_sum_zero:
  assumes "length cur = length ref" and "\<forall>x \<in> set cur. 0 < x" and "\<forall>x \<in> set ref. 0 < x"
  shows "psi_sum cur ref = 0 \<longleftrightarrow> cur = ref"
  using assms
proof (induction cur ref rule: list_induct2)
  case (Cons c cur r ref)
  then have "0 \<le> psi_sum cur ref" by (intro psi_sum_nonneg) auto
  moreover have "0 \<le> (c - r) * ln (c / r)" using Cons.prems by (intro psi_term_nonneg(1)) auto
  moreover have "(c - r) * ln (c / r) = 0 \<longleftrightarrow> c = r" using Cons.prems by (intro psi_term_nonneg(2)) auto
  ultimately show ?case using Cons by (auto simp: psi_sum_Cons add_nonneg_eq_0_iff)
qed (simp add: psi_sum_def)

lemma raw_psi_sum:
  "raw_psi np reference current bins epsilon =
     psi_sum (smoothed np (breakpoints np bins reference current) bins epsilon current)
             (smoothed np (breakpoints np bins reference current) bins epsilon reference)"
  by (simp add: raw_psi_def psi_sum_def Let_def)

lemma breakpoints_sym: "breakpoints np bins reference current = breakpoints np bins current reference"
  by (simp add: breakpoints_def min.commute max.commute)

lemma smoothed_length:
  "one_count_per_bin np \<Longrightarrow> length (smoothed np edges bins epsilon xs) = length (smoothed np edges bins epsilon ys)"
  by (simp add: smoothed_def proportions_def one_count_per_bin_def)

section \<open>The gate\<close>

lemma newest_first_hd:
  assumes "newest_first col rows = r # rs"
  shows "r \<in> set rows" and "\<forall>x \<in> set rows. stamp_time (col x) \<le> stamp_time (col r)"
proof -
  have set: "set (newest_first col rows) = set rows" by (simp add: newest_first_def)
  then show "r \<in> set rows" using assms by auto
  have "sorted (map (\<lambda>r. - stamp_time (col r)) (r # rs))"
    using assms sorted_sort_key [of "\<lambda>r. - stamp_time (col r)" rows] by (simp add: newest_first_def)
  then show "\<forall>x \<in> set rows. stamp_time (col x) \<le> stamp_time (col r)"
    unfolding set [symmetric] assms by auto
qed

abbreviation triggers :: "monitoring_db \<Rightarrow> retrain_decision list" where
  "triggers db \<equiv> filter (\<lambda>d. gate_result d = TRIGGERED) (retrain_decisions db)"

lemma last_trigger_Some:
  assumes "last_trigger db = Some d"
  shows "d \<in> set (triggers db)" and "\<forall>x \<in> set (triggers db). stamp_time (decided_at x) \<le> stamp_time (decided_at d)"
  using assms newest_first_hd [of decided_at "triggers db" d] by (auto simp: last_trigger_def split: list.splits)

lemma last_trigger_None: "last_trigger db = None \<longleftrightarrow> triggers db = []"
  by (auto simp: last_trigger_def newest_first_def split: list.splits) (metis length_0_conv length_sort)

text \<open>An evaluation that gets past the clock appends one row, which records its answer.\<close>

lemma evaluate_gate_row:
  assumes "cooldown_ok (gate_config_of config) (env_now env) db = Inr cool"
  shows "\<exists>row a. evaluate_gate env reports p config db = (Inr a, db\<lparr>retrain_decisions := retrain_decisions db @ [row]\<rparr>) \<and>
     decided_at row = Aware (env_now env) \<and> ga_reason a = rd_reason row \<and> ga_details a = rd_details row \<and>
     ga_triggered a = (gate_result row = TRIGGERED) \<and>
     gate_result row = (if drift_detected reports \<and> perf_degraded (gate_config_of config) p \<and>
       enough_samples (gate_config_of config) p \<and> cool then TRIGGERED else SUPPRESSED)"
  unfolding evaluate_gate_def Let_def assms by (simp split del: if_split) (intro exI conjI, rule refl, simp_all)

text \<open>Evaluations made one after the other in one session.\<close>

type_synonym gate_call = "call_env \<times> drift_report list \<times> performance_metrics \<times> gate_config option"

definition gate_step ::
  "monitoring_db \<Rightarrow> gate_call \<Rightarrow>
   gate_answer outcome \<times> monitoring_db" where
  "gate_step db q = evaluate_gate (fst q) (fst (snd q)) (fst (snd (snd q))) (snd (snd (snd q))) db"

definition gate_cooldown :: "gate_config option \<Rightarrow> rat" where
  "gate_cooldown config = cooldown_seconds (gate_config_of config)"

text \<open>Triggers are at least \<open>c\<close> seconds apart.\<close>

definition spaced :: "rat \<Rightarrow> monitoring_db \<Rightarrow> bool" where
  "spaced c db \<longleftrightarrow> (\<forall>d \<in> set (triggers db). \<exists>t. decided_at d = Aware t) \<and>
     sorted_wrt (\<lambda>a b. stamp_time (decided_at a) + c \<le> stamp_time (decided_at b)) (triggers db)"

lemma gate_step_spaced:
  assumes "spaced c db" and "c \<le> gate_cooldown (snd (snd (snd q)))"
  shows "spaced c (snd (gate_step db q))"
proof -
  obtain env reports p config where q: "q = (env, reports, p, config)" by (metis prod_cases4)
  let ?config = "gate_config_of config"
  show ?thesis
  proof (cases "cooldown_ok ?config (env_now env) db")
    case (Inl e)
    with assms(1) show ?thesis by (simp add: q gate_step_def evaluate_gate_def Let_def)
  next
    case (Inr cool)
    have new: "\<forall>d \<in> set (triggers db). stamp_time (decided_at d) + c \<le> env_now env" if "cool"
    proof (cases "last_trigger db")
      case None
      then have "triggers db = []" by (simp only: last_trigger_None)
      then show ?thesis by simp
    next
      case (Some d)
      note last = last_trigger_Some [OF Some]
      then obtain t where t: "decided_at d = Aware t" using assms(1) by (auto simp: spaced_def)
      have "cooldown_seconds ?config \<le> env_now env - t" using Inr Some t that by (simp add: cooldown_ok_def)
      then have "t + c \<le> env_now env" using assms(2) by (simp add: q gate_cooldown_def)
      with last(2) t show ?thesis by fastforce
    qed
    obtain row where row: "snd (gate_step db q) = db\<lparr>retrain_decisions := retrain_decisions db @ [row]\<rparr>"
      "decided_at row = Aware (env_now env)" "gate_result row = TRIGGERED \<longrightarrow> cool"
      using evaluate_gate_row [OF Inr, of reports p] unfolding q gate_step_def fst_conv snd_conv
      by (elim exE conjE) (auto split: if_splits)
    show ?thesis
      using assms(1) new row by (auto simp: spaced_def sorted_wrt_append)
  qed
qed

section \<open>The service\<close>

text \<open>Everything the endpoints can do to the database.\<close>

datatype monitoring_op =
    LogPrediction call_env log_prediction_request
  | LogActual call_env string rat
  | DriftCheck "nat \<Rightarrow> call_env" "(string \<times> real list) list" "(string \<times> real list) list" real
  | EvaluateGate call_env "gate_config option"

fun monitoring_step ::
  "(stamp \<Rightarrow> stamp) \<Rightarrow> numpy \<Rightarrow> monitoring_db \<Rightarrow> monitoring_op \<Rightarrow>
   unit outcome \<times> monitoring_db" where
  "monitoring_step load np db (LogPrediction env req) = map_prod (map_sum id (\<lambda>_. ())) id (log_prediction_endpoint load env req db)"
| "monitoring_step load np db (LogActual env oid a) = map_prod (map_sum id (\<lambda>_. ())) id (log_actual_endpoint load env oid a db)"
| "monitoring_step load np db (DriftCheck envs r c t) = map_prod (map_sum id (\<lambda>_. ())) id (drift_check_endpoint load np envs r c t db)"
| "monitoring_step load np db (EvaluateGate env config) =
     map_prod (map_sum id (\<lambda>_. ())) id (evaluate_gate_endpoint load env config db)"

text \<open>A gate that asks for at least one labelled sample.\<close>

fun asks_samples :: "monitoring_op \<Rightarrow> bool" where
  "asks_samples (EvaluateGate env (Some c)) \<longleftrightarrow> 1 \<le> min_samples c"
| "asks_samples op \<longleftrightarrow> True"

definition unlabelled_db :: "monitoring_db \<Rightarrow> bool" where
  "unlabelled_db db \<longleftrightarrow>
     (\<forall>r \<in> set (prediction_logs db). (\<exists>t. predicted_at r = Naive t) \<and> actual_minutes r = None) \<and>
     (\<forall>d \<in> set (retrain_decisions db). gate_result d = SUPPRESSED)"

lemma unlabelled_reloaded:
  assumes "drops_time_zone load"
    and "\<forall>r \<in> set (prediction_logs db). actual_minutes r = None" and "\<forall>d \<in> set (retrain_decisions db). gate_result d = SUPPRESSED"
  shows "unlabelled_db (reloaded load db)"
  using assms by (auto simp: unlabelled_db_def reloaded_def drops_time_zone_def)

lemma session_unlabelled:
  assumes "drops_time_zone load" and "unlabelled_db db"
    and "\<And>r db'. body db = (Inr r, db') \<Longrightarrow>
      (\<forall>r \<in> set (prediction_logs db'). actual_minutes r = None) \<and> (\<forall>d \<in> set (retrain_decisions db'). gate_result d = SUPPRESSED)"
  shows "unlabelled_db (snd (monitoring_session load body db))"
proof (cases "get_session monitoring_ok body db")
  case (Pair r db')
  have "(\<forall>r \<in> set (prediction_logs db'). actual_minutes r = None) \<and> (\<forall>d \<in> set (retrain_decisions db'). gate_result d = SUPPRESSED)"
  proof (cases r)
    case (Inl e)
    have "db' = db" by (rule get_session_error [OF Pair [unfolded Inl]])
    with assms(2) show ?thesis by (simp add: unlabelled_db_def)
  next
    case (Inr x)
    with Pair have "body db = (Inr x, db')" by (simp add: get_session_commit)
    from assms(3) [OF this] show ?thesis .
  qed
  with Pair show ?thesis by (simp add: monitoring_session_def unlabelled_reloaded assms(1))
qed

lemma no_labels:
  assumes "unlabelled_db db"
  shows "labelled_count (compute_rolling_metrics n db) = 0"
proof -
  have "filter labelled (prediction_logs db) = []"
    using assms by (auto simp: unlabelled_db_def labelled_def filter_empty_conv)
  then show ?thesis by (simp add: compute_rolling_metrics_def get_labelled_predictions_def newest_first_def)
qed

lemma join_actual_naive:
  assumes "unlabelled_db db"
  shows "join_actual now oid a db = (Inr None, db) \<or> (\<exists>m db'. join_actual now oid a db = (Inl (TypeError m), db'))"
proof (cases "find (unlabelled oid) (prediction_logs db)")
  case None
  then show ?thesis by (simp add: join_actual_def)
next
  case (Some r)
  then have "r \<in> set (prediction_logs db)" by (simp add: find_SomeD)
  with assms obtain t where "predicted_at r = Naive t" by (auto simp: unlabelled_db_def)
  with Some show ?thesis by (simp add: join_actual_def Let_def)
qed

lemma monitoring_step_unlabelled:
  assumes "drops_time_zone load" and "unlabelled_db db" and "asks_samples op"
  shows "unlabelled_db (snd (monitoring_step load np db op))"
proof (cases op)
  case (LogPrediction env req)
  have "unlabelled_db (snd (log_prediction_endpoint load env req db))"
    unfolding log_prediction_endpoint_def
    by (rule session_unlabelled [OF assms(1,2)]) (use assms(2) in \<open>auto simp: log_prediction_def Let_def unlabelled_db_def\<close>)
  with LogPrediction show ?thesis by simp
next
  case (LogActual env oid a)
  have "unlabelled_db (snd (log_actual_endpoint load env oid a db))"
    unfolding log_actual_endpoint_def
    by (rule session_unlabelled [OF assms(1,2)]) (use join_actual_naive [OF assms(2), of "env_now env" oid a] in auto)
  with LogActual show ?thesis by simp
next
  case (DriftCheck envs r c t)
  have "unlabelled_db (snd (monitoring_session load (run_drift_check np envs r c t) db))"
    by (rule session_unlabelled [OF assms(1,2)]) (use assms(2) in \<open>auto simp: run_drift_check_def Let_def unlabelled_db_def\<close>)
  with DriftCheck assms(2) show ?thesis by (simp add: drift_check_endpoint_def)
next
  case (EvaluateGate env config)
  have few: "\<not> enough_samples (gate_config_of config) (compute_rolling_metrics 200 db)"
    using assms EvaluateGate
    by (auto simp: enough_samples_def no_labels default_gate_config_def gate_config_of_def split: option.splits)
  have "unlabelled_db (snd (evaluate_gate_endpoint load env config db))"
    unfolding evaluate_gate_endpoint_def
    by (rule session_unlabelled [OF assms(1,2)])
      (use assms(2) few in \<open>auto simp: evaluate_gate_def Let_def unlabelled_db_def split: sum.splits\<close>)
  with EvaluateGate show ?thesis by simp
qed

definition empty_monitoring :: monitoring_db where
  "empty_monitoring = \<lparr>prediction_logs = [], drift_reports = [], retrain_decisions = []\<rparr>"

interpretation served: guarded_service "monitoring_step load np" asks_samples "\<lambda>db. drops_time_zone load \<and> unlabelled_db db"
  by unfold_locales (simp add: monitoring_step_unlabelled)

lemma monitoring_run_unlabelled:
  assumes "drops_time_zone load" and "list_all asks_samples ops"
  shows "unlabelled_db (run (monitoring_step load np) empty_monitoring ops)"
  using served.run_inv [of load empty_monitoring ops np] assms by (simp add: unlabelled_db_def empty_monitoring_def)

lemma log_actual_type_error:
  assumes "unlabelled_db db" and "r \<in> set (prediction_logs db)"
  shows "\<exists>m. fst (log_actual_endpoint load env (pl_order_id r) a db) = Inl (TypeError m)"
proof -
  have "unlabelled (pl_order_id r) r" using assms by (simp add: unlabelled_def unlabelled_db_def)
  with assms(2) have "find (unlabelled (pl_order_id r)) (prediction_logs db) \<noteq> None" unfolding find_None_iff by blast
  then obtain x where x: "find (unlabelled (pl_order_id r)) (prediction_logs db) = Some x" by blast
  then have "x \<in> set (prediction_logs db)" by (simp add: find_SomeD)
  with assms(1) obtain t where "predicted_at x = Naive t" by (auto simp: unlabelled_db_def)
  with x show ?thesis
    by (simp add: log_actual_endpoint_def monitoring_session_def get_session_def join_actual_def Let_def)
qed

lemma evaluate_gate_same_session:
  assumes "\<forall>d \<in> set (triggers db). \<exists>t. decided_at d = Aware t"
  shows "cooldown_ok config now db =
    Inr (\<forall>d \<in> set (triggers db). cooldown_seconds config \<le> now - stamp_time (decided_at d))"
proof (cases "last_trigger db")
  case None
  then have "triggers db = []" by (simp only: last_trigger_None)
  with None show ?thesis by (simp add: cooldown_ok_def)
next
  case (Some d)
  note last = last_trigger_Some [OF Some]
  with assms obtain t where t: "decided_at d = Aware t" by blast
  have "(\<forall>x \<in> set (triggers db). cooldown_seconds config \<le> now - stamp_time (decided_at x)) \<longleftrightarrow> cooldown_seconds config \<le> now - t"
    using last t by fastforce
  with Some t show ?thesis by (simp add: cooldown_ok_def)
qed

interpretation gate: guarded_service gate_step "\<lambda>q. c \<le> gate_cooldown (snd (snd (snd q)))" "spaced c"
  by unfold_locales (rule gate_step_spaced)

lemma gate_run_spaced:
  assumes "\<forall>q \<in> set qs. c \<le> gate_cooldown (snd (snd (snd q)))"
  shows "spaced c (run gate_step empty_monitoring qs)"
  using assms by (intro gate.run_inv) (simp_all add: spaced_def empty_monitoring_def list_all_iff)

lemma py_round_nonneg:
  fixes x :: rat
  shows "0 \<le> x \<Longrightarrow> 0 \<le> py_round n x"
  using py_round_mono [of 0 x n] py_round_of_int [of n 0, where ?'a = rat] by simp

lemma py_round_le_1:
  fixes x :: rat
  shows "x \<le> 1 \<Longrightarrow> py_round n x \<le> 1"
  using py_round_mono [of x 1 n] py_round_of_int [of n 1, where ?'a = rat] by simp

lemma fraction_round:
  assumes "a \<le> b"
  shows "0 \<le> py_round n (of_nat a / of_nat b :: rat)" and "py_round n (of_nat a / of_nat b :: rat) \<le> 1"
  using assms by (auto intro!: py_round_nonneg py_round_le_1 simp: divide_le_eq_1)

text \<open>An instance of the parameters: evenly spaced edges, half-open bins, the last one closed.\<close>

definition plain_numpy :: numpy where
  "plain_numpy =
     \<lparr>np_linspace = (\<lambda>lo hi n. map (\<lambda>i. lo + of_nat i * ((hi - lo) / (of_nat n - 1))) [0..<n]),
      np_histogram = (\<lambda>xs edges. map (\<lambda>i. length (filter (\<lambda>x. edges ! i \<le> x \<and>
        (if Suc (Suc i) = length edges then x \<le> edges ! Suc i else x < edges ! Suc i)) xs)) [0..<length edges - 1])\<rparr>"

lemma plain_numpy_counts: "one_count_per_bin plain_numpy"
  by (simp add: one_count_per_bin_def plain_numpy_def)

section \<open>Properties\<close>



text \<open>
  Evaluated any number of times in one session, from no decisions, with cooldowns of at least \<open>c\<close>, the
  gate never triggers twice within \<open>c\<close> seconds.
\<close>

theorem gate_no_thrash:
  assumes "\<forall>q \<in> set qs. c \<le> gate_cooldown (snd (snd (snd q)))"
  shows "sorted_wrt (\<lambda>a b. stamp_time (decided_at a) + c \<le> stamp_time (decided_at b))
    (triggers (run gate_step empty_monitoring qs))"
  using gate_run_spaced [OF assms] by (simp add: spaced_def)

theorem gate_no_thrash_witness:
  "let q = (\<lambda>t. (\<lparr>env_uuid = ''A1'', env_random = 0, env_now = t\<rparr>, [],
                \<lparr>mae = 9, late_rate = 0, interval_coverage = 1, sample_count = 300, labelled_count = 200\<rparr>, None))
   in sorted_wrt (\<lambda>a b. stamp_time (decided_at a) + 3600 \<le> stamp_time (decided_at b))
        (triggers (run gate_step empty_monitoring [q 0, q 10, q 4000]))"
  unfolding Let_def by (rule gate_no_thrash) (simp add: gate_cooldown_def gate_config_of_def default_gate_config_def)

text \<open>
  Served by its endpoints, each in a session of its own, the monitor never labels a prediction and
  never triggers a retraining, whatever the order and the contents of the requests (given that a gate
  configuration asks for at least one labelled sample): joining an actual delivery time to a logged
  prediction always raises a type error, because the time zone of the stored time stamp is gone.
\<close>

theorem endpoints_never_trigger:
  assumes "drops_time_zone load" and "list_all asks_samples ops" and "db = run (monitoring_step load np) empty_monitoring ops"
  shows "(\<forall>d \<in> set (retrain_decisions db). gate_result d = SUPPRESSED) \<and>
    (\<forall>r \<in> set (prediction_logs db). actual_minutes r = None \<and>
       (\<exists>m. fst (log_actual_endpoint load env (pl_order_id r) a db) = Inl (TypeError m)))"
proof -
  have inv: "unlabelled_db db" unfolding assms(3) by (rule monitoring_run_unlabelled [OF assms(1,2)])
  have "\<exists>m. fst (log_actual_endpoint load env (pl_order_id r) a db) = Inl (TypeError m)" if "r \<in> set (prediction_logs db)" for r
    by (rule log_actual_type_error [OF inv that])
  with inv show ?thesis by (auto simp: unlabelled_db_def)
qed

theorem endpoints_never_trigger_witness:
  "let env = \<lparr>env_uuid = ''A1'', env_random = 0, env_now = 5000\<rparr>;
       req = \<lparr>lp_order_id = ''O1'', lp_model_version = ''1.0.0'', lp_schema_version = ''1.0.0'', lp_input_features = [],
              lp_eta_minutes = 20, lp_lower_bound = None, lp_upper_bound = None, lp_degraded = False, lp_correlation_id = None\<rparr>;
       load = (\<lambda>s. Naive (stamp_time s));
       ops = [LogPrediction env req, EvaluateGate env None];
       db = run (monitoring_step load plain_numpy) empty_monitoring ops
   in drops_time_zone load \<and> list_all asks_samples ops \<and> (\<forall>d \<in> set (retrain_decisions db). gate_result d = SUPPRESSED)"
  unfolding Let_def
  by (intro conjI, simp add: drops_time_zone_def, simp, rule conjunct1 [OF endpoints_never_trigger [OF _ _ refl]])
    (simp_all add: drops_time_zone_def)

text \<open>
  C33: The stability index of two samples with at least as many values as bins is symmetric, never
  negative (so the final clamp changes nothing) and zero exactly when the two smoothed histograms are
  the same.
\<close>

theorem psi_is_divergence:
  assumes "one_count_per_bin np" and "0 < epsilon" and "0 < bins" and "bins \<le> length reference" and "bins \<le> length current"
  shows "compute_psi np reference current bins epsilon = raw_psi np reference current bins epsilon \<and>
    compute_psi np reference current bins epsilon = compute_psi np current reference bins epsilon \<and>
    0 \<le> compute_psi np reference current bins epsilon \<and>
    (compute_psi np reference current bins epsilon = 0 \<longleftrightarrow>
      smoothed np (breakpoints np bins reference current) bins epsilon current =
      smoothed np (breakpoints np bins reference current) bins epsilon reference)"
proof -
  let ?e = "breakpoints np bins reference current"
  let ?c = "smoothed np ?e bins epsilon current" and ?r = "smoothed np ?e bins epsilon reference"
  have len: "length ?c = length ?r" by (rule smoothed_length [OF assms(1)])
  have pos: "\<forall>x \<in> set ?c. 0 < x" "\<forall>x \<in> set ?r. 0 < x" using smoothed_pos [OF assms(2,3)] by blast+
  have "raw_psi np reference current bins epsilon = psi_sum ?c ?r" "raw_psi np current reference bins epsilon = psi_sum ?r ?c"
    by (simp_all only: raw_psi_sum breakpoints_sym [of np bins current reference])
  with psi_sum_nonneg [OF pos] psi_sum_sym [OF len pos] psi_sum_zero [OF len pos] assms(4,5) show ?thesis
    by (simp add: compute_psi_def)
qed

theorem psi_is_divergence_witness:
  "one_count_per_bin plain_numpy \<and>
   0 \<le> compute_psi plain_numpy (replicate 10 0) (replicate 10 1) 10 DEFAULT_EPSILON \<and>
   compute_psi plain_numpy (replicate 10 0) (replicate 10 1) 10 DEFAULT_EPSILON =
   compute_psi plain_numpy (replicate 10 1) (replicate 10 0) 10 DEFAULT_EPSILON"
  using psi_is_divergence [OF plain_numpy_counts, of DEFAULT_EPSILON 10 "replicate 10 0" "replicate 10 1"] plain_numpy_counts
  by simp

text \<open>
  The rolling metrics are well-formed whatever the table holds: the error is not negative, the two
  rates lie between 0 and 1 also after rounding, and at most as many labelled predictions as predictions
  are counted, at most the window.
\<close>

theorem rolling_metrics_bounds:
  "0 \<le> mae (compute_rolling_metrics n db) \<and>
   0 \<le> late_rate (compute_rolling_metrics n db) \<and> late_rate (compute_rolling_metrics n db) \<le> 1 \<and>
   0 \<le> interval_coverage (compute_rolling_metrics n db) \<and> interval_coverage (compute_rolling_metrics n db) \<le> 1 \<and>
   labelled_count (compute_rolling_metrics n db) \<le> sample_count (compute_rolling_metrics n db) \<and>
   sample_count (compute_rolling_metrics n db) \<le> n"
proof -
  let ?rows = "get_labelled_predictions n db"
  let ?w = "filter has_interval ?rows"
  let ?P = "\<lambda>r. in_interval (lower_bound r) (upper_bound r) (actual_of r)"
  have err: "0 \<le> py_round 4 (sum_list (map (\<lambda>r. \<bar>actual_of r - pl_eta_minutes r\<bar>) ?rows) / of_nat (length ?rows))"
    by (intro py_round_nonneg divide_nonneg_nonneg sum_list_nonneg) auto
  have late: "length (filter is_late ?rows) \<le> length ?rows" and cov: "length (filter ?P ?w) \<le> length ?w"
    by (rule length_filter_le)+
  have count: "length ?rows \<le> length (get_recent_predictions n db)" "length (get_recent_predictions n db) \<le> n"
    by (auto simp: get_labelled_predictions_def get_recent_predictions_def newest_first_def min_def le_trans [OF length_filter_le])
  show ?thesis
    using err fraction_round [OF late, of 4] fraction_round [OF cov, of 4] count py_round_of_int [of 4 0, where ?'a = rat]
    by (auto simp: compute_rolling_metrics_def Let_def)
qed

end
