(* ===== verification/Tools.thy ===== *)
theory Tools
  imports Monitoring Http_Adapters
begin

text \<open>
  The command line tools: the drift injector, \<^verbatim>\<open>tools/drift_injector.py\<close>, which writes labelled predictions
  straight into the monitoring database, and the traffic simulator, \<^verbatim>\<open>tools/simulator.py\<close>, which replays orders
  against the orchestrator and counts the outcomes. What \<^verbatim>\<open>random\<close> draws is an argument.
\<close>

section \<open>Scenarios\<close>

text \<open>The draws of one set of features; the last four are made by the shifted scenarios only.\<close>

record feature_draws =
  fd_age :: rat
  fd_ratings :: rat
  fd_distance :: rat
  fd_weather :: string
  fd_traffic :: string
  fd_city :: string
  fd_order :: string
  fd_vehicle :: string
  fd_weather2 :: string
  fd_traffic2 :: string
  fd_ratings2 :: rat
  fd_distance2 :: rat

record sim_features =
  sf_age :: rat
  sf_ratings :: rat
  sf_distance :: rat
  sf_weather :: string
  sf_traffic :: string
  sf_city_type :: string
  sf_type_of_order :: string
  sf_type_of_vehicle :: string

definition generate_normal_features :: "feature_draws \<Rightarrow> sim_features" where
  "generate_normal_features d =
     \<lparr>sf_age = py_round 1 (fd_age d), sf_ratings = py_round 1 (min 5 (max 1 (fd_ratings d))),
      sf_distance = py_round 1 (max 1 (fd_distance d)), sf_weather = fd_weather d, sf_traffic = fd_traffic d,
      sf_city_type = fd_city d, sf_type_of_order = fd_order d, sf_type_of_vehicle = fd_vehicle d\<rparr>"

definition generate_monsoon_features :: "feature_draws \<Rightarrow> sim_features" where
  "generate_monsoon_features d =
     (generate_normal_features d)\<lparr>sf_weather := fd_weather2 d, sf_distance := py_round 1 (max 1 (fd_distance2 d))\<rparr>"

definition generate_rush_hour_features :: "feature_draws \<Rightarrow> sim_features" where
  "generate_rush_hour_features d =
     (generate_normal_features d)\<lparr>sf_traffic := fd_traffic2 d, sf_ratings := py_round 1 (min 5 (max 1 (fd_ratings2 d)))\<rparr>"

definition generate_distance_shift_features :: "feature_draws \<Rightarrow> sim_features" where
  "generate_distance_shift_features d = (generate_normal_features d)\<lparr>sf_distance := py_round 1 (max 2 (fd_distance2 d))\<rparr>"

definition SCENARIOS :: "(string \<times> (feature_draws \<Rightarrow> sim_features)) list" where
  "SCENARIOS = [(''normal'', generate_normal_features), (''monsoon'', generate_monsoon_features),
     (''rush_hour'', generate_rush_hour_features), (''distance_shift'', generate_distance_shift_features)]"

section \<open>The drift injector\<close>

record eta_draws =
  ed_noise :: rat
  ed_below :: rat
  ed_above :: rat
  ed_late :: rat

definition generate_eta :: "sim_features \<Rightarrow> eta_draws \<Rightarrow> rat \<times> rat \<times> rat \<times> rat" where
  "generate_eta f d =
     (let traffic_impact = [(''low'', -3), (''medium'', 0), (''high'', 5), (''jam'', 12)];
          weather_impact = [(''sunny'', 0), (''cloudy'', 1), (''windy'', 2), (''fog'', 5), (''stormy'', 8)];
          impact = (\<lambda>m k. case map_of m k of Some x \<Rightarrow> x | None \<Rightarrow> (0 :: rat));
          base_eta = 25 + sf_distance f * (12 / 10) + impact traffic_impact (sf_traffic f) + impact weather_impact (sf_weather f);
          eta = max 10 (base_eta + ed_noise d);
          lower = max 5 (eta - ed_below d);
          upper = eta + ed_above d;
          actual = max 5 (eta + ed_late d)
      in (py_round 1 eta, py_round 1 lower, py_round 1 upper, py_round 1 actual))"

definition features_json :: "sim_features \<Rightarrow> json_dict" where
  "features_json f =
     [(''age'', JFloat (sf_age f)), (''ratings'', JFloat (sf_ratings f)), (''distance'', JFloat (sf_distance f)),
      (''weather'', JStr (sf_weather f)), (''traffic'', JStr (sf_traffic f)), (''city_type'', JStr (sf_city_type f)),
      (''type_of_order'', JStr (sf_type_of_order f)), (''type_of_vehicle'', JStr (sf_type_of_vehicle f))]"

text \<open>One iteration: its draws, its three uuids, the two clock readings and the simulated lag.\<close>

record inject_draws =
  id_features :: feature_draws
  id_eta :: eta_draws
  id_prediction :: string
  id_order :: string
  id_correlation :: string
  id_now :: time
  id_then :: time
  id_lag :: rat

definition injected_log :: "(feature_draws \<Rightarrow> sim_features) \<Rightarrow> inject_draws \<Rightarrow> prediction_log" where
  "injected_log generator d =
     (let features = generator (id_features d);
          (eta, lower, upper, actual) = generate_eta features (id_eta d)
      in \<lparr>prediction_id = ''PRED-'' @ id_prediction d, pl_order_id = ''ORD-SIM-'' @ id_order d,
          pl_correlation_id = Some (''CORR-'' @ id_correlation d), model_version = ''1.0.0'', feature_schema_version = ''1.0.0'',
          input_features = features_json features, pl_eta_minutes = eta, lower_bound = Some lower, upper_bound = Some upper,
          pl_degraded = False, predicted_at = Aware (id_now d), actual_minutes = Some actual,
          delivered_at = Some (Aware (id_then d)), label_lag_seconds = Some (id_lag d)\<rparr>)"

text \<open>\<^verbatim>\<open>str\<close> of a list of strings without quotes in them.\<close>

definition list_repr :: "string list \<Rightarrow> string" where
  "list_repr xs = ''['' @ py_join '', '' (map (\<lambda>x. [CHR 0x27] @ x @ [CHR 0x27]) xs) @ '']''"

definition inject_predictions :: "(stamp \<Rightarrow> stamp) \<Rightarrow> string \<Rightarrow> inject_draws list \<Rightarrow> monitoring_db \<Rightarrow> nat outcome \<times> monitoring_db" where
  "inject_predictions load scenario ds db =
     (case map_of SCENARIOS scenario of
        None \<Rightarrow> (Inl (ValueError (''Unknown scenario: '' @ scenario @ ''. Choose from: '' @ list_repr (map fst SCENARIOS))), db)
      | Some generator \<Rightarrow>
          monitoring_session load
            (\<lambda>db. (Inr (length ds), db\<lparr>prediction_logs := prediction_logs db @ map (injected_log generator) ds\<rparr>)) db)"

section \<open>The simulator\<close>

text \<open>The draws of one order: features, how many items of which number, and the two amounts' randomness.\<close>

record order_draws =
  od_uuid :: string
  od_features :: feature_draws
  od_items :: "nat list"
  od_chaos :: rat
  od_amount :: rat
  od_latitude :: rat
  od_longitude :: rat

definition order_data_of :: "order_draws \<Rightarrow> sim_features \<Rightarrow> json_dict" where
  "order_data_of d f =
     [(''delivery_person_age'', JInt (py_int (sf_age f))),
      (''delivery_person_ratings'', JFloat (sf_ratings f)),
      (''restaurant_latitude'', JFloat (129716 / 10000 + od_latitude d)),
      (''restaurant_longitude'', JFloat (775946 / 10000 + od_longitude d)),
      (''delivery_location_latitude'', JFloat (129716 / 10000 + sf_distance f * (9 / 1000))),
      (''delivery_location_longitude'', JFloat (775946 / 10000 + sf_distance f * (9 / 1000))),
      (''order_date'', JStr ''2026-08-18''),
      (''time_order_picked'', JStr ''19:30:00''),
      (''weather_conditions'', JStr (sf_weather f)),
      (''road_traffic_density'', JStr (sf_traffic f)),
      (''vehicle_condition'', JInt 2),
      (''type_of_order'', JStr (sf_type_of_order f)),
      (''type_of_vehicle'', JStr (sf_type_of_vehicle f)),
      (''city'', JStr (sf_city_type f))]"

definition generate_order_payload :: "string \<Rightarrow> order_draws \<Rightarrow> string \<times> string list \<times> rat \<times> json_dict" where
  "generate_order_payload scenario d =
     (let feature_gen = (case map_of SCENARIOS scenario of Some g \<Rightarrow> g | None \<Rightarrow> generate_normal_features);
          features = feature_gen (od_features d);
          total_amount = (if scenario = ''chaos'' \<and> od_chaos d < 3 / 10 then 15000 else py_round 2 (od_amount d))
      in (''ORD-'' @ od_uuid d, map (\<lambda>n. ''ITEM-'' @ nat_str n) (od_items d), total_amount, order_data_of d features))"

text \<open>The body of \<^verbatim>\<open>_saga_result\<close> as the orchestrator's endpoint sends it.\<close>

definition encode_saga_result :: "saga_result \<Rightarrow> json_dict" where
  "encode_saga_result r =
     [(''saga_id'', JStr (sr_saga_id r)), (''order_id'', JStr (sr_order_id r)), (''state'', JStr (saga_state_value (sr_state r))),
      (''payment_id'', sr_payment_id r), (''reservation_id'', sr_reservation_id r), (''refund_id'', sr_refund_id r),
      (''eta_minutes'', sr_eta_minutes r), (''eta_lower'', sr_eta_lower r), (''eta_upper'', sr_eta_upper r),
      (''degraded'', JBool (sr_degraded r)), (''error_reason'', sr_error_reason r)]"

text \<open>What the client's \<^verbatim>\<open>post\<close> does: a response with its body, if that is JSON, after some milliseconds, or an exception.\<close>

datatype post_reply = PostReply nat "json_dict outcome" rat | PostRaised

record sim_stats =
  st_confirmed :: nat
  st_confirmed_degraded :: nat
  st_cancelled :: nat
  st_error :: nat
  st_latencies :: "rat list"
  st_actuals :: nat    \<comment> \<open>posts to the monitoring service\<close>

definition no_stats :: sim_stats where
  "no_stats = \<lparr>st_confirmed = 0, st_confirmed_degraded = 0, st_cancelled = 0, st_error = 0, st_latencies = [], st_actuals = 0\<rparr>"

definition count_error :: "sim_stats \<Rightarrow> sim_stats" where
  "count_error st = st\<lparr>st_error := st_error st + 1\<rparr>"

text \<open>
  \<^verbatim>\<open>stats[final_state] += 1\<close> when it is a key, else confirmed; adding to the list of latencies and looking up an
  unhashable value raise.
\<close>

fun count_state :: "json \<Rightarrow> sim_stats \<Rightarrow> sim_stats outcome" where
  "count_state (JList xs) st = Inl (TypeError ''unhashable type'')"
| "count_state (JDict d) st = Inl (TypeError ''unhashable type'')"
| "count_state v st =
     (if v = JStr ''CONFIRMED'' then Inr (st\<lparr>st_confirmed := st_confirmed st + 1\<rparr>)
      else if v = JStr ''CONFIRMED_DEGRADED'' then Inr (st\<lparr>st_confirmed_degraded := st_confirmed_degraded st + 1\<rparr>)
      else if v = JStr ''CANCELLED'' then Inr (st\<lparr>st_cancelled := st_cancelled st + 1\<rparr>)
      else if v = JStr ''ERROR'' then Inr (count_error st)
      else if v = JStr ''latencies'' then Inl (TypeError ''int object is not iterable'')
      else Inr (st\<lparr>st_confirmed := st_confirmed st + 1\<rparr>))"

text \<open>Printing the line: \<^verbatim>\<open>:<18\<close> refuses a null state, \<^verbatim>\<open>:.1f\<close> a true value that is not a number.\<close>

definition prints :: "json \<Rightarrow> json \<Rightarrow> bool" where
  "prints final_state eta \<longleftrightarrow> final_state \<noteq> JNull \<and>
     (py_truthy eta \<longrightarrow> (case eta of JInt _ \<Rightarrow> True | JFloat _ \<Rightarrow> True | JBool _ \<Rightarrow> True | _ \<Rightarrow> False))"

definition sim_step :: "bool \<Rightarrow> sim_stats \<Rightarrow> post_reply \<Rightarrow> sim_stats" where
  "sim_step monitoring st reply =
     (case reply of
        PostRaised \<Rightarrow> count_error st
      | PostReply code body latency \<Rightarrow>
          let st = st\<lparr>st_latencies := st_latencies st @ [latency]\<rparr>
          in if code \<noteq> 200 then count_error st
             else (case body of
                     Inl e \<Rightarrow> count_error st
                   | Inr result \<Rightarrow>
                       let final_state = dict_get_or result ''final_state'' (JStr ''UNKNOWN'');
                           eta = dict_get result ''eta_minutes''
                       in (case count_state final_state st of
                             Inl e \<Rightarrow> count_error st
                           | Inr st \<Rightarrow>
                               if \<not> prints final_state eta then count_error st
                               else if monitoring \<and> final_state \<in> {JStr ''CONFIRMED'', JStr ''CONFIRMED_DEGRADED''}
                                    then st\<lparr>st_actuals := st_actuals st + 1\<rparr>
                                    else st)))"

definition run_simulation :: "bool \<Rightarrow> post_reply list \<Rightarrow> sim_stats" where
  "run_simulation monitoring replies = fold (\<lambda>r st. sim_step monitoring st r) replies no_stats"

text \<open>The summary: the mean and \<^verbatim>\<open>sorted(latencies)[int(len(latencies) * 0.95)]\<close>; none stands for an \<^verbatim>\<open>IndexError\<close>.\<close>

definition avg_latency :: "sim_stats \<Rightarrow> rat" where
  "avg_latency st = (if st_latencies st \<noteq> [] then sum_list (st_latencies st) / of_nat (length (st_latencies st)) else 0)"

definition p95_latency :: "sim_stats \<Rightarrow> rat option" where
  "p95_latency st =
     (if st_latencies st \<noteq> [] then
        let i = nat (py_int (of_nat (length (st_latencies st)) * (95 / 100)))
        in if i < length (st_latencies st) then Some (sort (st_latencies st) ! i) else None
      else Some 0)"

section \<open>The injector and the gate\<close>

datatype traffic_op = Serve monitoring_op | Inject string "inject_draws list"

fun traffic_step :: "(stamp \<Rightarrow> stamp) \<Rightarrow> numpy \<Rightarrow> monitoring_db \<Rightarrow> traffic_op \<Rightarrow> unit outcome \<times> monitoring_db" where
  "traffic_step load np db (Serve op) = monitoring_step load np db op"
| "traffic_step load np db (Inject scenario ds) = map_prod (map_sum id (\<lambda>_. ())) id (inject_predictions load scenario ds db)"

text \<open>At most one decision to retrain, and its time stamp is one a later session read back.\<close>

definition one_trigger :: "monitoring_db \<Rightarrow> bool" where
  "one_trigger db \<longleftrightarrow> length (triggers db) \<le> 1 \<and> (\<forall>d \<in> set (triggers db). \<exists>t. decided_at d = Naive t)"

lemma triggers_reloaded: "length (triggers (reloaded load db)) = length (triggers db)"
  by (induction "retrain_decisions db" arbitrary: db) (auto simp: reloaded_def filter_map comp_def)

lemma one_trigger_reloaded:
  assumes "drops_time_zone load" and "length (triggers db) \<le> 1"
  shows "one_trigger (reloaded load db)"
  using assms triggers_reloaded [of load db] by (auto simp: one_trigger_def reloaded_def drops_time_zone_def)

lemma session_one_trigger:
  assumes "drops_time_zone load" and "one_trigger db"
    and "\<And>r db'. body db = (Inr r, db') \<Longrightarrow> length (triggers db') \<le> 1"
  shows "one_trigger (snd (monitoring_session load body db))"
proof (cases "get_session monitoring_ok body db")
  case (Pair r db')
  have "length (triggers db') \<le> 1"
  proof (cases r)
    case (Inl e)
    have "db' = db" by (rule get_session_error [OF Pair [unfolded Inl]])
    with assms(2) show ?thesis by (simp add: one_trigger_def)
  next
    case (Inr x)
    with Pair have "body db = (Inr x, db')" by (simp add: get_session_commit)
    from assms(3) [OF this] show ?thesis .
  qed
  with Pair show ?thesis by (simp add: monitoring_session_def one_trigger_reloaded assms(1))
qed

lemma evaluate_after_trigger:
  assumes "one_trigger db" and "triggers db \<noteq> []"
  shows "\<exists>m. evaluate_gate env reports p config db = (Inl (TypeError m), db)"
proof -
  obtain d where d: "last_trigger db = Some d" using assms(2) last_trigger_None [of db] by (cases "last_trigger db") auto
  with last_trigger_Some(1) [OF d] assms(1) obtain t where "decided_at d = Naive t" unfolding one_trigger_def by blast
  with d show ?thesis by (simp add: evaluate_gate_def Let_def cooldown_ok_def)
qed

lemma evaluate_one_trigger:
  assumes "one_trigger db" and "evaluate_gate env reports p config db = (Inr a, db')"
  shows "length (triggers db') \<le> 1"
proof (cases "triggers db = []")
  case True
  then have "triggers db' = [] \<or> (\<exists>row. triggers db' = [row])"
    using assms(2) by (auto simp: evaluate_gate_def Let_def split: sum.splits)
  then show ?thesis by auto
next
  case False
  from evaluate_after_trigger [OF assms(1) False, of env reports p config] assms(2) show ?thesis by auto
qed

lemma traffic_step_one_trigger:
  assumes "drops_time_zone load" and "one_trigger db"
  shows "one_trigger (snd (traffic_step load np db op))"
proof -
  have few: "length (triggers db) \<le> 1" using assms(2) by (simp add: one_trigger_def)
  note session = session_one_trigger [OF assms]
  show ?thesis
  proof (cases op)
    case (Inject scenario ds)
    then show ?thesis
      using few assms(2) by (auto simp: inject_predictions_def split: option.splits intro!: session)
  next
    case (Serve q)
    show ?thesis
    proof (cases q)
      case (LogPrediction env req)
      with Serve few show ?thesis
        by (auto simp: log_prediction_endpoint_def log_prediction_def Let_def intro!: session)
    next
      case (LogActual env oid a)
      with Serve few show ?thesis
        by (auto simp: log_actual_endpoint_def join_actual_def Let_def intro!: session split: prod.splits sum.splits option.splits if_splits)
    next
      case (DriftCheck envs r c t)
      with Serve few assms(2) show ?thesis
        by (auto simp: drift_check_endpoint_def run_drift_check_def Let_def intro!: session)
    next
      case (EvaluateGate env config)
      have "one_trigger (snd (evaluate_gate_endpoint load env config db))"
        unfolding evaluate_gate_endpoint_def by (rule session) (rule evaluate_one_trigger [OF assms(2)])
      with Serve EvaluateGate show ?thesis by simp
    qed
  qed
qed

interpretation traffic: guarded_service "traffic_step load np" "\<lambda>_. True" "\<lambda>db. drops_time_zone load \<and> one_trigger db"
  by unfold_locales (simp add: traffic_step_one_trigger)

lemma traffic_one_trigger:
  assumes "drops_time_zone load"
  shows "one_trigger (run (traffic_step load np) empty_monitoring ops)"
  using traffic.run_inv [of load empty_monitoring ops np] assms by (simp add: one_trigger_def empty_monitoring_def list_all_iff)

section \<open>Counting outcomes\<close>

text \<open>A saga answered by the orchestrator's endpoint, as the simulator's client sees it.\<close>

definition saga_reply :: "saga_result \<times> rat \<Rightarrow> post_reply" where
  "saga_reply x = PostReply 200 (Inr (encode_saga_result (fst x))) (snd x)"

lemma encoded_has_no_final_state:
  "dict_get_or (encode_saga_result res) ''final_state'' v = v" "dict_get (encode_saga_result res) ''eta_minutes'' = sr_eta_minutes res"
  by (simp_all add: encode_saga_result_def dict_get_or_def)

lemma sim_step_saga_reply:
  assumes "prints (JStr ''UNKNOWN'') (sr_eta_minutes (fst x))"
  shows "sim_step monitoring st (saga_reply x) = st\<lparr>st_confirmed := st_confirmed st + 1, st_latencies := st_latencies st @ [snd x]\<rparr>"
  using assms by (simp add: saga_reply_def sim_step_def Let_def encoded_has_no_final_state)

lemma simulate_saga_replies:
  assumes "list_all (\<lambda>x. prints (JStr ''UNKNOWN'') (sr_eta_minutes (fst x))) rs"
  shows "fold (\<lambda>r st. sim_step monitoring st r) (map saga_reply rs) st =
    st\<lparr>st_confirmed := st_confirmed st + length rs, st_latencies := st_latencies st @ map snd rs\<rparr>"
  using assms by (induction rs arbitrary: st) (simp_all add: sim_step_saga_reply)

lemma p95_in_range: "p95_latency st \<noteq> None"
proof -
  let ?n = "of_nat (length (st_latencies st)) :: rat"
  have "nat (py_int (?n * (95 / 100))) < length (st_latencies st)" if "st_latencies st \<noteq> []"
  proof -
    have "?n * (95 / 100) < ?n" "0 \<le> ?n * (95 / 100)" using that by simp_all
    then have "py_int (?n * (95 / 100)) < int (length (st_latencies st))" by (simp add: py_int_def floor_less_iff)
    with that show ?thesis by (cases "py_int (?n * (95 / 100)) \<ge> 0") (auto simp: nat_less_iff)
  qed
  then show ?thesis by (simp add: p95_latency_def Let_def)
qed

section \<open>A run that triggers\<close>

lemma shifted_sample_drifts: "0 < compute_psi plain_numpy (replicate 10 0) (replicate 10 1) 10 DEFAULT_EPSILON"
proof -
  let ?e = "breakpoints plain_numpy 10 (replicate 10 0) (replicate 10 1)"
  let ?s = "smoothed plain_numpy ?e 10 DEFAULT_EPSILON"
  have pos: "\<forall>x \<in> set (?s xs). 0 < x" for xs using smoothed_pos [of DEFAULT_EPSILON 10] by auto
  have len: "length (?s (replicate 10 1)) = length (?s (replicate 10 0))" by (rule smoothed_length [OF plain_numpy_counts])
  have edges: "?e = map (\<lambda>i. of_nat i / 10) [0..<11]" by (simp add: breakpoints_def plain_numpy_def)
  have "hd (?s (replicate 10 1)) \<noteq> hd (?s (replicate 10 0))"
    unfolding edges by (simp add: smoothed_def proportions_def plain_numpy_def upt_rec)
  then have "psi_sum (?s (replicate 10 1)) (?s (replicate 10 0)) \<noteq> 0" using psi_sum_zero [OF len pos pos] by auto
  with psi_sum_nonneg [OF pos pos] have "0 < psi_sum (?s (replicate 10 1)) (?s (replicate 10 0))" by (simp add: order_less_le)
  then show ?thesis by (simp add: compute_psi_def raw_psi_sum)
qed

definition late_delivery :: inject_draws where
  "late_delivery =
     \<lparr>id_features = \<lparr>fd_age = 30, fd_ratings = 4, fd_distance = 8, fd_weather = ''sunny'', fd_traffic = ''low'', fd_city = ''urban'',
        fd_order = ''meal'', fd_vehicle = ''scooter'', fd_weather2 = ''stormy'', fd_traffic2 = ''jam'', fd_ratings2 = 3, fd_distance2 = 13\<rparr>,
      id_eta = \<lparr>ed_noise = 0, ed_below = 5, ed_above = 5, ed_late = 20\<rparr>,
      id_prediction = ''A1'', id_order = ''A2'', id_correlation = ''A3'', id_now = 0, id_then = 0, id_lag = 2000\<rparr>"

definition eager_config :: gate_config where
  "eager_config = \<lparr>psi_threshold = 0, mae_degradation_factor = 1, baseline_mae = 10, late_rate_threshold = 1 / 2,
     min_samples = 1, cooldown_seconds = 3600\<rparr>"

definition retrain_ops :: "call_env \<Rightarrow> traffic_op list" where
  "retrain_ops env =
     [Inject ''monsoon'' [late_delivery],
      Serve (DriftCheck (\<lambda>_. env) [(''distance'', replicate 10 0)] [(''distance'', replicate 10 1)] 0),
      Serve (EvaluateGate env (Some eager_config))]"

lemma late_row:
  "labelled (injected_log generate_monsoon_features late_delivery)" "is_late (injected_log generate_monsoon_features late_delivery)"
  by code_simp+

lemma monsoon: "map_of SCENARIOS ''monsoon'' = Some generate_monsoon_features"
  by (simp add: SCENARIOS_def)

lemma late_rate_single:
  assumes "prediction_logs db = [r]" and "labelled r" and "is_late r"
  shows "late_rate (compute_rolling_metrics 200 db) = 1" and "labelled_count (compute_rolling_metrics 200 db) = 1"
  using assms py_round_of_int [of 4 1, where ?'a = rat]
  by (simp_all add: compute_rolling_metrics_def get_labelled_predictions_def get_recent_predictions_def newest_first_def Let_def)

lemma eager_gate_triggers:
  assumes "prediction_logs db = [r]" and "labelled r" and "is_late r" and "drift_reports db = [d]" and "is_drifted d"
    and "retrain_decisions db = []"
  shows "length (triggers (snd (evaluate_gate_endpoint load env (Some eager_config) db))) = 1"
proof -
  have "cooldown_ok (gate_config_of (Some eager_config)) (env_now env) db = Inr True"
    using assms(6) by (simp add: cooldown_ok_def last_trigger_def newest_first_def)
  from evaluate_gate_row [OF this] obtain row a where
    "evaluate_gate env (get_latest_drift_reports 20 db) (compute_rolling_metrics 200 db) (Some eager_config) db =
       (Inr a, db\<lparr>retrain_decisions := [row]\<rparr>)" and "gate_result row = TRIGGERED"
    using assms late_rate_single [OF assms(1-3)]
    by (force simp: drift_detected_def get_latest_drift_reports_def newest_first_def perf_degraded_def enough_samples_def
        gate_config_of_def eager_config_def)
  then show ?thesis
    using assms(1,4)
    by (simp add: evaluate_gate_endpoint_def monitoring_session_def get_session_def monitoring_ok_def reloaded_def)
qed

lemma retrain_ops_trigger:
  "length (triggers (run (traffic_step (\<lambda>s. Naive (stamp_time s)) plain_numpy) empty_monitoring (retrain_ops env))) = 1"
proof -
  let ?r = "injected_log generate_monsoon_features late_delivery"
  let ?d = "detect_drift plain_numpy ''distance'' (replicate 10 0) (replicate 10 1) 0 env"
  have drifted: "is_drifted ?d" unfolding detect_drift_def Let_def using shifted_sample_drifts by (simp only: drift_report.simps)
  have drifted': "is_drifted (?d\<lparr>computed_at := s\<rparr>)" for s using drifted by simp
  have row: "labelled (?r\<lparr>predicted_at := s, delivered_at := t\<rparr>)" "is_late (?r\<lparr>predicted_at := s, delivered_at := t\<rparr>)" for s t
    using late_row by (simp_all add: is_late_def actual_of_def labelled_def)
  note defs = inject_predictions_def monsoon monitoring_session_def get_session_def empty_monitoring_def reloaded_def
    monitoring_ok_def drift_check_endpoint_def run_drift_check_def
  show ?thesis
    unfolding retrain_ops_def run.simps traffic_step.simps monitoring_step.simps snd_map_prod id_apply
    by (rule eager_gate_triggers [OF _ row _ drifted']) (simp_all add: defs Let_def)
qed

section \<open>Properties\<close>

text \<open>
  The retrain gate triggers at most once in the life of the service. Whatever predictions are
  logged or injected, whatever drift checks run and however the gate is configured, at most one
  decision is ever TRIGGERED, and once there is one every later evaluation of the gate ends in a type
  error and writes no decision: the cooldown subtracts a time stamp that lost its time zone in the
  database from the current, zoned, time.
\<close>

theorem retrain_at_most_once:
  assumes "drops_time_zone load" and "db = run (traffic_step load np) empty_monitoring ops"
  shows "length (triggers db) \<le> 1 \<and>
    (triggers db \<noteq> [] \<longrightarrow>
       (\<exists>m. fst (evaluate_gate_endpoint load env config db) = Inl (TypeError m)) \<and>
       length (retrain_decisions (snd (evaluate_gate_endpoint load env config db))) = length (retrain_decisions db))"
proof -
  have inv: "one_trigger db" unfolding assms(2) by (rule traffic_one_trigger [OF assms(1)])
  show ?thesis
  proof (intro conjI impI)
    show "length (triggers db) \<le> 1" using inv by (simp add: one_trigger_def)
  next
    assume "triggers db \<noteq> []"
    from evaluate_after_trigger [OF inv this] obtain m where
      m: "evaluate_gate env (get_latest_drift_reports 20 db) (compute_rolling_metrics 200 db) config db = (Inl (TypeError m), db)"
      by blast
    then show "\<exists>m. fst (evaluate_gate_endpoint load env config db) = Inl (TypeError m)"
      by (simp add: evaluate_gate_endpoint_def monitoring_session_def get_session_def)
    from m show "length (retrain_decisions (snd (evaluate_gate_endpoint load env config db))) = length (retrain_decisions db)"
      by (simp add: evaluate_gate_endpoint_def monitoring_session_def get_session_def reloaded_def)
  qed
qed

theorem retrain_at_most_once_witness:
  "let env = \<lparr>env_uuid = ''A1'', env_random = 0, env_now = 5000\<rparr>;
       load = (\<lambda>s. Naive (stamp_time s));
       db = run (traffic_step load plain_numpy) empty_monitoring (retrain_ops env)
   in drops_time_zone load \<and> length (triggers db) = 1 \<and>
      (\<exists>m. fst (evaluate_gate_endpoint load env None db) = Inl (TypeError m))"
proof -
  let ?load = "\<lambda>s. Naive (stamp_time s)" and ?env = "\<lparr>env_uuid = ''A1'', env_random = 0, env_now = 5000\<rparr>"
  have load: "drops_time_zone ?load" by (simp add: drops_time_zone_def)
  show ?thesis
    using retrain_at_most_once [OF load refl, of plain_numpy "retrain_ops ?env" ?env None] retrain_ops_trigger [of ?env] load
    unfolding Let_def by fastforce
qed

text \<open>
  The simulator reports every answered saga as confirmed. Whatever the sagas ended in, cancelled
  ones included, when the orchestrator answers all of them with a number or nothing as the estimate
  the simulator counts each as confirmed, none as degraded, cancelled or failed, and sends no actual
  delivery time to the monitor: it reads the key final_state, which the answer does not have. Its
  latency percentile always exists.
\<close>

theorem simulator_confirms_all:
  assumes "list_all (\<lambda>x. prints (JStr ''UNKNOWN'') (sr_eta_minutes (fst x))) rs"
    and "st = run_simulation monitoring (map saga_reply rs)"
  shows "st = no_stats\<lparr>st_confirmed := length rs, st_latencies := map snd rs\<rparr> \<and> (\<exists>p. p95_latency st = Some p)"
  using simulate_saga_replies [OF assms(1), of monitoring no_stats] p95_in_range [of st] assms(2)
  by (auto simp: run_simulation_def no_stats_def)

theorem simulator_confirms_all_witness:
  "\<exists>res. sr_state res = CANCELLED \<and> st_confirmed (run_simulation True [saga_reply (res, 12)]) = 1 \<and>
     st_cancelled (run_simulation True [saga_reply (res, 12)]) = 0"
proof -
  let ?res = "\<lparr>sr_saga_id = ''S'', sr_order_id = ''O'', sr_state = CANCELLED, sr_payment_id = JNull, sr_reservation_id = JNull,
    sr_refund_id = JNull, sr_eta_minutes = JNull, sr_eta_lower = JNull, sr_eta_upper = JNull, sr_degraded = False,
    sr_error_reason = JNull\<rparr>"
  have "list_all (\<lambda>x. prints (JStr ''UNKNOWN'') (sr_eta_minutes (fst x))) [(?res, 12)]" by (simp add: prints_def)
  from simulator_confirms_all [OF this refl, of True]
  have "run_simulation True [saga_reply (?res, 12)] = no_stats\<lparr>st_confirmed := 1, st_latencies := [12]\<rparr>" by simp
  then show ?thesis by (intro exI [of _ ?res]) (simp add: no_stats_def)
qed

end
