(* ===== verification/Ops_Console.thy ===== *)
theory Ops_Console
  imports Http_Adapters "HOL-Library.List_Lexorder" "HOL-Library.Char_ord"
begin

text \<open>
  The operations console, \<^verbatim>\<open>ops_console/app.py\<close>: the saga explorer and the counters over the orchestrator's tables,
  the health panel, the chaos controls of the payment service, the idempotency demo against the order service and
  the flash sale race against the inventory service. A handler's result holds the values its page or fragment shows;
  the HTML around them is left out.
\<close>

section \<open>Sagas\<close>

text \<open>\<^verbatim>\<open>LIKE '%p%'\<close> is \<open>py_in\<close> on the upper case names of the states.\<close>

definition newest_sagas :: "saga_instance list \<Rightarrow> saga_instance list" where
  "newest_sagas rows = sort_key (\<lambda>s. - sg_started_at s) rows"

text \<open>The duration column: seconds to one place, marked when the saga is still running.\<close>

datatype duration = Finished rat | Ongoing rat

definition duration_of :: "time \<Rightarrow> saga_instance \<Rightarrow> duration" where
  "duration_of now s =
     (case sg_completed_at s of
        Some t \<Rightarrow> Finished (py_round 1 (t - sg_started_at s))
      | None \<Rightarrow> Ongoing (py_round 1 (now - sg_started_at s)))"

definition sagas_page :: "time \<Rightarrow> string \<Rightarrow> saga_db \<Rightarrow> (saga_instance \<times> duration) list" where
  "sagas_page now state db =
     (let rows = (if state \<noteq> [] then filter (\<lambda>s. saga_state_value (current_state s) = state) (saga_instances db)
                  else saga_instances db)
      in map (\<lambda>s. (s, duration_of now s)) (take 100 (newest_sagas rows)))"

text \<open>The detail page; none is the page with status 404. The rows of the log are in the order of their time stamps.\<close>

definition saga_detail :: "string \<Rightarrow> saga_db \<Rightarrow> (saga_instance \<times> saga_step_log list \<times> rat option) option" where
  "saga_detail oid db =
     (let found = (case find (\<lambda>s. sg_order_id s = oid) (saga_instances db) of
                     Some s \<Rightarrow> Some s
                   | None \<Rightarrow> find (\<lambda>s. saga_id s = oid) (saga_instances db))
      in (case found of
            None \<Rightarrow> None
          | Some s \<Rightarrow>
              Some (s, filter (\<lambda>l. log_saga_id l = saga_id s) (saga_step_logs db),
                map_option (\<lambda>t. py_round 2 (t - sg_started_at s)) (sg_completed_at s))))"

definition count_like :: "string \<Rightarrow> saga_db \<Rightarrow> nat" where
  "count_like p db = length (filter (\<lambda>s. py_in p (saga_state_value (current_state s))) (saga_instances db))"

definition count_degraded :: "saga_db \<Rightarrow> nat" where
  "count_degraded db = length (filter (\<lambda>s. saga_state_value (current_state s) = ''CONFIRMED_DEGRADED'') (saga_instances db))"

record stat_cards =
  sc_total :: nat
  sc_confirmed :: nat
  sc_cancelled :: nat
  sc_degraded :: nat

definition api_stats_cards :: "saga_db \<Rightarrow> stat_cards" where
  "api_stats_cards db =
     \<lparr>sc_total = length (saga_instances db), sc_confirmed = count_like ''CONFIRMED'' db,
      sc_cancelled = count_like ''CANCELLED'' db, sc_degraded = count_degraded db\<rparr>"

text \<open>The counters of the chaos panel: confirmed, degraded, compensated.\<close>

definition api_saga_counts :: "saga_db \<Rightarrow> nat \<times> nat \<times> nat" where
  "api_saga_counts db = (count_like ''CONFIRMED'' db, count_degraded db, count_like ''CANCELLED'' db)"

definition state_class :: "saga_state \<Rightarrow> string" where
  "state_class st =
     (let v = saga_state_value st
      in if py_in ''CONFIRMED'' v \<and> \<not> py_in ''DEGRADED'' v then ''status-confirmed''
         else if py_in ''DEGRADED'' v then ''status-degraded''
         else if py_in ''CANCELLED'' v then ''status-cancelled''
         else ''status-pending'')"

definition api_recent_sagas :: "saga_db \<Rightarrow> (string \<times> string \<times> saga_state \<times> time) list" where
  "api_recent_sagas db =
     map (\<lambda>s. (sg_order_id s, state_class (current_state s), current_state s, sg_started_at s))
       (take 5 (newest_sagas (saga_instances db)))"

section \<open>Health\<close>

datatype light = Green | Yellow | Red

definition SERVICE_NAMES :: "string list" where
  "SERVICE_NAMES = [''order'', ''payment'', ''inventory'', ''orchestrator'', ''auth'', ''eta'', ''monitoring'']"

text \<open>A reply is an exception, or a status with the JSON body or the failure to decode it.\<close>

definition health_row :: "(nat \<times> json_dict outcome) outcome \<Rightarrow> light \<times> json" where
  "health_row reply =
     (case reply of
        Inl e \<Rightarrow> (Red, JStr ''unreachable'')
      | Inr (code, body) \<Rightarrow>
          (case body of
             Inl e \<Rightarrow> (Red, JStr ''unreachable'')
           | Inr d \<Rightarrow> (if code = 200 then Green else Yellow, dict_get_or d ''status'' (JStr ''unknown''))))"

definition api_health_checks :: "(string \<Rightarrow> (nat \<times> json_dict outcome) outcome) \<Rightarrow> (string \<times> light \<times> json) list" where
  "api_health_checks reply = map (\<lambda>name. (name, health_row (reply name))) SERVICE_NAMES"

section \<open>Chaos controls\<close>

text \<open>The console's own copy of the settings, and what it writes into its environment variables.\<close>

record chaos_state =
  cs_fail_rate :: int
  cs_latency :: int
  cs_env_fail_rate :: rat
  cs_env_latency :: int

definition serve_fail_rate :: "rat \<Rightarrow> payment_service \<Rightarrow> http_response \<times> payment_service" where
  "serve_fail_rate r s =
     (let s' = set_fail_rate s (Some r) in (\<lparr>status_code = 200, body_json = [(''fail_rate'', JFloat (fail_rate s'))]\<rparr>, s'))"

definition serve_latency :: "int \<Rightarrow> payment_service \<Rightarrow> http_response \<times> payment_service" where
  "serve_latency n s =
     (let s' = set_latency s (Some n) in (\<lparr>status_code = 200, body_json = [(''latency_ms'', JInt (latency_ms s'))]\<rparr>, s'))"

text \<open>The response is not looked at, and an exception of the client is swallowed.\<close>

definition set_payment_fail_rate :: "transport \<Rightarrow> int \<Rightarrow> chaos_state \<times> payment_service \<Rightarrow> chaos_state \<times> payment_service" where
  "set_payment_fail_rate fate rate cp =
     ((fst cp)\<lparr>cs_fail_rate := rate, cs_env_fail_rate := of_int rate / 100\<rparr>,
      snd (exchange fate (serve_fail_rate (of_int rate / 100)) (snd cp)))"

definition set_payment_latency :: "transport \<Rightarrow> int \<Rightarrow> chaos_state \<times> payment_service \<Rightarrow> chaos_state \<times> payment_service" where
  "set_payment_latency fate latency cp =
     ((fst cp)\<lparr>cs_latency := latency, cs_env_latency := latency\<rparr>,
      snd (exchange fate (serve_latency latency) (snd cp)))"

definition reset_all_chaos :: "transport \<Rightarrow> transport \<Rightarrow> chaos_state \<times> payment_service \<Rightarrow> chaos_state \<times> payment_service" where
  "reset_all_chaos fate1 fate2 cp =
     (\<lparr>cs_fail_rate = 0, cs_latency = 0, cs_env_fail_rate = 0, cs_env_latency = 0\<rparr>,
      snd (exchange fate2 (serve_latency 0) (snd (exchange fate1 (serve_fail_rate 0) (snd cp)))))"

definition chaos_page :: "chaos_state \<Rightarrow> int \<times> int" where
  "chaos_page c = (cs_fail_rate c, cs_latency c)"

section \<open>The idempotency demo\<close>

definition opt_num :: "rat option \<Rightarrow> json" where
  "opt_num x = (case x of Some v \<Rightarrow> JFloat v | None \<Rightarrow> JNull)"

definition encode_order :: "order_response \<Rightarrow> json_dict" where
  "encode_order r =
     [(''order_id'', JStr (or_order_id r)), (''status'', JStr (order_status_value (or_status r))),
      (''total_amount'', JFloat (or_total_amount r)), (''eta_minutes'', opt_num (or_eta_minutes r)),
      (''eta_lower'', opt_num (or_eta_lower r)), (''eta_upper'', opt_num (or_eta_upper r)), (''degraded'', JBool (or_degraded r))]"

text \<open>\<^verbatim>\<open>POST /orders\<close> without a token: 202 with the order, or the error.\<close>

definition serve_order :: "order_env \<Rightarrow> create_order_request \<Rightarrow> string \<Rightarrow> order_service \<Rightarrow> http_response \<times> order_service" where
  "serve_order env req key s =
     (case post_order s (env, PostOrderLegacy None req key) of
        (Inr r, s') \<Rightarrow> (\<lparr>status_code = 202, body_json = encode_order r\<rparr>, s')
      | (Inl e, s') \<Rightarrow> (respond encode_order (Inl e), s'))"

text \<open>\<^verbatim>\<open>resp.json()\<close>: the body FastAPI sends for an unhandled exception is not JSON.\<close>

definition decode_body :: "http_response \<Rightarrow> json_dict outcome" where
  "decode_body r = (if status_code r = 500 then Inl (ValueError ''Expecting value'') else Inr (body_json r))"

definition demo_attempt ::
  "transport \<Rightarrow> order_env \<Rightarrow> create_order_request \<Rightarrow> string \<Rightarrow> order_service \<Rightarrow> (nat \<times> json_dict) \<times> order_service" where
  "demo_attempt fate env req key s =
     (case exchange fate (serve_order env req key) s of
        (Inl e, s') \<Rightarrow> ((0, [(''error'', JStr (exn_str e))]), s')
      | (Inr r, s') \<Rightarrow>
          (case decode_body r of
             Inl e \<Rightarrow> ((0, [(''error'', JStr (exn_str e))]), s')
           | Inr body \<Rightarrow> ((status_code r, body), s')))"

record demo_report =
  dm_title :: string
  dm_first :: "nat \<times> json_dict"
  dm_second :: "nat \<times> json_dict"
  dm_same_order :: bool
  dm_rows_created :: nat    \<comment> \<open>the text says exactly one\<close>
  dm_key :: string

text \<open>\<open>draws\<close> are the digits of a generated key; each attempt has its own fate and the server's own draws.\<close>

definition api_idempotency_demo ::
  "string \<Rightarrow> transport \<times> order_env \<Rightarrow> transport \<times> order_env \<Rightarrow> string option \<Rightarrow> string \<Rightarrow> string \<Rightarrow> rat \<Rightarrow>
   order_service \<Rightarrow> demo_report \<times> order_service" where
  "api_idempotency_demo draws a1 a2 idempotency_key customer restaurant amount s =
     (let key = (case idempotency_key of
                   Some k \<Rightarrow> if k = [] \<or> py_strip k = [] then ''demo-'' @ draws else k
                 | None \<Rightarrow> ''demo-'' @ draws);
          req = \<lparr>co_customer_id = customer, co_restaurant_id = restaurant, co_items = [''Chicken Biryani'', ''Butter Naan''],
                 co_total_amount = amount\<rparr>;
          (r1, s1) = demo_attempt (fst a1) (snd a1) req key s;
          (r2, s2) = demo_attempt (fst a2) (snd a2) req key s1;
          order_id_1 = dict_get (snd r1) ''order_id'';
          order_id_2 = dict_get (snd r2) ''order_id''
      in (\<lparr>dm_title = ''Idempotency Verified - Exactly 1 Database Order Created'', dm_first = r1, dm_second = r2,
            dm_same_order = (order_id_1 \<noteq> JNull \<and> order_id_1 = order_id_2), dm_rows_created = 1, dm_key = key\<rparr>, s2))"

section \<open>The flash sale race\<close>

text \<open>What \<^verbatim>\<open>ReserveStockRequest\<close> makes of a JSON body.\<close>

fun json_strings :: "json list \<Rightarrow> string list option" where
  "json_strings [] = Some []"
| "json_strings (JStr x # xs) = map_option ((#) x) (json_strings xs)"
| "json_strings (_ # xs) = None"

definition decode_reserve :: "json_dict \<Rightarrow> reserve_request outcome" where
  "decode_reserve d =
     (case (map_of d ''order_id'', map_of d ''items'', map_of d ''idempotency_key'') of
        (Some (JStr oid), Some (JList js), Some (JStr key)) \<Rightarrow>
          (case json_strings js of
             Some xs \<Rightarrow> Inr \<lparr>rq_order_id = oid, rq_items = xs, rq_key = key\<rparr>
           | None \<Rightarrow> Inl (HTTPException 422 ''Input should be a valid string''))
      | _ \<Rightarrow> Inl (HTTPException 422 ''Field required''))"

definition serve_reserve_json :: "call_env \<Rightarrow> json_dict \<Rightarrow> inventory_service \<Rightarrow> http_response \<times> inventory_service" where
  "serve_reserve_json env body s =
     (case decode_reserve body of
        Inl e \<Rightarrow> (respond encode_reservation (Inl e), s)
      | Inr req \<Rightarrow> (case post_reserve s env req of (out, s') \<Rightarrow> (respond encode_reservation out, s')))"

definition serve_set_stock :: "string \<Rightarrow> int \<Rightarrow> inventory_service \<Rightarrow> http_response \<times> inventory_service" where
  "serve_set_stock i n s =
     (case set_stock s i n of
        (out, s') \<Rightarrow> (respond (\<lambda>_. [(''status'', JStr ''OK''), (''item_id'', JStr i), (''stock'', JInt n)]) out, s'))"

definition serve_stock :: "string \<Rightarrow> inventory_service \<Rightarrow> http_response \<times> inventory_service" where
  "serve_stock i s = (\<lparr>status_code = 200, body_json = [(''item_id'', JStr i), (''stock'', JInt (get_item_stock s i))]\<rparr>, s)"

text \<open>One worker thread: its number, its uuid digits, the fate of its exchange and the server's draws.\<close>

record shopper =
  sh_number :: nat
  sh_uuid :: string
  sh_fate :: transport
  sh_env :: call_env

definition race_order :: "shopper \<Rightarrow> string" where
  "race_order sh = ''ORD-RACE-'' @ (if sh_number sh < 10 then ''0'' else []) @ nat_str (sh_number sh) @ ''-'' @ sh_uuid sh"

text \<open>The request: the key travels in a header, the body has the order and the item.\<close>

definition race_body :: "string \<Rightarrow> shopper \<Rightarrow> json_dict" where
  "race_body item sh = [(''order_id'', JStr (race_order sh)), (''items'', JList [JStr item])]"

definition race_worker :: "string \<Rightarrow> inventory_service \<Rightarrow> shopper \<Rightarrow> (nat \<times> json_dict) \<times> inventory_service" where
  "race_worker item s sh =
     (case exchange (sh_fate sh) (serve_reserve_json (sh_env sh) (race_body item sh)) s of
        (Inl err, s') \<Rightarrow> ((500, [(''error'', JStr (exn_str err))]), s')
      | (Inr r, s') \<Rightarrow> ((status_code r, if status_code r \<noteq> 500 then body_json r else []), s'))"

record race_report =
  rp_winners :: nat
  rp_losers :: nat
  rp_final_stock :: json

text \<open>
  \<open>shoppers\<close> is the order in which the server handles the requests of the parallel workers; the report counts their
  answers. None is the card that says the item could not be set up.
\<close>

definition api_flash_sale_race ::
  "string \<Rightarrow> transport \<Rightarrow> shopper list \<Rightarrow> transport \<Rightarrow> inventory_service \<Rightarrow> race_report option \<times> inventory_service" where
  "api_flash_sale_race draws fate_init shoppers fate_stock s =
     (let item = ''FLASH-'' @ draws
      in (case exchange fate_init (serve_set_stock item 1) s of
            (Inl e, s1) \<Rightarrow> (None, s1)
          | (Inr r, s1) \<Rightarrow>
              if status_code r \<noteq> 200 then (None, s1)
              else
                let results = outcomes (race_worker item) s1 shoppers;
                    s2 = run (race_worker item) s1 shoppers;
                    (r_stock, s3) = exchange fate_stock (serve_stock item) s2;
                    final_stock = (case r_stock of
                        Inr q \<Rightarrow> if status_code q = 200 then dict_get_or (body_json q) ''stock'' (JInt 0) else JInt 0
                      | Inl e \<Rightarrow> JInt 0);
                    winners = filter (\<lambda>(code, body). dict_get body ''status'' = JStr ''RESERVED'') results
                in (Some \<lparr>rp_winners = length winners, rp_losers = length (filter (\<lambda>x. x \<notin> set winners) results),
                      rp_final_stock = final_stock\<rparr>, s3)))"

section \<open>The event feed\<close>

text \<open>\<open>xrevrange\<close> and \<open>xlen\<close> are Redis: at most so many of the newest entries of a stream, and its length, or an exception.\<close>

abbreviation FEED_STREAMS :: "string list" where
  "FEED_STREAMS \<equiv> [''order.created'', ''order.confirmed'', ''order.cancelled'']"

record feed_event =
  fe_stream :: string
  fe_event_id :: string
  fe_data :: "(string \<times> string) list"

definition stream_events :: "(string \<Rightarrow> nat \<Rightarrow> (string \<times> (string \<times> string) list) list outcome) \<Rightarrow> string \<Rightarrow> feed_event list" where
  "stream_events xrevrange stream =
     (case xrevrange stream 20 of
        Inl e \<Rightarrow> []
      | Inr es \<Rightarrow> map (\<lambda>(eid, d). \<lparr>fe_stream = stream, fe_event_id = eid, fe_data = d\<rparr>) es)"

text \<open>A stable sort in reverse, as \<^verbatim>\<open>list.sort(reverse=True)\<close> does it.\<close>

definition api_events :: "(string \<Rightarrow> nat \<Rightarrow> (string \<times> (string \<times> string) list) list outcome) \<Rightarrow> feed_event list" where
  "api_events xrevrange =
     take 50 (rev (sort_key fe_event_id (rev (concat (map (stream_events xrevrange) FEED_STREAMS)))))"

definition event_line :: "feed_event \<Rightarrow> string \<times> string \<times> string" where
  "event_line e =
     ((case map_of (fe_data e) ''event_type'' of Some t \<Rightarrow> t | None \<Rightarrow> fe_stream e), fe_event_id e,
      (case map_of (fe_data e) ''correlation_id'' of Some c \<Rightarrow> c | None \<Rightarrow> ''-''))"

definition api_event_count :: "(string \<Rightarrow> nat outcome) \<Rightarrow> nat" where
  "api_event_count xlen = sum_list (map (\<lambda>s. case xlen s of Inr n \<Rightarrow> n | Inl e \<Rightarrow> 0) FEED_STREAMS)"

section \<open>The outbox table\<close>

text \<open>
  \<^verbatim>\<open>api_outbox\<close> shows the newest twenty rows of the raw table with all columns; a row is given with its id and creation time.
  Python's texts of a payload, a time and a whole row, and \<^verbatim>\<open>str.lower\<close>, are parameters. A value that is false (also a
  count of 0) is shown as a dash; a row is dimmed when its text mentions \<^verbatim>\<open>published\<close> anywhere.
\<close>

datatype sql_value = SqlNull | SqlText string | SqlInt nat | SqlTime time

definition outbox_columns :: "string list" where
  "outbox_columns = [''id'', ''event_id'', ''event_type'', ''stream_name'', ''payload'', ''status'', ''retry_count'', ''created_at'', ''published_at'']"

fun outbox_status_value :: "outbox_status \<Rightarrow> string" where
  "outbox_status_value PENDING = ''PENDING''"
| "outbox_status_value PUBLISHED = ''PUBLISHED''"
| "outbox_status_value OUTBOX_FAILED = ''FAILED''"

definition outbox_cells :: "(out_payload json_text \<Rightarrow> string) \<Rightarrow> nat \<times> time \<times> outbox_event \<Rightarrow> sql_value list" where
  "outbox_cells payload_text r =
     (case r of (i, created, e) \<Rightarrow>
        [SqlInt i, SqlText (oe_event_id e), SqlText (oe_event_type e), SqlText (stream_name e), SqlText (payload_text (oe_payload e)),
         SqlText (outbox_status_value (oe_status e)), SqlInt (nat (retry_count e)), SqlTime created,
         (case published_at e of Some t \<Rightarrow> SqlTime t | None \<Rightarrow> SqlNull)])"

fun show_cell :: "(time \<Rightarrow> string) \<Rightarrow> sql_value \<Rightarrow> string" where
  "show_cell time_text SqlNull = ''-''"
| "show_cell time_text (SqlText s) = (if s = [] then ''-'' else take 60 s)"
| "show_cell time_text (SqlInt n) = (if n = 0 then ''-'' else take 60 (nat_str n))"
| "show_cell time_text (SqlTime t) = take 60 (time_text t)"

datatype outbox_panel = NoEntries | OutboxTable "string list" "(string list \<times> bool) list" | OutboxNotAvailable string

definition api_outbox ::
  "(out_payload json_text \<Rightarrow> string) \<Rightarrow> (time \<Rightarrow> string) \<Rightarrow> (sql_value list \<Rightarrow> string) \<Rightarrow> (string \<Rightarrow> string) \<Rightarrow>
   (nat \<times> time \<times> outbox_event) list outcome \<Rightarrow> outbox_panel" where
  "api_outbox payload_text time_text row_text lower table =
     (case table of
        Inl e \<Rightarrow> OutboxNotAvailable (exn_str e)
      | Inr rows \<Rightarrow>
          let result = take 20 (rev (sort_key (\<lambda>(i, created, e). created) rows))
          in if result = [] then NoEntries
             else OutboxTable outbox_columns
               (map (\<lambda>r. let cells = outbox_cells payload_text r
                         in (map (show_cell time_text) cells, py_in ''published'' (lower (row_text cells)))) result))"

text \<open>
  Every published row is dimmed, and so is a pending one whose payload mentions the word; a row that was never retried shows
  a dash for its count.\<close>

lemma outbox_row_shown:
  assumes "\<And>cells s. SqlText s \<in> set cells \<Longrightarrow> py_in (lower s) (lower (row_text cells))" and "lower ''PUBLISHED'' = ''published''"
  shows "oe_status e = PUBLISHED \<or> py_in ''published'' (lower (payload_text (oe_payload e))) \<Longrightarrow>
      py_in ''published'' (lower (row_text (outbox_cells payload_text (i, t, e))))"
    and "retry_count e = 0 \<Longrightarrow> map (show_cell time_text) (outbox_cells payload_text (i, t, e)) ! 6 = ''-''"
proof -
  have "SqlText (outbox_status_value (oe_status e)) \<in> set (outbox_cells payload_text (i, t, e))"
      "SqlText (payload_text (oe_payload e)) \<in> set (outbox_cells payload_text (i, t, e))"
    by (simp_all add: outbox_cells_def)
  note cells = assms(1) [OF this(1)] assms(1) [OF this(2)]
  show "py_in ''published'' (lower (row_text (outbox_cells payload_text (i, t, e))))"
    if "oe_status e = PUBLISHED \<or> py_in ''published'' (lower (payload_text (oe_payload e)))"
    using that
  proof
    assume "oe_status e = PUBLISHED"
    with cells(1) assms(2) show ?thesis by simp
  next
    assume "py_in ''published'' (lower (payload_text (oe_payload e)))"
    then show ?thesis by (rule py_in_trans [OF _ cells(2)])
  qed
  show "retry_count e = 0 \<Longrightarrow> map (show_cell time_text) (outbox_cells payload_text (i, t, e)) ! 6 = ''-''"
    by (simp add: outbox_cells_def)
qed

section \<open>Counters\<close>

lemma state_names:
  "py_in ''CONFIRMED'' (saga_state_value st) \<longleftrightarrow> st \<in> {CONFIRMED, CONFIRMED_DEGRADED}"
  "py_in ''CANCELLED'' (saga_state_value st) \<longleftrightarrow> st = CANCELLED"
  "saga_state_value st = ''CONFIRMED_DEGRADED'' \<longleftrightarrow> st = CONFIRMED_DEGRADED"
  by (cases st; simp)+

text \<open>The cards: degraded sagas are among the confirmed ones, and no saga is both confirmed and cancelled.\<close>

lemma stats_cards_consistent:
  "sc_degraded (api_stats_cards db) \<le> sc_confirmed (api_stats_cards db)"
  "sc_confirmed (api_stats_cards db) + sc_cancelled (api_stats_cards db) \<le> sc_total (api_stats_cards db)"
proof -
  have "length (filter (\<lambda>s. current_state s = CONFIRMED_DEGRADED) rows) \<le>
      length (filter (\<lambda>s. current_state s = CONFIRMED \<or> current_state s = CONFIRMED_DEGRADED) rows)" for rows
    by (induction rows) auto
  then show "sc_degraded (api_stats_cards db) \<le> sc_confirmed (api_stats_cards db)"
    by (simp add: api_stats_cards_def count_like_def count_degraded_def state_names)
  have "length (filter (\<lambda>s. current_state s = CONFIRMED \<or> current_state s = CONFIRMED_DEGRADED) rows) +
      length (filter (\<lambda>s. current_state s = CANCELLED) rows) \<le> length rows" for rows
    by (induction rows) auto
  then show "sc_confirmed (api_stats_cards db) + sc_cancelled (api_stats_cards db) \<le> sc_total (api_stats_cards db)"
    by (simp add: api_stats_cards_def count_like_def state_names)
qed

text \<open>The saga explorer lists at most a hundred sagas, newest first, and every saga in the asked state when there are no more.\<close>

lemma sagas_page_rows:
  assumes "map fst (sagas_page now state db) = rows"
  shows "length rows \<le> 100" and "sorted_wrt (\<lambda>a b. sg_started_at b \<le> sg_started_at a) rows"
    and "state \<noteq> [] \<Longrightarrow> s \<in> set rows \<Longrightarrow> saga_state_value (current_state s) = state"
    and "length (saga_instances db) \<le> 100 \<Longrightarrow> s \<in> set (saga_instances db) \<Longrightarrow>
      state = [] \<or> saga_state_value (current_state s) = state \<Longrightarrow> s \<in> set rows"
proof -
  define xs where "xs = (if state \<noteq> [] then filter (\<lambda>s. saga_state_value (current_state s) = state) (saga_instances db) else saga_instances db)"
  have rows: "rows = take 100 (newest_sagas xs)" using assms by (auto simp: sagas_page_def xs_def Let_def comp_def)
  then show "length rows \<le> 100" by simp
  have "sorted_wrt (\<lambda>a b. sg_started_at b \<le> sg_started_at a) (newest_sagas xs)"
    using sorted_sort_key [of "\<lambda>s. - sg_started_at s" xs] by (simp add: newest_sagas_def sorted_map)
  then show "sorted_wrt (\<lambda>a b. sg_started_at b \<le> sg_started_at a) rows" by (simp add: rows sorted_wrt_take)
  show "saga_state_value (current_state s) = state" if "state \<noteq> []" "s \<in> set rows"
    using that in_set_takeD [of s 100 "newest_sagas xs"] by (auto simp: rows newest_sagas_def xs_def)
  show "s \<in> set rows" if "length (saga_instances db) \<le> 100" "s \<in> set (saga_instances db)"
    "state = [] \<or> saga_state_value (current_state s) = state"
  proof -
    have "length xs \<le> 100" using that(1) by (simp add: xs_def le_trans [OF length_filter_le])
    then show ?thesis using that(2,3) by (auto simp: rows newest_sagas_def xs_def)
  qed
qed

text \<open>The feed: at most fifty events, the greatest identifiers first, each from a stream that could be read.\<close>

lemma api_events_feed:
  "length (api_events x) \<le> 50" "sorted_wrt (\<lambda>a b. fe_event_id b \<le> fe_event_id a) (api_events x)"
  "e \<in> set (api_events x) \<Longrightarrow> \<exists>es. x (fe_stream e) 20 = Inr es \<and> (fe_event_id e, fe_data e) \<in> set es"
proof -
  let ?all = "concat (map (stream_events x) FEED_STREAMS)"
  show "length (api_events x) \<le> 50" by (simp add: api_events_def)
  have "sorted_wrt (\<lambda>a b. fe_event_id a \<le> fe_event_id b) (sort_key fe_event_id (rev ?all))"
    using sorted_sort_key [of fe_event_id "rev ?all"] by (simp only: sorted_map)
  then have "sorted_wrt (\<lambda>a b. fe_event_id b \<le> fe_event_id a) (rev (sort_key fe_event_id (rev ?all)))" by (simp only: sorted_wrt_rev)
  then show "sorted_wrt (\<lambda>a b. fe_event_id b \<le> fe_event_id a) (api_events x)" unfolding api_events_def by (rule sorted_wrt_take)
  assume "e \<in> set (api_events x)"
  then have "e \<in> set ?all" unfolding api_events_def using in_set_takeD by fastforce
  then show "\<exists>es. x (fe_stream e) 20 = Inr es \<and> (fe_event_id e, fe_data e) \<in> set es"
    by (auto simp: stream_events_def split: sum.splits dest!: sym [where t = "x _ _"])
qed

section \<open>The race\<close>

lemma race_worker_rejected:
  "snd (race_worker item s sh) = s" "dict_get (snd (fst (race_worker item s sh))) ''status'' = JNull"
  by (cases "sh_fate sh"; simp add: race_worker_def serve_reserve_json_def decode_reserve_def race_body_def dict_get_or_def)+

lemma race_run:
  "run (race_worker item) s shoppers = s"
  "\<forall>x \<in> set (outcomes (race_worker item) s shoppers). dict_get (snd x) ''status'' = JNull"
  by (induction shoppers) (simp_all add: race_worker_rejected)

lemma find_update_first:
  assumes "find p xs = Some x" and "p (f x)"
  shows "find p (update_first p f xs) = Some (f x)"
  using assms by (induction xs) (auto split: if_splits)

lemma find_None_notin: "find (\<lambda>it. item_id it = i) xs = None \<Longrightarrow> i \<notin> item_id ` set xs"
  by (auto simp: find_None_iff)

lemma find_append_None: "find p xs = None \<Longrightarrow> find p (xs @ ys) = find p ys"
  by (induction xs) (auto split: if_splits)

lemma set_stock_effect:
  assumes "inventory_ok (inv_db s)"
  shows "\<exists>s'. set_stock s i n = (Inr (), s') \<and> get_item_stock s' i = n \<and> reservations (inv_db s') = reservations (inv_db s)"
proof (cases "find_item i (inv_db s)")
  case None
  with assms show ?thesis
    by (auto simp: set_stock_def get_session_def inventory_ok_def get_item_stock_def find_item_def find_append_None dest: find_None_notin)
next
  case (Some it)
  then have "item_id it = i" by (auto simp: find_item_def find_Some_iff)
  with Some assms show ?thesis
    by (simp add: set_stock_def get_session_def inventory_ok_def get_item_stock_def find_item_def find_update_first)
qed

section \<open>The chaos panel\<close>

text \<open>The page shows what the payment service does.\<close>

fun agree :: "chaos_state \<times> payment_service \<Rightarrow> bool" where
  "agree (c, p) \<longleftrightarrow> fail_rate p = of_int (cs_fail_rate c) / 100 \<and> latency_ms p = cs_latency c"

datatype chaos_op = SetFailRate transport int | SetLatency transport int | ResetAll transport transport

fun chaos_step :: "chaos_state \<times> payment_service \<Rightarrow> chaos_op \<Rightarrow> unit \<times> chaos_state \<times> payment_service" where
  "chaos_step cp (SetFailRate fate r) = ((), set_payment_fail_rate fate r cp)"
| "chaos_step cp (SetLatency fate n) = ((), set_payment_latency fate n cp)"
| "chaos_step cp (ResetAll f1 f2) = ((), reset_all_chaos f1 f2 cp)"

fun arrives :: "chaos_op \<Rightarrow> bool" where
  "arrives (SetFailRate fate r) \<longleftrightarrow> fate \<noteq> LostRequest"
| "arrives (SetLatency fate n) \<longleftrightarrow> fate \<noteq> LostRequest"
| "arrives (ResetAll f1 f2) \<longleftrightarrow> f1 \<noteq> LostRequest \<and> f2 \<noteq> LostRequest"

lemma exchange_arrives: "fate \<noteq> LostRequest \<Longrightarrow> snd (exchange fate serve s) = snd (serve s)"
  by (cases fate) (auto split: prod.split)

lemmas chaos_defs = set_payment_fail_rate_def set_payment_latency_def reset_all_chaos_def serve_fail_rate_def serve_latency_def
  set_fail_rate_def set_latency_def

lemma chaos_step_agree: "agree cp \<Longrightarrow> arrives op \<Longrightarrow> agree (snd (chaos_step cp op))"
  by (cases cp; cases op) (simp_all add: chaos_defs exchange_arrives Let_def)

interpretation panel: guarded_service chaos_step arrives agree
  by unfold_locales (rule chaos_step_agree)

section \<open>The idempotency demo\<close>

lemma order_inv_rows:
  assumes "order_inv s"
  shows "length (orders (order_db s)) = card (dom (order_store s))"
  using assms distinct_card [of "map order_key (orders (order_db s))"] by (simp add: order_inv_def order_db_ok_def)

lemma post_order_inv: "order_inv s \<Longrightarrow> order_inv (snd (post_order s q))"
  using order_op_inv [of s "Create q"] by (simp split: prod.splits)

lemma post_order_store:
  shows "dom (order_store (snd (post_order s (env, PostOrderLegacy a req key)))) \<subseteq> insert key (dom (order_store s))"
    and "dom (order_store s) \<subseteq> dom (order_store (snd (post_order s (env, PostOrderLegacy a req key))))"
    and "post_order s (env, PostOrderLegacy a req key) = (Inr r, s') \<Longrightarrow> key \<in> dom (order_store s')"
proof -
  show "dom (order_store (snd (post_order s (env, PostOrderLegacy a req key)))) \<subseteq> insert key (dom (order_store s))"
    by (auto simp: post_order_def create_order_legacy_def place_order_def Let_def idem_set_def split: option.splits prod.splits sum.splits if_splits)
  show "dom (order_store s) \<subseteq> dom (order_store (snd (post_order s (env, PostOrderLegacy a req key))))"
    using ord.keep [of s _ _ "(env, PostOrderLegacy a req key)"] by (auto simp: post_order_def idem_get_def)
  show "key \<in> dom (order_store s')" if "post_order s (env, PostOrderLegacy a req key) = (Inr r, s')"
    using that ord.fill [of s "(env, PostOrderLegacy a req key)" r s'] by (auto simp: post_order_def idem_get_def split: if_splits)
qed

lemma demo_attempt_cases:
  assumes "demo_attempt fate env req key s = (r, s')"
  shows "s' = s \<or> s' = snd (post_order s (env, PostOrderLegacy None req key))"
    and "dict_get (snd r) ''order_id'' \<noteq> JNull \<Longrightarrow> key \<in> dom (order_store s')"
proof -
  obtain out s1 where post: "post_order s (env, PostOrderLegacy None req key) = (out, s1)" by fastforce
  show "s' = s \<or> s' = snd (post_order s (env, PostOrderLegacy None req key))"
    using assms post by (cases fate; cases out) (auto simp: demo_attempt_def serve_order_def split: sum.splits)
  show "key \<in> dom (order_store s')" if "dict_get (snd r) ''order_id'' \<noteq> JNull"
  proof (cases out)
    case (Inr o1)
    have "s' = s1 \<or> fate = LostRequest" using assms post Inr
      by (cases fate) (auto simp: demo_attempt_def serve_order_def split: sum.splits)
    moreover have "fate \<noteq> LostRequest" using assms that by (auto simp: demo_attempt_def dict_get_or_def)
    ultimately show ?thesis using post_order_store(3) post Inr by blast
  next
    case (Inl e)
    then have "dict_get (snd r) ''order_id'' = JNull" using assms post
      by (cases fate; cases e) (auto simp: demo_attempt_def serve_order_def decode_body_def dict_get_or_def split: sum.splits if_splits)
    with that show ?thesis by simp
  qed
qed

lemma post_order_error:
  assumes "post_order s (env, PostOrderLegacy a req key) = (Inl e, s')"
  shows "e = IntegrityError \<or> e = HTTPException 422 ''validation error''"
  using assms
  by (auto simp: post_order_def create_order_legacy_def place_order_def create_body_def get_session_def Let_def
      split: if_splits option.splits prod.splits sum.splits)

lemma demo_replay:
  assumes "demo_attempt Delivered env req key s = (r, s')" and "fst r = 202"
  shows "demo_attempt Delivered env' req key s' = (r, s')" and "dict_get (snd r) ''order_id'' \<noteq> JNull"
proof -
  obtain out s1 where post: "post_order s (env, PostOrderLegacy None req key) = (out, s1)" by fastforce
  obtain o1 where out: "out = Inr o1"
  proof (cases out)
    case (Inl e)
    with post_order_error [of s env None req key e s1] post assms have False
      by (auto simp: demo_attempt_def serve_order_def decode_body_def)
    then show ?thesis ..
  qed
  have r: "r = (202, encode_order o1)" "s' = s1"
    using assms post out by (auto simp: demo_attempt_def serve_order_def decode_body_def)
  have "order_step s (env, PostOrderLegacy None req key) = (Inr o1, s1)" and valid: "valid_create req"
    using post out by (auto simp: post_order_def split: if_splits)
  from ord.replay [OF this(1), of "(env', PostOrderLegacy None req key)" "[]"]
  have "order_step s1 (env', PostOrderLegacy None req key) = (Inr o1, s1)" by simp
  with r valid show "demo_attempt Delivered env' req key s' = (r, s')"
    by (simp add: demo_attempt_def serve_order_def decode_body_def post_order_def)
  show "dict_get (snd r) ''order_id'' \<noteq> JNull" using r by (simp add: encode_order_def dict_get_or_def)
qed

lemma filter_key_count:
  "distinct (map f xs) \<Longrightarrow> length (filter (\<lambda>x. f x = k) xs) = (if k \<in> f ` set xs then 1 else 0)"
  by (induction xs) (auto simp: image_iff)

lemma demo_attempt_keeps:
  assumes "order_inv s" and "demo_attempt fate env req key s = (r, s')"
  shows "order_inv s'" and "dom (order_store s') \<subseteq> insert key (dom (order_store s))" and "dom (order_store s) \<subseteq> dom (order_store s')"
  using demo_attempt_cases(1) [OF assms(2)] post_order_inv [OF assms(1)] assms(1) post_order_store(1,2) [of s env None req key] by auto

section \<open>Properties\<close>

text \<open>
  The idempotency demo. Whatever happens to its two requests, the demo adds at most one order, at
  most one order has its key, and exactly one does when the report shows the same order twice; when both
  requests are delivered and the first is accepted, the two answers are the same. But its headline says
  that idempotency is verified and one order created also when neither request arrived and nothing changed.
\<close>

theorem idempotency_demo_truth:
  assumes "order_inv s" and "api_idempotency_demo draws a1 a2 k customer restaurant amount s = (rep, s')"
  shows "length (orders (order_db s')) \<le> length (orders (order_db s)) + 1 \<and>
    length (filter (\<lambda>row. order_key row = dm_key rep) (orders (order_db s'))) \<le> 1 \<and>
    (dm_same_order rep \<longrightarrow> length (filter (\<lambda>row. order_key row = dm_key rep) (orders (order_db s'))) = 1) \<and>
    (fst a1 = Delivered \<and> fst a2 = Delivered \<and> fst (dm_first rep) = 202 \<longrightarrow> dm_same_order rep \<and> dm_second rep = dm_first rep) \<and>
    dm_title rep = ''Idempotency Verified - Exactly 1 Database Order Created'' \<and>
    (fst a1 = LostRequest \<and> fst a2 = LostRequest \<longrightarrow> s' = s)"
proof -
  define req where "req = \<lparr>co_customer_id = customer, co_restaurant_id = restaurant, co_items = [''Chicken Biryani'', ''Butter Naan''],
      co_total_amount = amount\<rparr>"
  let ?key = "dm_key rep"
  obtain r1 s1 where a1: "demo_attempt (fst a1) (snd a1) req ?key s = (r1, s1)" by fastforce
  obtain r2 s2 where a2: "demo_attempt (fst a2) (snd a2) req ?key s1 = (r2, s2)" by fastforce
  have rep: "s' = s2" "dm_first rep = r1" "dm_second rep = r2"
    "dm_title rep = ''Idempotency Verified - Exactly 1 Database Order Created''"
    "dm_same_order rep \<longleftrightarrow> dict_get (snd r1) ''order_id'' \<noteq> JNull \<and> dict_get (snd r1) ''order_id'' = dict_get (snd r2) ''order_id''"
    using assms(2) a1 a2 by (auto simp: api_idempotency_demo_def Let_def req_def split: prod.splits)
  note k1 = demo_attempt_keeps [OF assms(1) a1]
  note k2 = demo_attempt_keeps [OF k1(1) a2]
  have keys: "dom (order_store s') \<subseteq> insert ?key (dom (order_store s))" using k1 k2 rep(1) by blast
  have fin: "finite (dom (order_store s))" using assms(1) by (simp add: order_inv_def)
  have inv: "order_inv s'" using k2(1) rep(1) by simp
  have "card (dom (order_store s')) \<le> card (dom (order_store s)) + 1"
    using card_mono [OF _ keys] card_insert_le_m1 fin by (metis Suc_eq_plus1 card_insert_if finite_insert le_SucI)
  then have rows: "length (orders (order_db s')) \<le> length (orders (order_db s)) + 1"
    by (simp add: order_inv_rows inv assms(1))
  have count: "length (filter (\<lambda>row. order_key row = ?key) (orders (order_db s'))) = (if ?key \<in> dom (order_store s') then 1 else 0)"
    using inv filter_key_count [of order_key "orders (order_db s')" ?key] by (simp add: order_inv_def order_db_ok_def)
  have same: "dm_same_order rep \<Longrightarrow> ?key \<in> dom (order_store s')"
    using demo_attempt_cases(2) [OF a1] k2(3) rep(1,5) by blast
  have replay: "dm_same_order rep \<and> dm_second rep = dm_first rep" if "fst a1 = Delivered" "fst a2 = Delivered" "fst (dm_first rep) = 202"
    using demo_replay(1) [of "snd a1" req ?key s r1 s1 "snd a2"] demo_replay(2) [of "snd a1" req ?key s r1 s1] a1 a2 that rep by simp
  have lost: "s' = s" if "fst a1 = LostRequest" "fst a2 = LostRequest"
    using a1 a2 that rep(1) by (auto simp: demo_attempt_def)
  show ?thesis using rows count same replay lost rep(4) by auto
qed

theorem idempotency_demo_truth_witness:
  "\<exists>rep s'. api_idempotency_demo ''A1'' (LostRequest, \<lparr>env_uuid = ''A'', env_random = 0, env_now = 0, env_event_uuid = ''B'', env_iso = ''C''\<rparr>)
       (LostRequest, \<lparr>env_uuid = ''D'', env_random = 0, env_now = 0, env_event_uuid = ''E'', env_iso = ''F''\<rparr>)
       None ''CUST'' ''REST'' 450 no_orders = (rep, s') \<and> order_inv no_orders \<and> s' = no_orders \<and>
     dm_title rep = ''Idempotency Verified - Exactly 1 Database Order Created''"
proof -
  let ?a = "(LostRequest, \<lparr>env_uuid = ''A'', env_random = 0, env_now = 0, env_event_uuid = ''B'', env_iso = ''C''\<rparr>)"
  let ?b = "(LostRequest, \<lparr>env_uuid = ''D'', env_random = 0, env_now = 0, env_event_uuid = ''E'', env_iso = ''F''\<rparr>)"
  obtain rep s' where run: "api_idempotency_demo ''A1'' ?a ?b None ''CUST'' ''REST'' 450 no_orders = (rep, s')" by fastforce
  from idempotency_demo_truth [OF no_orders_inv run] run no_orders_inv show ?thesis by auto
qed

text \<open>
  The flash sale race sells nothing. However the workers' requests interleave and whichever
  messages are lost, the race reports no winner and every shopper as rejected for lack of stock,
  while the one unit stays in stock and no reservation is written: the requests carry their
  idempotency key in a header, and the reservation endpoint refuses a body without it.
\<close>

theorem flash_sale_race_sells_nothing:
  assumes "inventory_ok (inv_db s)" and "api_flash_sale_race draws fate_init shoppers fate_stock s = (Some rep, s')"
  shows "rp_winners rep = 0 \<and> rp_losers rep = length shoppers \<and> get_item_stock s' (''FLASH-'' @ draws) = 1 \<and>
    reservations (inv_db s') = reservations (inv_db s) \<and> (fate_stock = Delivered \<longrightarrow> rp_final_stock rep = JInt 1)"
proof -
  let ?item = "''FLASH-'' @ draws"
  obtain s1 where s1: "set_stock s ?item 1 = (Inr (), s1)" "get_item_stock s1 ?item = 1"
    "reservations (inv_db s1) = reservations (inv_db s)"
    using set_stock_effect [OF assms(1), of ?item 1] by blast
  have init: "fate_init = Delivered"
    using assms(2) s1 by (cases fate_init) (auto simp: api_flash_sale_race_def serve_set_stock_def Let_def)
  have none: "filter (\<lambda>(code, body). dict_get body ''status'' = JStr ''RESERVED'') (outcomes (race_worker ?item) s1 shoppers) = []"
    using race_run(2) [of ?item s1 shoppers] by (auto simp: filter_empty_conv)
  obtain r_stock where stock: "exchange fate_stock (serve_stock ?item) s1 = (r_stock, s1)"
    by (cases fate_stock) (auto simp: serve_stock_def)
  have "s' = s1 \<and> rp_winners rep = 0 \<and> rp_losers rep = length shoppers"
    using assms(2) init s1(1) none stock by (simp add: api_flash_sale_race_def serve_set_stock_def race_run(1) Let_def del: set_filter) auto
  moreover have "rp_final_stock rep = JInt 1" if "fate_stock = Delivered"
    using assms(2) init s1(1,2) that
    by (simp add: api_flash_sale_race_def serve_set_stock_def serve_stock_def race_run(1) Let_def dict_get_or_def) auto
  ultimately show ?thesis using s1 by simp
qed

theorem flash_sale_race_sells_nothing_witness:
  "\<exists>rep s'. api_flash_sale_race ''0A'' Delivered
       (map (\<lambda>n. \<lparr>sh_number = n, sh_uuid = ''U'', sh_fate = Delivered, sh_env = \<lparr>env_uuid = ''R'', env_random = 0, env_now = 0\<rparr>\<rparr>) [1..<21])
       Delivered (pf_inventory (small_platform [] 5)) = (Some rep, s') \<and> rp_winners rep = 0 \<and> rp_losers rep = 20"
proof -
  let ?s = "pf_inventory (small_platform [] 5)" and ?sh = "map (\<lambda>n. \<lparr>sh_number = n, sh_uuid = ''U'', sh_fate = Delivered,
      sh_env = \<lparr>env_uuid = ''R'', env_random = 0, env_now = 0\<rparr>\<rparr>) [1..<21]"
  have ok: "inventory_ok (inv_db ?s)" by (simp add: small_platform_def inventory_ok_def)
  from set_stock_effect [OF this, of "''FLASH-0A''" 1] obtain s1 where "set_stock ?s ''FLASH-0A'' 1 = (Inr (), s1)" by auto
  then obtain rep s' where run: "api_flash_sale_race ''0A'' Delivered ?sh Delivered ?s = (Some rep, s')"
    by (auto simp: api_flash_sale_race_def serve_set_stock_def serve_stock_def Let_def)
  from flash_sale_race_sells_nothing [OF ok run] run show ?thesis by auto
qed

text \<open>
  The chaos panel. As long as no request of the console is lost, its page shows the failure rate
  and the latency the payment service works with, after any sequence of changes and resets. A lost
  request is not reported: the page shows the new rate and the service keeps the old one.
\<close>

theorem chaos_panel_truthful:
  "(agree cp \<and> list_all arrives ops \<longrightarrow>
      chaos_page (fst (run chaos_step cp ops)) = (n, l) \<longrightarrow>
        fail_rate (snd (run chaos_step cp ops)) = of_int n / 100 \<and> latency_ms (snd (run chaos_step cp ops)) = l) \<and>
   chaos_page (fst (set_payment_fail_rate LostRequest rate cp)) = (rate, cs_latency (fst cp)) \<and>
   snd (set_payment_fail_rate LostRequest rate cp) = snd cp"
  using panel.run_inv [of cp ops] by (cases "run chaos_step cp ops") (auto simp: chaos_page_def set_payment_fail_rate_def)

theorem chaos_panel_truthful_witness:
  "let p = pf_payment (small_platform [] 1);
       c = \<lparr>cs_fail_rate = 0, cs_latency = 0, cs_env_fail_rate = 0, cs_env_latency = 0\<rparr>;
       cp = run chaos_step (c, p) [SetFailRate Delivered 50, SetLatency LostResponse 2000]
   in fail_rate (snd cp) = 1 / 2 \<and> latency_ms (snd cp) = 2000"
proof -
  let ?c = "\<lparr>cs_fail_rate = 0, cs_latency = 0, cs_env_fail_rate = 0, cs_env_latency = 0\<rparr>" and ?p = "pf_payment (small_platform [] 1)"
  have start: "agree (?c, ?p)" "list_all arrives [SetFailRate Delivered 50, SetLatency LostResponse 2000]" by (simp_all add: small_platform_def)
  show ?thesis
    using chaos_panel_truthful [of "(?c, ?p)" "[SetFailRate Delivered 50, SetLatency LostResponse 2000]" 50 2000] start
    by (simp add: chaos_page_def set_payment_fail_rate_def set_payment_latency_def Let_def)
qed

end
