(* ===== verification/Inventory_Concurrency.thy ===== *)
theory Inventory_Concurrency
  imports Inventory
begin

text \<open>
  The inventory service under concurrent requests. FastAPI runs the handlers of \<^verbatim>\<open>services/inventory/app.py\<close> in a pool
  of threads, each with a session of its own; here every handler is cut into its atomic actions: the lookup in the
  shared idempotency store, one query per item, the commit, and the store of the answer. A query with
  \<^verbatim>\<open>with_for_update()\<close> waits for the row lock of another transaction and then reads the committed row; \<open>lk\<close> says whether
  the database has such locks (PostgreSQL) or ignores the clause (SQLite, the default of \<^verbatim>\<open>INVENTORY_DATABASE_URL\<close>).
  The session keeps each row it loaded (the identity map) and writes it back with the value computed in Python.
\<close>

section \<open>Threads\<close>

datatype phase =
    Lookup
  | Reading "string list"              \<comment> \<open>the items still to be queried\<close>
  | Storing reservation_response       \<comment> \<open>committed, the answer not yet cached\<close>
  | Answered "reservation_response outcome"

record worker =
  w_env :: call_env
  w_job :: inventory_request
  w_items :: "string list"
  w_loaded :: "(string \<times> int) list"  \<comment> \<open>the stock of each row when the session loaded it\<close>
  w_phase :: phase

record system =
  service :: inventory_service
  locks :: "string \<Rightarrow> nat option"
  workers :: "worker list"
  history :: "(string \<times> reserve_request) list"  \<comment> \<open>the committed reservations, in the order of their commits\<close>

definition new_worker :: "call_env \<times> inventory_request \<Rightarrow> worker" where
  "new_worker q = \<lparr>w_env = fst q, w_job = snd q, w_items = [], w_loaded = [], w_phase = Lookup\<rparr>"

definition launch :: "inventory_service \<Rightarrow> (call_env \<times> inventory_request) list \<Rightarrow> system" where
  "launch s qs = \<lparr>service = s, locks = (\<lambda>_. None), workers = map new_worker qs, history = []\<rparr>"

section \<open>The actions of a thread\<close>

definition put_worker :: "nat \<Rightarrow> worker \<Rightarrow> system \<Rightarrow> system" where
  "put_worker i w s = s\<lparr>workers := (workers s)[i := w]\<rparr>"

text \<open>The end of a transaction releases its locks.\<close>

definition unlock :: "nat \<Rightarrow> system \<Rightarrow> system" where
  "unlock i s = s\<lparr>locks := (\<lambda>x. if locks s x = Some i then None else locks s x)\<rparr>"

definition cache :: "worker \<Rightarrow> reservation_response \<Rightarrow> system \<Rightarrow> system" where
  "cache w r s =
     s\<lparr>service := (service s)\<lparr>inv_store :=
         idem_set (inv_store (service s)) (inventory_key (w_env w, w_job w)) r 200 (env_now (w_env w))\<rparr>\<rparr>"

definition put_db :: "inventory_db \<Rightarrow> system \<Rightarrow> system" where
  "put_db db s = s\<lparr>service := (service s)\<lparr>inv_db := db\<rparr>\<rparr>"

abbreviation database :: "system \<Rightarrow> inventory_db" where
  "database s \<equiv> inv_db (service s)"

definition lookup_action :: "nat \<Rightarrow> worker \<Rightarrow> system \<Rightarrow> system" where
  "lookup_action i w s =
     (case idem_get (inv_store (service s)) (inventory_key (w_env w, w_job w)) of
        Some e \<Rightarrow> put_worker i (w\<lparr>w_phase := Answered (Inr (ie_response e))\<rparr>) s
      | None \<Rightarrow>
          (case w_job w of
             Reserve req \<Rightarrow> put_worker i (w\<lparr>w_items := rq_items req, w_phase := Reading (rq_items req)\<rparr>) s
           | Release req \<Rightarrow>
               (case find (\<lambda>r. reservation_id r = rl_reservation_id req) (reservations (database s)) of
                  None \<Rightarrow> put_worker i (w\<lparr>w_phase := Answered (Inl (HTTPException 404
                    (''Reservation '' @ rl_reservation_id req @ '' not found'')))\<rparr>) s
                | Some r \<Rightarrow> put_worker i (w\<lparr>w_items := rsv_items r, w_phase := Reading (rsv_items r)\<rparr>) s)))"

text \<open>An item that is missing or has no stock: the answer is cached and the session closed.\<close>

definition rid_of :: "worker \<Rightarrow> string" where
  "rid_of w = ''RSV-'' @ env_uuid (w_env w)"

definition refuse :: "nat \<Rightarrow> worker \<Rightarrow> reserve_request \<Rightarrow> string \<Rightarrow> system \<Rightarrow> system" where
  "refuse i w req x s =
     (let r = reserve_response (rid_of w) req (Some x)
      in unlock i (put_worker i (w\<lparr>w_phase := Answered (Inr r)\<rparr>) (cache w r s)))"

text \<open>One query. A row that the session has loaded before keeps its loaded value.\<close>

definition loaded_value :: "worker \<Rightarrow> inventory_item \<Rightarrow> int" where
  "loaded_value w it = (case map_of (w_loaded w) (item_id it) of Some v \<Rightarrow> v | None \<Rightarrow> stock it)"

definition load :: "string \<Rightarrow> int \<Rightarrow> string list \<Rightarrow> worker \<Rightarrow> worker" where
  "load x v xs w = w\<lparr>w_loaded := (x, v) # w_loaded w, w_phase := Reading xs\<rparr>"

definition read_action :: "bool \<Rightarrow> nat \<Rightarrow> worker \<Rightarrow> string \<Rightarrow> string list \<Rightarrow> system \<Rightarrow> system option" where
  "read_action lk i w x xs s =
     (case w_job w of
        Reserve req \<Rightarrow>
          (case find_item x (database s) of
             None \<Rightarrow> Some (refuse i w req x s)
           | Some it \<Rightarrow>
               if lk \<and> locks s x \<notin> {None, Some i} then None
               else
                 let v = loaded_value w it;
                     s' = (if lk then s\<lparr>locks := (locks s)(x := Some i)\<rparr> else s)
                 in Some (if v \<le> 0 then refuse i w req x s' else put_worker i (load x v xs w) s'))
      | Release req \<Rightarrow>
          Some (case find_item x (database s) of
                  None \<Rightarrow> put_worker i (w\<lparr>w_phase := Reading xs\<rparr>) s
                | Some it \<Rightarrow> put_worker i (load x (loaded_value w it) xs w) s))"

text \<open>The flush: every loaded row is written with its loaded value changed by one per entry of the list.\<close>

definition write_back :: "int \<Rightarrow> worker \<Rightarrow> inventory_db \<Rightarrow> inventory_db" where
  "write_back d w db =
     db\<lparr>inv_items := map (\<lambda>it. case map_of (w_loaded w) (item_id it) of
          Some v \<Rightarrow> it\<lparr>stock := v + d * int (count_list (w_items w) (item_id it))\<rparr>
        | None \<Rightarrow> it) (inv_items db)\<rparr>"

definition reserved_db :: "worker \<Rightarrow> reserve_request \<Rightarrow> inventory_db \<Rightarrow> inventory_db" where
  "reserved_db w req db =
     (write_back (- 1) w db)\<lparr>reservations := reservations db @
        [\<lparr>reservation_id = rid_of w, rsv_order_id = rq_order_id req, rsv_items = rq_items req,
          rsv_status = inventory_status_value RESERVED, rsv_key = rq_key req\<rparr>]\<rparr>"

text \<open>The commit. The updates of a release wait for the locks of other transactions on its rows.\<close>

definition commit_action :: "bool \<Rightarrow> nat \<Rightarrow> worker \<Rightarrow> system \<Rightarrow> system option" where
  "commit_action lk i w s =
     (case w_job w of
        Reserve req \<Rightarrow>
          (let db = reserved_db w req (database s)
           in Some (unlock i
                (if inventory_ok db
                 then put_worker i (w\<lparr>w_phase := Storing (reserve_response (rid_of w) req None)\<rparr>)
                   ((put_db db s)\<lparr>history := history s @ [(rid_of w, req)]\<rparr>)
                 else put_worker i (w\<lparr>w_phase := Answered (Inl IntegrityError)\<rparr>) s)))
      | Release req \<Rightarrow>
          if lk \<and> (\<exists>x \<in> set (map fst (w_loaded w)). locks s x \<notin> {None, Some i}) then None
          else
            let db = write_back 1 w (database s);
                r = \<lparr>rr_reservation_id = rl_reservation_id req, rr_order_id = rl_order_id req, rr_status = RELEASED,
                     rr_items = w_items w, rr_key = rl_key req, rr_message = Some ''Stock released (compensating action)''\<rparr>
            in Some (put_worker i (w\<lparr>w_phase := Storing r\<rparr>)
                 (put_db (db\<lparr>reservations := update_first (\<lambda>r. reservation_id r = rl_reservation_id req)
                    (\<lambda>r. r\<lparr>rsv_status := inventory_status_value RELEASED\<rparr>) (reservations db)\<rparr>) s)))"

text \<open>The next action of thread \<open>i\<close>; none when it has answered or waits for a lock.\<close>

definition advance :: "bool \<Rightarrow> nat \<Rightarrow> system \<Rightarrow> system option" where
  "advance lk i s =
     (if i < length (workers s) then
        let w = workers s ! i
        in (case w_phase w of
              Lookup \<Rightarrow> Some (lookup_action i w s)
            | Reading (x # xs) \<Rightarrow> read_action lk i w x xs s
            | Reading [] \<Rightarrow> commit_action lk i w s
            | Storing r \<Rightarrow> Some (put_worker i (w\<lparr>w_phase := Answered (Inr r)\<rparr>) (cache w r s))
            | Answered r \<Rightarrow> None)
      else None)"

text \<open>The system runs under an arbitrary scheduler.\<close>

inductive runs_to :: "bool \<Rightarrow> system \<Rightarrow> nat \<Rightarrow> system \<Rightarrow> bool" for lk s0 where
  start: "runs_to lk s0 0 s0"
| move: "runs_to lk s0 n s \<Longrightarrow> advance lk i s = Some s' \<Longrightarrow> runs_to lk s0 (Suc n) s'"

text \<open>A schedule as a list of thread numbers.\<close>

fun follow :: "bool \<Rightarrow> nat list \<Rightarrow> system \<Rightarrow> system option" where
  "follow lk [] s = Some s"
| "follow lk (i # is) s = (case advance lk i s of None \<Rightarrow> None | Some s' \<Rightarrow> follow lk is s')"

section \<open>The sequential service\<close>

text \<open>The same reservations made one after the other, all of them successful.\<close>

fun serial :: "inventory_db \<Rightarrow> (string \<times> reserve_request) list \<Rightarrow> inventory_db option" where
  "serial db [] = Some db"
| "serial db ((rid, req) # rest) =
     (case get_session inventory_ok (reserve_body rid req) db of
        (Inr None, db') \<Rightarrow> serial db' rest
      | _ \<Rightarrow> None)"

lemma serial_append: "serial db (xs @ ys) = (case serial db xs of None \<Rightarrow> None | Some db' \<Rightarrow> serial db' ys)"
  by (induction xs arbitrary: db) (auto split: prod.splits sum.splits option.splits)

section \<open>Row locks make reservations serial\<close>

definition stock_at :: "inventory_db \<Rightarrow> string \<Rightarrow> int option" where
  "stock_at db x = map_option stock (find_item x db)"

definition holds :: "worker \<Rightarrow> string \<Rightarrow> bool" where
  "holds w x \<longleftrightarrow> (\<exists>xs. w_phase w = Reading xs) \<and> x \<in> fst ` set (w_loaded w)"

text \<open>What thread \<open>i\<close> knows: the rows it has read are locked by it and unchanged since, and have stock.\<close>

definition worker_ok :: "system \<Rightarrow> nat \<Rightarrow> worker \<Rightarrow> bool" where
  "worker_ok s i w \<longleftrightarrow>
     (\<exists>req. w_job w = Reserve req \<and> (w_phase w = Lookup \<longrightarrow> w_loaded w = []) \<and>
        (\<forall>xs. w_phase w = Reading xs \<longrightarrow> w_items w = rq_items req \<and>
           (\<exists>ys. rq_items req = ys @ xs \<and> fst ` set (w_loaded w) = set ys) \<and>
           (\<forall>x v. map_of (w_loaded w) x = Some v \<longrightarrow>
              locks s x = Some i \<and> stock_at (database s) x = Some v \<and> 0 < v)))"

definition guarded :: "system \<Rightarrow> bool" where
  "guarded s \<longleftrightarrow> inventory_ok (database s) \<and>
     (\<forall>i < length (workers s). worker_ok s i (workers s ! i)) \<and>
     (\<forall>x i. locks s x = Some i \<longrightarrow> i < length (workers s) \<and> holds (workers s ! i) x)"

lemma worker_ok_frame:
  assumes "worker_ok s j w"
    and "\<And>x. locks s x = Some j \<Longrightarrow> locks s' x = Some j \<and> stock_at (database s') x = stock_at (database s) x"
  shows "worker_ok s' j w"
  using assms unfolding worker_ok_def by (elim exE) (rule exI, fastforce)

lemma guarded_update:
  assumes "guarded s" and "i < length (workers s)" and ws: "workers s' = (workers s)[i := w']"
    and others: "\<And>j x. j \<noteq> i \<Longrightarrow> locks s x = Some j \<Longrightarrow>
      locks s' x = Some j \<and> stock_at (database s') x = stock_at (database s) x"
    and no_new: "\<And>j x. j \<noteq> i \<Longrightarrow> locks s' x = Some j \<Longrightarrow> locks s x = Some j"
    and own: "\<And>x. locks s' x = Some i \<Longrightarrow> holds w' x"
    and "worker_ok s' i w'" and "inventory_ok (database s')"
  shows "guarded s'"
proof -
  have "worker_ok s' j (workers s' ! j)" if "j < length (workers s')" for j
  proof (cases "j = i")
    case True
    with assms(2,7) ws show ?thesis by simp
  next
    case False
    with that ws assms(1) have "worker_ok s j (workers s ! j)" by (simp add: guarded_def)
    from worker_ok_frame [OF this others [OF False]] show ?thesis using False ws by simp
  qed
  moreover have "j < length (workers s') \<and> holds (workers s' ! j) x" if "locks s' x = Some j" for x j
  proof (cases "j = i")
    case True
    with own that assms(2) ws show ?thesis by simp
  next
    case False
    with no_new [OF False that] assms(1) ws show ?thesis by (auto simp: guarded_def)
  qed
  ultimately show ?thesis using assms(8) by (simp add: guarded_def)
qed

lemma update_first_unique:
  "distinct (map f xs) \<Longrightarrow> update_first (\<lambda>x. f x = k) g xs = map (\<lambda>x. if f x = k then g x else x) xs"
proof (induction xs)
  case (Cons x xs)
  have "map (\<lambda>y. if f y = k then g y else y) xs = xs" if "f x = k"
    using Cons.prems that by (intro map_idI) (auto simp: image_iff)
  with Cons show ?case by auto
qed simp

lemma take_stock_all:
  assumes "distinct (map item_id (inv_items db))"
  shows "take_stock is db =
    db\<lparr>inv_items := map (\<lambda>it. it\<lparr>stock := stock it - int (count_list is (item_id it))\<rparr>) (inv_items db)\<rparr>"
  using assms
proof (induction "is" arbitrary: db)
  case Nil
  then show ?case by simp
next
  case (Cons i "is")
  have "distinct (map item_id (inv_items (add_stock (- 1) i db)))" using Cons.prems by simp
  from Cons.IH [OF this] Cons.prems show ?case
    by (simp add: add_stock_def update_first_unique comp_def if_distrib cong: if_cong)
qed

text \<open>The rows a thread writes back are the ones it read, so its flush takes the units of its list.\<close>

lemma write_back_take:
  assumes "inventory_ok db" and "set (w_items w) \<subseteq> fst ` set (w_loaded w)"
    and "\<And>x v. map_of (w_loaded w) x = Some v \<Longrightarrow> stock_at db x = Some v"
  shows "write_back (- 1) w db = take_stock (w_items w) db"
proof -
  have dist: "distinct (map item_id (inv_items db))" using assms(1) by (simp add: inventory_ok_def)
  have found: "find_item (item_id it) db = Some it" if "it \<in> set (inv_items db)" for it
    unfolding find_item_def by (rule find_distinct [OF dist that])
  have "(case map_of (w_loaded w) (item_id it) of
          Some v \<Rightarrow> it\<lparr>stock := v + - 1 * int (count_list (w_items w) (item_id it))\<rparr> | None \<Rightarrow> it) =
      it\<lparr>stock := stock it - int (count_list (w_items w) (item_id it))\<rparr>" if "it \<in> set (inv_items db)" for it
  proof (cases "map_of (w_loaded w) (item_id it)")
    case None
    then have "item_id it \<notin> set (w_items w)" using assms(2) by (auto simp: map_of_eq_None_iff)
    then show ?thesis using None by (simp add: count_notin)
  next
    case (Some v)
    with assms(3) [OF Some] found [OF that] show ?thesis by (simp add: stock_at_def)
  qed
  then show ?thesis unfolding write_back_def take_stock_all [OF dist] by (simp cong: map_cong)
qed

lemma stock_at_write_back:
  assumes "x \<notin> fst ` set (w_loaded w)"
  shows "stock_at (write_back d w db) x = stock_at db x"
proof -
  have "find (\<lambda>it. item_id it = x) (map (\<lambda>it. case map_of (w_loaded w) (item_id it) of
          Some v \<Rightarrow> it\<lparr>stock := v + d * int (count_list (w_items w) (item_id it))\<rparr> | None \<Rightarrow> it) its) =
      find (\<lambda>it. item_id it = x) its" for its :: "inventory_item list"
    using assms by (induction its) (auto split: option.splits dest!: map_of_SomeD intro: rev_image_eqI)
  then show ?thesis by (simp add: stock_at_def find_item_def write_back_def)
qed

lemmas action_defs = put_worker_def unlock_def cache_def put_db_def

text \<open>The actions of a reserving thread in a database with row locks.\<close>

lemma reserve_action_cases:
  assumes "advance True i s = Some s'" and "worker_ok s i (workers s ! i)"
  obtains (answer) r store where "i < length (workers s)" "\<nexists>xs. w_phase (workers s ! i) = Reading xs"
      "s' = put_worker i ((workers s ! i)\<lparr>w_phase := Answered r\<rparr>) (s\<lparr>service := (service s)\<lparr>inv_store := store\<rparr>\<rparr>)"
  | (begin_read) req where "i < length (workers s)" "w_job (workers s ! i) = Reserve req" "w_loaded (workers s ! i) = []"
      "w_phase (workers s ! i) = Lookup"
      "s' = put_worker i ((workers s ! i)\<lparr>w_items := rq_items req, w_phase := Reading (rq_items req)\<rparr>) s"
  | (refused) r where "i < length (workers s)" "\<exists>xs. w_phase (workers s ! i) = Reading xs"
      "workers s' = (workers s)[i := (workers s ! i)\<lparr>w_phase := Answered r\<rparr>]" "database s' = database s" "history s' = history s"
      "\<And>x. locks s' x \<noteq> Some i" "\<And>x j. j \<noteq> i \<Longrightarrow> locks s' x = Some j \<longleftrightarrow> locks s x = Some j"
  | (read) req x xs v where "i < length (workers s)" "w_job (workers s ! i) = Reserve req"
      "w_phase (workers s ! i) = Reading (x # xs)" "locks s x \<in> {None, Some i}" "0 < v" "stock_at (database s) x = Some v"
      "s' = put_worker i (load x v xs (workers s ! i)) (s\<lparr>locks := (locks s)(x := Some i)\<rparr>)"
  | (committed) req where "i < length (workers s)" "w_job (workers s ! i) = Reserve req" "w_phase (workers s ! i) = Reading []"
      "inventory_ok (reserved_db (workers s ! i) req (database s))"
      "s' = unlock i (put_worker i ((workers s ! i)\<lparr>w_phase := Storing (reserve_response (rid_of (workers s ! i)) req None)\<rparr>)
         ((put_db (reserved_db (workers s ! i) req (database s)) s)\<lparr>history := history s @ [(rid_of (workers s ! i), req)]\<rparr>))"
proof -
  let ?w = "workers s ! i"
  have i: "i < length (workers s)" using assms(1) by (auto simp: advance_def split: if_splits)
  obtain req where job: "w_job ?w = Reserve req" using assms(2) by (auto simp: worker_ok_def)
  show thesis
  proof (cases "w_phase ?w")
    case Lookup
    then have "w_loaded ?w = []" using assms(2) by (auto simp: worker_ok_def)
    with Lookup i job assms(1) show thesis
      by (cases "idem_get (inv_store (service s)) (rq_key req)")
        (auto simp: advance_def lookup_action_def Let_def intro: begin_read answer [of _ "inv_store (service s)"])
  next
    case (Storing r)
    with i job assms(1) show thesis by (auto simp: advance_def cache_def Let_def intro: answer)
  next
    case (Answered r)
    with i assms(1) show thesis by (simp add: advance_def)
  next
    case (Reading zs)
    show thesis
    proof (cases zs)
      case Nil
      show thesis
      proof (cases "inventory_ok (reserved_db ?w req (database s))")
        case True
        with Nil Reading i job assms(1) show thesis by (intro committed) (auto simp: advance_def commit_action_def Let_def)
      next
        case False
        with Nil Reading i job assms(1) have "s' = unlock i (put_worker i (?w\<lparr>w_phase := Answered (Inl IntegrityError)\<rparr>) s)"
          by (auto simp: advance_def commit_action_def Let_def)
        with Reading i show thesis
          by (intro refused [of "Inl IntegrityError"]) (simp_all add: action_defs)
      qed
    next
      case (Cons x xs)
      show thesis
      proof (cases "find_item x (database s)")
        case None
        with Reading Cons i job assms(1) have "s' = refuse i ?w req x s" by (auto simp: advance_def read_action_def Let_def)
        with Reading i show thesis
          by (intro refused [of "Inr (reserve_response (rid_of ?w) req (Some x))"]) (simp_all add: refuse_def action_defs Let_def)
      next
        case (Some it)
        have free: "locks s x \<in> {None, Some i}" and v: "stock_at (database s) x = Some (loaded_value ?w it)"
        proof -
          show "locks s x \<in> {None, Some i}"
            using Some Reading Cons i job assms(1) by (auto simp: advance_def read_action_def Let_def split: if_splits)
          have "item_id it = x" using Some by (auto simp: find_item_def find_Some_iff)
          with Some Reading job assms(2) show "stock_at (database s) x = Some (loaded_value ?w it)"
            by (cases "map_of (w_loaded ?w) x") (fastforce simp: worker_ok_def loaded_value_def stock_at_def)+
        qed
        show thesis
        proof (cases "loaded_value ?w it \<le> 0")
          case True
          with Some Reading Cons i job assms(1) free have "s' = refuse i ?w req x (s\<lparr>locks := (locks s)(x := Some i)\<rparr>)"
            by (auto simp: advance_def read_action_def Let_def)
          with Reading i free show thesis
            by (intro refused [of "Inr (reserve_response (rid_of ?w) req (Some x))"]) (auto simp: refuse_def action_defs Let_def)
        next
          case False
          with Some Reading Cons i job assms(1) free v show thesis
            by (intro read [of req x xs "loaded_value ?w it"]) (auto simp: advance_def read_action_def Let_def)
        qed
      qed
    qed
  qed
qed

lemma loaded_some: "x \<in> fst ` set l \<Longrightarrow> \<exists>v. map_of l x = Some v"
  by (metis map_of_eq_None_iff option.exhaust)

lemma reserved_db_commit:
  assumes "inventory_ok db" and "w_items w = rq_items req" and "set (rq_items req) \<subseteq> fst ` set (w_loaded w)"
    and "\<And>x v. map_of (w_loaded w) x = Some v \<Longrightarrow> stock_at db x = Some v \<and> 0 < v" and "inventory_ok (reserved_db w req db)"
  shows "get_session inventory_ok (reserve_body (rid_of w) req) db = (Inr None, reserved_db w req db)"
proof -
  have pos: "0 < stock_of db x" if "x \<in> set (rq_items req)" for x
  proof -
    have "x \<in> fst ` set (w_loaded w)" using assms(3) that by (rule subsetD)
    from loaded_some [OF this] obtain v where "map_of (w_loaded w) x = Some v" ..
    from assms(4) [OF this] show ?thesis by (auto simp: stock_at_def stock_of_def)
  qed
  have "reserved_db w req db = (take_stock (rq_items req) db)\<lparr>reservations := reservations db @
      [\<lparr>reservation_id = rid_of w, rsv_order_id = rq_order_id req, rsv_items = rq_items req,
        rsv_status = inventory_status_value RESERVED, rsv_key = rq_key req\<rparr>]\<rparr>"
    using write_back_take [OF assms(1), of w] assms(2-4) by (simp add: reserved_db_def)
  moreover have "first_unavailable db (rq_items req) = None" using pos by (simp add: first_unavailable_None)
  ultimately show ?thesis using assms(5) by (simp add: get_session_def reserve_body_def Let_def)
qed

lemma stock_at_reservations [simp]: "stock_at (db\<lparr>reservations := rs\<rparr>) x = stock_at db x"
  by (simp add: stock_at_def)

lemma commit_guarded:
  assumes "guarded s" and "i < length (workers s)" and "w_job (workers s ! i) = Reserve req"
    and "w_phase (workers s ! i) = Reading []" and "inventory_ok (reserved_db (workers s ! i) req (database s))"
    and s': "s' = unlock i (put_worker i ((workers s ! i)\<lparr>w_phase := Storing (reserve_response (rid_of (workers s ! i)) req None)\<rparr>)
         ((put_db (reserved_db (workers s ! i) req (database s)) s)\<lparr>history := history s @ [(rid_of (workers s ! i), req)]\<rparr>))"
  shows "guarded s'"
    and "get_session inventory_ok (reserve_body (rid_of (workers s ! i)) req) (database s) = (Inr None, database s')"
proof -
  let ?w = "workers s ! i"
  have ok: "inventory_ok (database s)" "worker_ok s i ?w" using assms(1,2) by (simp_all add: guarded_def)
  from ok(2) assms(3,4) have known: "w_items ?w = rq_items req" "fst ` set (w_loaded ?w) = set (rq_items req)"
    "\<And>x v. map_of (w_loaded ?w) x = Some v \<Longrightarrow> locks s x = Some i \<and> stock_at (database s) x = Some v \<and> 0 < v"
    by (auto simp: worker_ok_def)
  show "get_session inventory_ok (reserve_body (rid_of ?w) req) (database s) = (Inr None, database s')"
    using reserved_db_commit [OF ok(1) known(1) _ _ assms(5)] known(2,3) by (simp add: s' action_defs)
  have mine: "x \<notin> fst ` set (w_loaded ?w)" if "locks s x = Some j" "j \<noteq> i" for x j
  proof
    assume "x \<in> fst ` set (w_loaded ?w)"
    from loaded_some [OF this] obtain v where "map_of (w_loaded ?w) x = Some v" ..
    from known(3) [OF this] that show False by simp
  qed
  show "guarded s'"
  proof (rule guarded_update [OF assms(1,2)])
    show "workers s' = (workers s)[i := ?w\<lparr>w_phase := Storing (reserve_response (rid_of ?w) req None)\<rparr>]"
      by (simp add: s' action_defs)
    show "locks s' x = Some j \<and> stock_at (database s') x = stock_at (database s) x" if "j \<noteq> i" "locks s x = Some j" for j x
      using that mine [OF that(2,1)] by (simp add: s' action_defs reserved_db_def stock_at_write_back)
    show "locks s x = Some j" if "j \<noteq> i" "locks s' x = Some j" for j x
      using that by (simp add: s' action_defs split: if_splits)
    show "holds (?w\<lparr>w_phase := Storing (reserve_response (rid_of ?w) req None)\<rparr>) x" if "locks s' x = Some i" for x
      using that by (simp add: s' action_defs split: if_splits)
    show "worker_ok s' i (?w\<lparr>w_phase := Storing (reserve_response (rid_of ?w) req None)\<rparr>)"
      using assms(3) by (simp add: worker_ok_def)
    show "inventory_ok (database s')" using assms(5) by (simp add: s' action_defs)
  qed
qed

text \<open>Every action keeps the locks and what the threads know; a commit extends the serial execution.\<close>

lemma advance_guarded:
  assumes "guarded s" and "advance True i s = Some s'"
  shows "guarded s'" and "serial db0 (history s) = Some (database s) \<Longrightarrow> serial db0 (history s') = Some (database s')"
proof -
  let ?w = "workers s ! i"
  have i: "i < length (workers s)" using assms(2) by (auto simp: advance_def split: if_splits)
  have ok: "worker_ok s i ?w" and inv: "inventory_ok (database s)" using assms(1) i by (simp_all add: guarded_def)
  note own = assms(1) [unfolded guarded_def, THEN conjunct2, THEN conjunct2, rule_format]
  have "guarded s' \<and> (serial db0 (history s) = Some (database s) \<longrightarrow> serial db0 (history s') = Some (database s'))"
    using assms(2) ok
  proof (cases rule: reserve_action_cases)
    case (answer r store)
    have "guarded s'"
      by (rule guarded_update [OF assms(1) i, of _ "?w\<lparr>w_phase := Answered r\<rparr>"])
        (use answer ok inv own [of _ i] in \<open>auto simp: action_defs worker_ok_def holds_def\<close>)
    with answer show ?thesis by (simp add: action_defs)
  next
    case (begin_read req)
    have "guarded s'"
      by (rule guarded_update [OF assms(1) i, of _ "?w\<lparr>w_items := rq_items req, w_phase := Reading (rq_items req)\<rparr>"])
        (use begin_read ok inv own [of _ i] in \<open>auto simp: action_defs worker_ok_def holds_def\<close>)
    with begin_read show ?thesis by (simp add: action_defs)
  next
    case (refused r)
    have "guarded s'"
      by (rule guarded_update [OF assms(1) i refused(3)]) (use refused ok inv in \<open>auto simp: worker_ok_def\<close>)
    with refused show ?thesis by simp
  next
    case (read req x xs v)
    have "guarded s'"
    proof (rule guarded_update [OF assms(1) i, of _ "load x v xs ?w"])
      show "worker_ok s' i (load x v xs ?w)"
        using read ok by (auto simp: worker_ok_def load_def action_defs)
    qed (use read inv own [of _ i] in \<open>auto simp: action_defs load_def holds_def split: if_splits\<close>)
    with read show ?thesis by (simp add: action_defs)
  next
    case (committed req)
    note c = commit_guarded [OF assms(1) committed(1-5)]
    have "history s' = history s @ [(rid_of ?w, req)]" using committed(5) by (simp add: action_defs)
    with c show ?thesis by (simp add: serial_append)
  qed
  then show "guarded s'" "serial db0 (history s) = Some (database s) \<Longrightarrow> serial db0 (history s') = Some (database s')" by simp_all
qed
section \<open>What an action changes\<close>

definition weight :: "worker \<Rightarrow> nat" where
  "weight w =
     (case w_phase w of
        Lookup \<Rightarrow> (case w_job w of Reserve req \<Rightarrow> length (rq_items req) | Release req \<Rightarrow> 0) + 3
      | Reading xs \<Rightarrow> length xs + 2
      | Storing r \<Rightarrow> 1
      | Answered r \<Rightarrow> 0)"

text \<open>An action changes its own thread only, keeps the thread's request, and brings a reserving thread closer to its answer.\<close>

lemma advance_own:
  assumes "advance lk i s = Some s'" and "w = workers s ! i"
  shows "i < length (workers s)"
    and "workers s' = (workers s)[i := workers s' ! i]" and "w_env (workers s' ! i) = w_env w" and "w_job (workers s' ! i) = w_job w"
    and "w_job w = Reserve req \<Longrightarrow> weight (workers s' ! i) < weight w"
    and "history s' = history s \<or> (\<exists>req. w_job w = Reserve req \<and> history s' = history s @ [(rid_of w, req)])"
proof -
  show i: "i < length (workers s)" using assms(1) by (auto simp: advance_def split: if_splits)
  note defs = advance_def Let_def action_defs weight_def assms(2) lookup_action_def read_action_def refuse_def load_def commit_action_def
  note splits = phase.splits list.splits inventory_request.splits option.splits if_splits
  show "workers s' = (workers s)[i := workers s' ! i]" using assms(1) i by (auto simp: defs split: splits)
  show "w_env (workers s' ! i) = w_env w" using assms(1) i by (auto simp: defs split: splits)
  show "w_job (workers s' ! i) = w_job w" using assms(1) i by (auto simp: defs split: splits)
  show "weight (workers s' ! i) < weight w" if "w_job w = Reserve req"
    using assms(1) i that by (auto simp: defs split: phase.splits list.splits option.splits if_splits)
  show "history s' = history s \<or> (\<exists>req. w_job w = Reserve req \<and> history s' = history s @ [(rid_of w, req)])"
    using assms(1) i by (auto simp: defs split: splits)
qed

definition total_weight :: "system \<Rightarrow> nat" where
  "total_weight s = sum_list (map weight (workers s))"

abbreviation reserving :: "system \<Rightarrow> bool" where
  "reserving s \<equiv> \<forall>w \<in> set (workers s). \<exists>req. w_job w = Reserve req"

lemma sum_list_update_less:
  fixes f :: "'a \<Rightarrow> nat"
  assumes "i < length xs" and "f y < f (xs ! i)"
  shows "sum_list (map f (xs[i := y])) < sum_list (map f xs)"
  using assms by (induction xs arbitrary: i) (auto simp: nth_Cons split: nat.splits)

lemma advance_weight:
  assumes "advance lk i s = Some s'" and "reserving s"
  shows "total_weight s' < total_weight s"
proof -
  note own = advance_own [OF assms(1) refl]
  obtain req where "w_job (workers s ! i) = Reserve req" using assms(2) own(1) nth_mem by blast
  from own(5) [OF this] own(1) sum_list_update_less [of i "workers s" weight "workers s' ! i"] show ?thesis
    unfolding total_weight_def by (subst own(2)) simp
qed

lemma advance_jobs:
  assumes "advance lk i s = Some s'"
  shows "map (\<lambda>w. (w_env w, w_job w)) (workers s') = map (\<lambda>w. (w_env w, w_job w)) (workers s)"
proof -
  note own = advance_own [OF assms refl]
  show ?thesis by (subst own(2)) (use own(1,3,4) in \<open>simp add: map_update list_update_same_conv\<close>)
qed

lemma jobs_reserving:
  "reserving s \<longleftrightarrow> (\<forall>q \<in> set (map (\<lambda>w. (w_env w, w_job w)) (workers s)). \<exists>req. snd q = Reserve req)"
  by auto

lemma launch_jobs: "map (\<lambda>w. (w_env w, w_job w)) (workers (launch s qs)) = qs"
  by (simp add: launch_def new_worker_def comp_def)

text \<open>What holds along every run: the requests stay, committed reservations are requested ones, and the weight is used up.\<close>

lemma runs_to_jobs:
  assumes "runs_to lk (launch s qs) n t"
  shows "map (\<lambda>w. (w_env w, w_job w)) (workers t) = qs"
    and "(rid, req) \<in> set (history t) \<Longrightarrow> Reserve req \<in> snd ` set qs"
  using assms
proof (induction arbitrary: rid req)
  case start
  { case 1 show ?case by (rule launch_jobs) }
  { case 2 then show ?case by (simp add: launch_def) }
next
  case (move n t i t')
  { case 1 show ?case using advance_jobs [OF move.hyps(2)] move.IH(1) by simp }
  { case 2
    note own = advance_own [OF move.hyps(2) refl]
    have "w_job (workers t ! i) \<in> snd ` set (map (\<lambda>w. (w_env w, w_job w)) (workers t))" using nth_mem [OF own(1)] by force
    then have job: "w_job (workers t ! i) \<in> snd ` set qs" using move.IH(1) by simp
    from own(6) show ?case
    proof
      assume "history t' = history t"
      with 2 move.IH(2) show ?case by simp
    next
      assume "\<exists>req. w_job (workers t ! i) = Reserve req \<and> history t' = history t @ [(rid_of (workers t ! i), req)]"
      then obtain req' where "w_job (workers t ! i) = Reserve req'" "history t' = history t @ [(rid_of (workers t ! i), req')]" by blast
      with 2 job move.IH(2) [of rid req] show ?case by (cases "(rid, req) \<in> set (history t)") simp_all
    qed }
qed

lemma runs_to_reserving:
  assumes "runs_to lk (launch s qs) n t" and "\<forall>q \<in> set qs. \<exists>req. snd q = Reserve req"
  shows "reserving t" and "n + total_weight t \<le> total_weight (launch s qs)"
proof -
  show "reserving t" using runs_to_jobs(1) [OF assms(1)] assms(2) unfolding jobs_reserving by simp
  show "n + total_weight t \<le> total_weight (launch s qs)" using assms
  proof (induction)
    case (move n t i t')
    have "reserving t" using runs_to_jobs(1) [OF move.hyps(1)] move.prems unfolding jobs_reserving by simp
    from advance_weight [OF move.hyps(2) this] move.IH [OF move.prems] show ?case by simp
  qed simp
qed

lemma runs_to_guarded:
  assumes "runs_to True (launch s qs) n t" and "inventory_ok (inv_db s)" and "\<forall>q \<in> set qs. \<exists>req. snd q = Reserve req"
  shows "guarded t \<and> serial (inv_db s) (history t) = Some (database t)"
  using assms(1)
proof induction
  case start
  have "worker_ok (launch s qs) i (workers (launch s qs) ! i)" if "i < length qs" for i
    using that assms(3) nth_mem [OF that] by (force simp: launch_def new_worker_def worker_ok_def)
  with assms(2) show ?case by (simp add: guarded_def launch_def)
next
  case (move n t i t')
  with advance_guarded(1) [of t i t'] advance_guarded(2) [of t i t' "inv_db s"] show ?case by blast
qed

section \<open>Serial reservations\<close>

lemma serial_step:
  assumes "get_session inventory_ok (reserve_body rid req) db = (Inr None, db')"
  shows "stock_of db' i = stock_of db i - int (count_list (rq_items req) i)"
    and "i \<in> set (rq_items req) \<Longrightarrow> 0 < stock_of db i" and "inventory_ok db'"
proof -
  from assms have body: "reserve_body rid req db = (Inr None, db')" and ok: "inventory_ok db'" by (simp_all add: get_session_commit)
  show "inventory_ok db'" by (rule ok)
  from body have avail: "first_unavailable db (rq_items req) = None"
    by (auto simp: reserve_body_def split: option.splits)
  then have pos: "\<forall>i \<in> set (rq_items req). 0 < stock_of db i" by (simp only: first_unavailable_None)
  then show "i \<in> set (rq_items req) \<Longrightarrow> 0 < stock_of db i" by simp
  have stock: "stock_of db' i = stock_of (take_stock (rq_items req) db) i"
    using body avail by (auto simp: reserve_body_def Let_def)
  show "stock_of db' i = stock_of db i - int (count_list (rq_items req) i)"
  proof (cases "find_item i db")
    case None
    then have "i \<notin> set (rq_items req)" using pos stock_of_missing [OF None] by auto
    with None stock show ?thesis by (simp add: stock_of_missing count_notin)
  next
    case (Some it)
    with stock show ?thesis by (simp add: stock_of_take_stock)
  qed
qed

lemma serial_stock:
  assumes "serial db h = Some db'"
  shows "stock_of db' i = stock_of db i - int (sum_list (map (\<lambda>(rid, req). count_list (rq_items req) i) h))"
    and "(\<forall>(rid, req) \<in> set h. distinct (rq_items req)) \<Longrightarrow> 0 \<le> stock_of db i \<Longrightarrow> 0 \<le> stock_of db' i"
  using assms
proof (induction h arbitrary: db)
  case Nil
  { case 1 then show ?case by simp }
  { case 2 then show ?case by simp }
next
  case (Cons e h)
  obtain rid req where e: "e = (rid, req)" by fastforce
  { case 1
    then obtain db1 where s: "get_session inventory_ok (reserve_body rid req) db = (Inr None, db1)" "serial db1 h = Some db'"
      by (auto simp: e split: prod.splits sum.splits option.splits)
    from serial_step(1) [OF s(1), of i] Cons.IH(1) [OF s(2)] show ?case by (simp add: e) }
  { case 2
    then obtain db1 where s: "get_session inventory_ok (reserve_body rid req) db = (Inr None, db1)" "serial db1 h = Some db'"
      by (auto simp: e split: prod.splits sum.splits option.splits)
    have "distinct (rq_items req)" using 2(1) by (simp add: e)
    then have "0 \<le> stock_of db1 i"
      using serial_step(1,2) [OF s(1), of i] 2(2) by (cases "i \<in> set (rq_items req)") (auto simp: count_notin distinct_count_list)
    with Cons.IH(2) [OF _ _ s(2)] 2 show ?case by simp }
qed

section \<open>Waiting for locks\<close>

definition answered :: "worker \<Rightarrow> bool" where
  "answered w \<longleftrightarrow> (\<exists>r. w_phase w = Answered r)"

lemma stuck_waits:
  assumes "advance True i s = None" and "i < length (workers s)" and "\<not> answered (workers s ! i)"
    and "w_job (workers s ! i) = Reserve req"
  shows "\<exists>x xs j. w_phase (workers s ! i) = Reading (x # xs) \<and> locks s x = Some j \<and> j \<noteq> i"
  using assms
  by (auto simp: advance_def answered_def commit_action_def read_action_def Let_def split: phase.splits list.splits option.splits if_splits)

text \<open>A thread that holds the row another one waits for has items left to query, and waits itself when nothing moves.\<close>

lemma holder_waits:
  assumes "guarded s" and "\<And>k. advance True k s = None" and "locks s x = Some j"
    and "\<And>req. w_job (workers s ! j) = Reserve req \<Longrightarrow> sorted (map rank (rq_items req)) \<and> inj_on rank (set (rq_items req))"
  shows "\<exists>y ys k. j < length (workers s) \<and> w_phase (workers s ! j) = Reading (y # ys) \<and> locks s y = Some k \<and> k \<noteq> j \<and>
    (rank x :: nat) < rank y"
proof -
  let ?w = "workers s ! j"
  have j: "j < length (workers s)" and hold: "holds ?w x" using assms(1,3) by (simp_all add: guarded_def)
  have ok: "worker_ok s j ?w" using assms(1) j by (simp add: guarded_def)
  then obtain req where job: "w_job ?w = Reserve req" by (auto simp: worker_ok_def)
  have "\<not> answered ?w" using hold by (auto simp: holds_def answered_def)
  from stuck_waits [OF assms(2) j this job] obtain y ys k
    where y: "w_phase ?w = Reading (y # ys)" "locks s y = Some k" "k \<noteq> j" by blast
  obtain pre where pre: "rq_items req = pre @ y # ys" "fst ` set (w_loaded ?w) = set pre"
    using ok job y(1) by (auto simp: worker_ok_def)
  have "x \<in> set pre" using hold pre(2) by (simp add: holds_def)
  with assms(4) [OF job] pre(1) have "rank x \<le> rank y" by (auto simp: sorted_append)
  moreover have "rank x \<noteq> rank y" 
    using y(2,3) assms(3) \<open>x \<in> set pre\<close> pre(1) inj_on_eq_iff [OF conjunct2 [OF assms(4) [OF job]], of x y] by auto
  ultimately show ?thesis using j y by auto
qed

lemma stuck_answered:
  assumes "guarded s" and "\<And>k. advance True k s = None"
    and "\<forall>w \<in> set (workers s). \<exists>req. w_job w = Reserve req \<and> sorted (map rank (rq_items req)) \<and> inj_on (rank :: string \<Rightarrow> nat) (set (rq_items req))"
  shows "\<forall>w \<in> set (workers s). answered w"
proof (rule ccontr)
  assume "\<not> ?thesis"
  then obtain i where i: "i < length (workers s)" "\<not> answered (workers s ! i)" by (auto simp: in_set_conv_nth)
  let ?W = "{x. \<exists>i xs j. i < length (workers s) \<and> w_phase (workers s ! i) = Reading (x # xs) \<and> locks s x = Some j}"
  have "?W \<subseteq> (\<lambda>i. THE x. \<exists>xs. w_phase (workers s ! i) = Reading (x # xs)) ` {..< length (workers s)}" by force
  then have fin: "finite ?W" by (rule finite_surj [rotated]) simp
  have sorted_job: "sorted (map rank (rq_items req)) \<and> inj_on rank (set (rq_items req))" if "j < length (workers s)" "w_job (workers s ! j) = Reserve req" for j req
    using assms(3) that nth_mem by fastforce
  obtain req where "w_job (workers s ! i) = Reserve req" using assms(3) i(1) nth_mem by blast
  from stuck_waits [OF assms(2) i this] i(1) have "?W \<noteq> {}" by blast
  with fin have "Max (rank ` ?W) \<in> rank ` ?W" by (intro Max_in) simp_all
  then obtain x where x: "Max (rank ` ?W) = rank x" "x \<in> ?W" by (rule imageE)
  have top: "rank y \<le> rank x" if "y \<in> ?W" for y unfolding x(1) [symmetric] by (rule Max_ge [OF finite_imageI [OF fin] imageI [OF that]])
  from x(2) obtain j where lock: "locks s x = Some j" by blast
  then have "j < length (workers s)" using assms(1) by (simp add: guarded_def)
  from holder_waits [OF assms(1,2) lock sorted_job [OF this]] obtain y ys k
    where "j < length (workers s)" "w_phase (workers s ! j) = Reading (y # ys)" "locks s y = Some k" "rank x < rank y" by blast
  with top [of y] show False by fastforce
qed

text \<open>A system whose stuck states are all finished can be run to the end.\<close>

lemma run_to_end:
  assumes "runs_to lk s0 n t" and "\<And>n t. runs_to lk s0 n t \<Longrightarrow> reserving t"
    and "\<And>n t. runs_to lk s0 n t \<Longrightarrow> (\<And>k. advance lk k t = None) \<Longrightarrow> \<forall>w \<in> set (workers t). answered w"
  shows "\<exists>m u. runs_to lk s0 m u \<and> (\<forall>w \<in> set (workers u). answered w)"
  using assms(1)
proof (induction "total_weight t" arbitrary: n t rule: less_induct)
  case less
  show ?case
  proof (cases "\<forall>k. advance lk k t = None")
    case True
    with assms(3) [OF less.prems] less.prems show ?thesis by blast
  next
    case False
    then obtain k t' where step: "advance lk k t = Some t'" by (meson not_None_eq)
    from less.hyps [OF advance_weight [OF step assms(2) [OF less.prems]] runs_to.move [OF less.prems step]] show ?thesis .
  qed
qed


section \<open>Answers and rows\<close>

definition has_row :: "inventory_db \<Rightarrow> reservation_response \<Rightarrow> bool" where
  "has_row db r \<longleftrightarrow> (rr_status r = RESERVED \<longrightarrow> rr_reservation_id r \<in> reservation_id ` set (reservations db))"

definition answer_ok :: "inventory_db \<Rightarrow> worker \<Rightarrow> bool" where
  "answer_ok db w \<longleftrightarrow> (\<forall>r. w_phase w = Storing r \<or> w_phase w = Answered (Inr r) \<longrightarrow> has_row db r)"

definition cache_ok :: "inventory_service \<Rightarrow> bool" where
  "cache_ok s \<longleftrightarrow> (\<forall>k e. idem_get (inv_store s) k = Some e \<longrightarrow> has_row (inv_db s) (ie_response e))"

lemma has_row_mono: "has_row db r \<Longrightarrow> set (reservations db) \<subseteq> set (reservations db') \<Longrightarrow> has_row db' r"
  by (auto simp: has_row_def)

lemma cache_ok_set:
  "cache_ok s \<Longrightarrow> has_row (inv_db s) r \<Longrightarrow> cache_ok (s\<lparr>inv_store := idem_set (inv_store s) k r c t\<rparr>)"
  by (simp add: cache_ok_def)

lemma refusal_has_row: "has_row db (reserve_response rid req (Some x))"
  by (simp add: has_row_def reserve_response_def)

lemma reserved_db_has_row: "has_row (reserved_db w req db) (reserve_response (rid_of w) req None)"
  by (simp add: has_row_def reserve_response_def reserved_db_def)

lemma advance_answers:
  assumes "advance lk i s = Some s'" and "w_job (workers s ! i) = Reserve req"
    and "cache_ok (service s)" and "answer_ok (database s) (workers s ! i)"
  shows "set (reservations (database s)) \<subseteq> set (reservations (database s'))" (is ?rows)
    and "cache_ok (service s')" and "answer_ok (database s') (workers s' ! i)"
proof -
  have i: "i < length (workers s)" by (rule advance_own(1) [OF assms(1) refl])
  note acts = advance_def Let_def action_defs lookup_action_def read_action_def refuse_def load_def commit_action_def
  note splits = phase.splits list.splits option.splits if_splits
  show ?rows using assms(1,2) by (auto simp: acts reserved_db_def split: splits)
  have mono: "cache_ok ((service s)\<lparr>inv_db := reserved_db (workers s ! i) req (database s)\<rparr>)"
    using assms(3) by (auto simp: cache_ok_def has_row_def reserved_db_def)
  have fresh: "cache_ok ((service s)\<lparr>inv_store := idem_set (inv_store (service s)) k r c t\<rparr>)"
    if "has_row (database s) r" for k r c t
    using assms(3) that by (rule cache_ok_set)
  show "cache_ok (service s')"
    using assms(1,2,3,4) i mono fresh [OF refusal_has_row] fresh
    by (auto simp: acts answer_ok_def split: splits)
  show "answer_ok (database s') (workers s' ! i)"
    using assms i by (auto simp: acts answer_ok_def cache_ok_def refusal_has_row reserved_db_has_row split: splits)
qed

lemma runs_to_answers:
  assumes "runs_to lk (launch s qs) n t" and "\<forall>q \<in> set qs. \<exists>req. snd q = Reserve req" and "cache_ok s"
  shows "cache_ok (service t) \<and> (\<forall>w \<in> set (workers t). answer_ok (database t) w)"
  using assms(1)
proof induction
  case start
  with assms(3) show ?case by (auto simp: launch_def new_worker_def answer_ok_def)
next
  case (move n t i t')
  note own = advance_own [OF move.hyps(2) refl]
  obtain req where "w_job (workers t ! i) = Reserve req"
    using runs_to_reserving(1) [OF move.hyps(1) assms(2)] nth_mem [OF own(1)] by blast
  note answers = advance_answers [OF move.hyps(2) this conjunct1 [OF move.IH] bspec [OF conjunct2 [OF move.IH] nth_mem [OF own(1)]]]
  have "answer_ok (database t') w" if "w \<in> set (workers t')" for w
  proof -
    have "w \<in> insert (workers t' ! i) (set (workers t))"
      using that set_update_subset_insert [of "workers t" i "workers t' ! i"] own(2) by auto
    with answers(3) move.IH show ?thesis by (auto simp: answer_ok_def dest: has_row_mono [OF _ answers(1)])
  qed
  with answers(2) show ?case by blast
qed

text \<open>The rows of a serial execution: those of the start, then one per reservation, in order.\<close>

lemma serial_rows:
  assumes "serial db h = Some db'"
  shows "map (\<lambda>r. (reservation_id r, rsv_key r)) (reservations db') =
    map (\<lambda>r. (reservation_id r, rsv_key r)) (reservations db) @ map (\<lambda>(rid, req). (rid, rq_key req)) h"
  using assms
proof (induction h arbitrary: db)
  case (Cons e h)
  obtain rid req where e: "e = (rid, req)" by fastforce
  from Cons.prems obtain db1 where s: "get_session inventory_ok (reserve_body rid req) db = (Inr None, db1)" "serial db1 h = Some db'"
    by (auto simp: e split: prod.splits sum.splits option.splits)
  from s(1) have "map (\<lambda>r. (reservation_id r, rsv_key r)) (reservations db1) =
      map (\<lambda>r. (reservation_id r, rsv_key r)) (reservations db) @ [(rid, rq_key req)]"
    by (auto simp: get_session_commit reserve_body_def Let_def split: option.splits)
  with Cons.IH [OF s(2)] show ?case by (simp add: e)
qed simp

section \<open>Properties\<close>

text \<open>
  C19: In a database with row locks, whatever the scheduler does, the concurrent reservations leave the database that the
  committed ones leave when they are made one after the other in the order of their commits: each unit missing from the stock
  belongs to a committed reservation, no stock goes below zero when no request names an item twice, no two committed
  reservations share a key, and every thread that answers RESERVED, from the cache too, has its row in the table.\<close>

theorem interleaved_reservations_serial:
  assumes "inventory_ok (inv_db s)" and "cache_ok s" and "\<forall>q \<in> set qs. \<exists>req. snd q = Reserve req"
    and "runs_to True (launch s qs) n t"
  shows "serial (inv_db s) (history t) = Some (database t) \<and>
    stock_of (database t) x = stock_of (inv_db s) x - int (sum_list (map (\<lambda>(rid, req). count_list (rq_items req) x) (history t))) \<and>
    ((\<forall>req. Reserve req \<in> snd ` set qs \<longrightarrow> distinct (rq_items req)) \<longrightarrow> 0 \<le> stock_of (inv_db s) x \<longrightarrow> 0 \<le> stock_of (database t) x) \<and>
    distinct (map (\<lambda>(rid, req). rq_key req) (history t)) \<and>
    (\<forall>w \<in> set (workers t). \<forall>r. w_phase w = Answered (Inr r) \<and> rr_status r = RESERVED \<longrightarrow>
       rr_reservation_id r \<in> reservation_id ` set (reservations (database t)))"
proof -
  from runs_to_guarded [OF assms(4,1,3)] have ser: "serial (inv_db s) (history t) = Some (database t)" and "guarded t" by blast+
  from \<open>guarded t\<close> have "distinct (map snd (map (\<lambda>r. (reservation_id r, rsv_key r)) (reservations (database t))))"
    by (simp add: guarded_def inventory_ok_def comp_def)
  then have "distinct (map (\<lambda>(rid, req). rq_key req) (history t))"
    unfolding serial_rows [OF ser] by (simp add: comp_def case_prod_unfold)
  moreover have "0 \<le> stock_of (database t) x"
    if "\<forall>req. Reserve req \<in> snd ` set qs \<longrightarrow> distinct (rq_items req)" "0 \<le> stock_of (inv_db s) x"
    using that runs_to_jobs(2) [OF assms(4)] by (intro serial_stock(2) [OF ser]) auto
  moreover have "\<forall>w \<in> set (workers t). answer_ok (database t) w" using runs_to_answers [OF assms(4,3,2)] by blast
  ultimately show ?thesis using ser serial_stock(1) [OF ser, of x] by (auto simp: answer_ok_def has_row_def)
qed


section \<open>Concrete runs\<close>

definition shop :: "int \<Rightarrow> inventory_service" where
  "shop n =
     \<lparr>inv_db = \<lparr>inv_items = [\<lparr>item_id = ''A'', item_name = ''Menu Item A'', stock = n\<rparr>,
                            \<lparr>item_id = ''B'', item_name = ''Menu Item B'', stock = n\<rparr>],
               reservations = []\<rparr>,
      inv_store = idem_init\<rparr>"

definition order_of :: "string \<Rightarrow> string \<Rightarrow> string list \<Rightarrow> call_env \<times> inventory_request" where
  "order_of u k is = (\<lparr>env_uuid = u, env_random = 0, env_now = 0\<rparr>, Reserve \<lparr>rq_order_id = ''ORD'', rq_items = is, rq_key = k\<rparr>)"

definition giving_back :: "string \<Rightarrow> call_env \<times> inventory_request" where
  "giving_back u = (\<lparr>env_uuid = u, env_random = 0, env_now = 0\<rparr>, Release \<lparr>rl_order_id = ''ORD'', rl_reservation_id = ''RSV-'' @ u, rl_key = ''rel'' @ u\<rparr>)"

definition statuses :: "system \<Rightarrow> inventory_status option list" where
  "statuses t = map (\<lambda>w. case w_phase w of Answered (Inr r) \<Rightarrow> Some (rr_status r) | _ \<Rightarrow> None) (workers t)"

definition movable :: "bool \<Rightarrow> system \<Rightarrow> nat list" where
  "movable lk t = filter (\<lambda>k. \<not> Option.is_none (advance lk k t)) [0..<length (workers t)]"

definition summary :: "system \<Rightarrow> inventory_status option list \<times> int \<times> nat" where
  "summary t = (statuses t, stock_of (database t) ''A'', length (reservations (database t)))"


section \<open>Witnesses\<close>

lemma follow_runs_to:
  assumes "follow lk is s = Some t" and "runs_to lk s0 n s"
  shows "runs_to lk s0 (n + length is) t"
  using assms
proof (induction "is" arbitrary: n s)
  case (Cons i "is")
  then obtain s' where "advance lk i s = Some s'" "follow lk is s' = Some t" by (auto split: option.splits)
  with Cons.IH [OF this(2) runs_to.move [OF Cons.prems(2) this(1)]] show ?case by simp
qed simp

abbreviation two_orders :: "(call_env \<times> inventory_request) list" where
  "two_orders \<equiv> [order_of ''1'' ''k1'' [''A'', ''B''], order_of ''2'' ''k2'' [''A'']]"

lemma shop_ok: "inventory_ok (inv_db (shop n))" "cache_ok (shop n)"
  by (simp_all add: shop_def inventory_ok_def cache_ok_def idem_init_def idem_get_def)

lemma two_orders_run:
  obtains t where "follow True [0, 1, 0, 0, 0, 0, 1] (launch (shop 1) two_orders) = Some t"
    and "statuses t = [Some RESERVED, Some OUT_OF_STOCK]" and "map fst (history t) = [''RSV-1'']"
proof -
  have "map_option (\<lambda>t. (statuses t, map fst (history t))) (follow True [0, 1, 0, 0, 0, 0, 1] (launch (shop 1) two_orders))
    = Some ([Some RESERVED, Some OUT_OF_STOCK], [''RSV-1''])" by code_simp
  then show thesis by (auto intro: that)
qed

theorem interleaved_reservations_serial_witness:
  "\<exists>t. runs_to True (launch (shop 1) two_orders) 7 t \<and> map fst (history t) = [''RSV-1''] \<and>
     serial (inv_db (shop 1)) (history t) = Some (database t) \<and> 0 \<le> stock_of (database t) ''A''"
proof -
  obtain t where t: "follow True [0, 1, 0, 0, 0, 0, 1] (launch (shop 1) two_orders) = Some t" "map fst (history t) = [''RSV-1'']"
    by (rule two_orders_run)
  have run: "runs_to True (launch (shop 1) two_orders) 7 t" using follow_runs_to [OF t(1) runs_to.start] by (simp add: eval_nat_numeral)
  have "0 \<le> stock_of (inv_db (shop 1)) ''A''" by code_simp
  with interleaved_reservations_serial [OF shop_ok _ run, of "''A''"] run t(2) show ?thesis by (auto simp: order_of_def)
qed


end
