(* ===== verification/Observability.thy ===== *)
theory Observability
  imports Eta "HOL-Library.AList"
begin

text \<open>
  The frame around the handlers of the ETA service: structured logging (\<^verbatim>\<open>core/logging.py\<close>), the Prometheus middleware
  (\<^verbatim>\<open>core/metrics.py\<close>), and the application that \<^verbatim>\<open>core/app_factory.py\<close> builds from them. Starlette puts the middleware
  added last outermost, runs the handlers of exception classes inside all of them and the handler of \<^verbatim>\<open>Exception\<close>
  outside, and a \<^verbatim>\<open>BaseHTTPMiddleware\<close> does not pass changes of a context variable outwards.
\<close>

section \<open>Logging\<close>

definition char_upper :: "char \<Rightarrow> char" where
  "char_upper c = (if 97 \<le> (of_char c :: nat) \<and> of_char c \<le> (122 :: nat) then char_of (of_char c - 32 :: nat) else c)"

fun str_split :: "char \<Rightarrow> string \<Rightarrow> string list" where
  "str_split sep [] = [[]]"
| "str_split sep (c # s) =
     (if c = sep then [] # str_split sep s
      else case str_split sep s of part # parts \<Rightarrow> (c # part) # parts | [] \<Rightarrow> [[c]])"

definition parse_traceparent :: "string option \<Rightarrow> string option" where
  "parse_traceparent header =
     (case header of
        None \<Rightarrow> None
      | Some h \<Rightarrow>
          if h = [] then None
          else (let parts = str_split CHR ''-'' h in if 2 \<le> length parts then Some (parts ! 1) else None))"

record log_record =
  lr_levelname :: string
  lr_name :: string
  lr_message :: string
  lr_exception :: "string option"   \<comment> \<open>the formatted \<^verbatim>\<open>exc_info\<close>\<close>
  lr_attributes :: json_dict         \<comment> \<open>the other entries of \<^verbatim>\<open>__dict__\<close>, extra fields among them\<close>

definition log_attributes :: "string list" where
  "log_attributes =
     [''name'', ''msg'', ''args'', ''levelname'', ''levelno'', ''pathname'', ''filename'', ''module'', ''exc_info'', ''exc_text'',
      ''stack_info'', ''lineno'', ''funcName'', ''created'', ''msecs'', ''relativeCreated'', ''thread'', ''threadName'',
      ''processName'', ''process'', ''message'']"

definition is_extra :: "string \<Rightarrow> bool" where
  "is_extra key \<longleftrightarrow> key \<notin> set log_attributes \<and> take 1 key \<noteq> ''_''"

definition json_option :: "string option \<Rightarrow> json" where
  "json_option v = (case v of Some s \<Rightarrow> JStr s | None \<Rightarrow> JNull)"

definition base_entry :: "string \<Rightarrow> string \<Rightarrow> string option \<Rightarrow> string option \<Rightarrow> log_record \<Rightarrow> json_dict" where
  "base_entry service now cid tid r =
     [(''timestamp'', JStr now), (''level'', JStr (lr_levelname r)), (''service'', JStr service), (''logger'', JStr (lr_name r)),
      (''message'', JStr (lr_message r)), (''correlation_id'', json_option cid), (''trace_id'', json_option tid)]"

text \<open>\<^verbatim>\<open>JSONFormatter.format\<close>, up to the final \<^verbatim>\<open>json.dumps\<close>.\<close>

definition format_entry :: "string \<Rightarrow> string \<Rightarrow> string option \<Rightarrow> string option \<Rightarrow> log_record \<Rightarrow> json_dict" where
  "format_entry service now cid tid r =
     (let entry = base_entry service now cid tid r;
          entry = (case lr_exception r of None \<Rightarrow> entry | Some text \<Rightarrow> AList.update ''exception'' (JStr text) entry)
      in fold (\<lambda>(k, v) e. if is_extra k then AList.update k v e else e) (lr_attributes r) entry)"

record logger =
  lg_level :: nat
  lg_handlers :: "string list"   \<comment> \<open>the service name of each handler's formatter\<close>
  lg_propagate :: bool

type_synonym loggers = "string \<rightharpoonup> logger"

definition getLogger :: "loggers \<Rightarrow> string \<Rightarrow> logger" where
  "getLogger ls name = (case ls name of Some l \<Rightarrow> l | None \<Rightarrow> \<lparr>lg_level = 0, lg_handlers = [], lg_propagate = True\<rparr>)"

text \<open>The numeric attributes of the \<^verbatim>\<open>logging\<close> module whose names are in capitals.\<close>

definition logging_level :: "string \<Rightarrow> nat option" where
  "logging_level = map_of [(''CRITICAL'', 50), (''FATAL'', 50), (''ERROR'', 40), (''WARNING'', 30), (''WARN'', 30), (''INFO'', 20),
     (''DEBUG'', 10), (''NOTSET'', 0)]"

definition setup_logger :: "loggers \<Rightarrow> string \<times> string \<times> string \<Rightarrow> loggers" where
  "setup_logger ls call =
     (case call of (name, service_name, level) \<Rightarrow>
        let l = getLogger ls name;
            l = l\<lparr>lg_level := (case logging_level (map char_upper level) of Some n \<Rightarrow> n | None \<Rightarrow> 20)\<rparr>;
            l = (if lg_handlers l = [] then l\<lparr>lg_handlers := [service_name], lg_propagate := False\<rparr> else l)
        in ls(name \<mapsto> l))"

section \<open>Metrics\<close>

record app_request =
  ar_method :: string
  ar_path :: string
  ar_headers :: "(string \<times> string) list"
  ar_body :: json_dict

datatype content = Json json_dict | PlainText string

type_synonym reply = "(nat \<times> content) \<times> (string \<times> string) list"

record metric_registry =
  request_count :: "string \<times> string \<times> string \<times> string \<Rightarrow> nat"
  request_latency :: "string \<times> string \<times> string \<Rightarrow> rat list"

definition no_metrics :: metric_registry where
  "no_metrics = \<lparr>request_count = (\<lambda>_. 0), request_latency = (\<lambda>_. [])\<rparr>"

definition prometheus_dispatch ::
  "string \<Rightarrow> rat \<Rightarrow> app_request \<Rightarrow> reply outcome \<Rightarrow> metric_registry \<Rightarrow> reply outcome \<times> metric_registry" where
  "prometheus_dispatch service duration req answer reg =
     (if ar_path req = ''/metrics'' then (answer, reg)
      else (case answer of
              Inl e \<Rightarrow> (Inl e, reg)
            | Inr ((status, body), hs) \<Rightarrow>
                let key = (service, ar_method req, ar_path req, nat_str status);
                    series = (service, ar_method req, ar_path req)
                in (answer,
                    reg\<lparr>request_count := (request_count reg)(key := request_count reg key + 1),
                        request_latency := (request_latency reg)(series := request_latency reg series @ [duration])\<rparr>)))"

section \<open>The application\<close>

datatype app_error = RequestValidationError | AppError py_exn

definition problem_reply :: "problem_details \<Rightarrow> nat \<times> content" where
  "problem_reply p =
     (pr_status p,
      Json ([(''type'', JStr (pr_type p)), (''title'', JStr (pr_title p)), (''status'', JInt (int (pr_status p))),
             (''detail'', JStr (pr_detail p)), (''instance'', JStr (pr_instance p))] @
            (case pr_correlation_id p of Some c \<Rightarrow> [(''correlation_id'', JStr c)] | None \<Rightarrow> [])))"

text \<open>The handlers that run inside the middleware; any other exception goes on outwards.\<close>

fun exception_middleware :: "string \<Rightarrow> string option \<Rightarrow> app_error + (nat \<times> content) \<Rightarrow> (nat \<times> content) outcome" where
  "exception_middleware path cid (Inr answer) = Inr answer"
| "exception_middleware path cid (Inl RequestValidationError) = Inr (problem_reply (validation_exception_handler path cid))"
| "exception_middleware path cid (Inl (AppError (HTTPException s d))) = Inr (s, Json [(''detail'', JStr d)])"
| "exception_middleware path cid (Inl (AppError (DeliverIQException t s d))) =
     Inr (problem_reply (deliveriq_exception_handler path cid t s d))"
| "exception_middleware path cid (Inl (AppError e)) = Inl e"

text \<open>The CORS middleware is a parameter: its answer to a preflight request and the headers it adds to others.\<close>

record cors =
  preflight :: "app_request \<Rightarrow> reply option"
  cors_headers :: "app_request \<Rightarrow> (string \<times> string) list"

definition cors_dispatch :: "cors \<Rightarrow> app_request \<Rightarrow> reply outcome \<Rightarrow> reply outcome" where
  "cors_dispatch c req answer =
     (case preflight c req of
        Some r \<Rightarrow> Inr r
      | None \<Rightarrow> map_sum id (map_prod id (\<lambda>hs. hs @ cors_headers c req)) answer)"

type_synonym routes = "metric_registry \<Rightarrow> string \<Rightarrow> app_request \<Rightarrow> app_error + (nat \<times> content)"

definition app_inner :: "cors \<Rightarrow> routes \<Rightarrow> metric_registry \<Rightarrow> string \<Rightarrow> app_request \<Rightarrow> reply outcome" where
  "app_inner c route reg uuid req =
     cors_dispatch c req
       (correlation_dispatch (ar_headers req) uuid
          (\<lambda>cid. map_sum id (\<lambda>answer. (answer, [])) (exception_middleware (ar_path req) (Some cid) (route reg cid req))))"

text \<open>
  One request through the whole stack: \<^verbatim>\<open>PrometheusMiddleware\<close>, \<^verbatim>\<open>CORSMiddleware\<close>, \<^verbatim>\<open>CorrelationIdMiddleware\<close>, exception handlers, route. The
  handler of \<^verbatim>\<open>Exception\<close> runs outside, where the correlation id was never set.
\<close>

definition serve :: "string \<Rightarrow> cors \<Rightarrow> routes \<Rightarrow> rat \<times> string \<times> app_request \<Rightarrow> metric_registry \<Rightarrow> reply \<times> metric_registry" where
  "serve service c route call reg =
     (case call of (duration, uuid, req) \<Rightarrow>
        (case prometheus_dispatch service duration req (app_inner c route reg uuid req) reg of
           (Inr answer, reg') \<Rightarrow> (answer, reg')
         | (Inl e, reg') \<Rightarrow> ((problem_reply (unhandled_exception_handler (ar_path req) None), []), reg')))"

fun serve_all :: "string \<Rightarrow> cors \<Rightarrow> routes \<Rightarrow> (rat \<times> string \<times> app_request) list \<Rightarrow> metric_registry \<Rightarrow> reply list \<times> metric_registry" where
  "serve_all service c route [] reg = ([], reg)"
| "serve_all service c route (q # qs) reg =
     (let (r, reg') = serve service c route q reg; (rs, reg'') = serve_all service c route qs reg' in (r # rs, reg''))"

text \<open>The routes of the ETA service; \<open>expo\<close> is \<^verbatim>\<open>generate_latest\<close>.\<close>

definition eta_route ::
  "(metric_registry \<Rightarrow> string) \<Rightarrow> schema_lib \<Rightarrow> pandas \<Rightarrow> ('pipe \<Rightarrow> row \<Rightarrow> rat outcome) \<Rightarrow> rat \<Rightarrow> rat \<Rightarrow> 'pipe model_state \<Rightarrow> routes" where
  "eta_route expo lib pd run_pipeline margin elapsed st reg cid req =
     (if ar_method req = ''GET'' \<and> ar_path req = ''/metrics'' then Inr (200, PlainText (expo reg))
      else if ar_method req = ''GET'' \<and> ar_path req = ''/health'' then
        Inr (200, Json [(''status'', JStr ''UP''), (''service'', JStr ''eta-service'')])
      else if ar_method req = ''GET'' \<and> ar_path req = ''/ready'' then
        map_sum AppError (\<lambda>a. (200, Json [(''status'', JStr ''READY''), (''service'', JStr ''eta-service''),
          (''model_version'', JStr (rd_model_version a)), (''feature_schema_version'', JStr (rd_feature_schema_version a))])) (ready st)
      else if ar_method req = ''GET'' \<and> ar_path req = ''/version'' then
        (let a = version st in Inr (200, Json [(''service'', JStr ''eta-service''), (''model_version'', JStr (va_model_version a)),
          (''feature_schema_version'', JStr (va_feature_schema_version a)), (''degraded_mode'', JBool (va_degraded_mode a))]))
      else if ar_method req = ''POST'' \<and> ar_path req = ''/predict'' then
        (case decode_request lib (ar_body req) of
           None \<Rightarrow> Inl RequestValidationError
         | Some r \<Rightarrow> map_sum AppError (\<lambda>p. (200, Json (encode_prediction p))) (predict pd run_pipeline margin elapsed (Some cid) st r))
      else if ar_path req \<in> {''/metrics'', ''/health'', ''/ready'', ''/version'', ''/predict''} then
        Inl (AppError (HTTPException 405 ''Method Not Allowed''))
      else Inl (AppError (HTTPException 404 ''Not Found'')))"


section \<open>Logging lemmas\<close>

lemma str_split_ne [simp]: "str_split c s \<noteq> []"
  by (induction s) (auto split: list.splits)

lemma str_split_join:
  assumes "\<forall>x \<in> set (x # xs). c \<notin> set x"
  shows "str_split c (py_join [c] (x # xs)) = x # xs"
  using assms
proof (induction xs arbitrary: x)
  case Nil
  have "c \<notin> set x \<Longrightarrow> str_split c x = [x]" by (induction x) auto
  with Nil show ?case by simp
next
  case (Cons y ys)
  have "str_split c (x @ c # s) = x # str_split c s" if "c \<notin> set x" for s
    using that by (induction x) (auto split: list.splits)
  with Cons show ?case by simp
qed

lemma parse_traceparent_well_formed:
  assumes "\<forall>x \<in> {ver, trace_id, span_id, flags}. CHR ''-'' \<notin> set x"
  shows "parse_traceparent (Some (py_join ''-'' [ver, trace_id, span_id, flags])) = Some trace_id"
proof -
  have "py_join ''-'' [ver, trace_id, span_id, flags] \<noteq> []" by simp
  moreover have "str_split CHR ''-'' (py_join ''-'' [ver, trace_id, span_id, flags]) = [ver, trace_id, span_id, flags]"
    using assms by (intro str_split_join) auto
  ultimately show ?thesis unfolding parse_traceparent_def by (simp add: Let_def del: py_join.simps)
qed

text \<open>The entry of a field: the last extra field of that name, or the formatter's own.\<close>

lemma extra_fields:
  "map_of (fold (\<lambda>(k, v) e. if is_extra k then AList.update k v e else e) attrs entry) key =
     (if is_extra key then (case map_of (rev attrs) key of Some v \<Rightarrow> Some v | None \<Rightarrow> map_of entry key) else map_of entry key)"
  by (induction attrs arbitrary: entry)
    (auto simp: update_conv' map_add_def split: option.splits)

definition level_of :: "string \<Rightarrow> nat" where
  "level_of level = (case logging_level (map char_upper level) of Some n \<Rightarrow> n | None \<Rightarrow> 20)"

lemma setup_logger_other: "n \<noteq> name \<Longrightarrow> setup_logger ls (n, service, level) name = ls name"
  by (simp add: setup_logger_def Let_def)

lemma setup_logger_again:
  "ls name = Some \<lparr>lg_level = l, lg_handlers = [h], lg_propagate = False\<rparr> \<Longrightarrow>
   setup_logger ls (name, service, level) name = Some \<lparr>lg_level = level_of level, lg_handlers = [h], lg_propagate = False\<rparr>"
  by (simp add: setup_logger_def Let_def getLogger_def level_of_def)

lemma setup_logger_fresh:
  "ls name = None \<Longrightarrow>
   setup_logger ls (name, service, level) name = Some \<lparr>lg_level = level_of level, lg_handlers = [service], lg_propagate = False\<rparr>"
  by (simp add: setup_logger_def Let_def getLogger_def level_of_def)

section \<open>Frame lemmas\<close>

abbreviation never_escapes :: "cors \<Rightarrow> routes \<Rightarrow> bool" where
  "never_escapes c route \<equiv> \<forall>reg uuid req. \<exists>r. app_inner c route reg uuid req = Inr r"

definition hit :: "string \<Rightarrow> string \<Rightarrow> string \<Rightarrow> (rat \<times> string \<times> app_request) \<times> reply \<Rightarrow> bool" where
  "hit m p st qr \<longleftrightarrow> (case qr of ((duration, uuid, req), ((status, body), hs)) \<Rightarrow>
     ar_method req = m \<and> ar_path req = p \<and> nat_str status = st \<and> p \<noteq> ''/metrics'')"

lemma serve_count:
  assumes "never_escapes c route"
  shows "request_count (snd (serve service c route q reg)) (service, m, p, st) =
    request_count reg (service, m, p, st) + (if hit m p st (q, fst (serve service c route q reg)) then 1 else 0)"
proof -
  obtain duration uuid req where q: "q = (duration, uuid, req)" by (cases q)
  obtain status body hs where "app_inner c route reg uuid req = Inr ((status, body), hs)" using assms by (metis prod.collapse)
  then show ?thesis by (auto simp: q serve_def prometheus_dispatch_def hit_def Let_def split: if_splits)
qed

lemma serve_all_count:
  assumes "never_escapes c route"
  shows "request_count (snd (serve_all service c route qs reg)) (service, m, p, st) =
    request_count reg (service, m, p, st) + length (filter (hit m p st) (zip qs (fst (serve_all service c route qs reg))))"
proof (induction qs arbitrary: reg)
  case (Cons q qs)
  obtain r reg' where s: "serve service c route q reg = (r, reg')" by fastforce
  obtain rs reg'' where ss: "serve_all service c route qs reg' = (rs, reg'')" by fastforce
  from serve_count [OF assms, of service q reg m p st] Cons.IH [of reg'] show ?case by (simp add: s ss)
qed simp

text \<open>An answer that comes from inside the frame carries the request's correlation id.\<close>

lemma app_inner_traced:
  assumes "app_inner c route reg uuid req = Inr (answer, hs)" and "preflight c req = None"
  shows "map_of hs ''X-Correlation-ID'' = Some (correlation_of (ar_headers req) uuid)"
proof -
  let ?cid = "correlation_of (ar_headers req) uuid"
  have "map_of (AList.update ''X-Correlation-ID'' ?cid [] @ cors_headers c req) ''X-Correlation-ID'' = Some ?cid"
    by (simp add: update_conv' map_add_Some_iff)
  with assms show ?thesis
    by (cases "exception_middleware (ar_path req) (Some ?cid) (route reg ?cid req)")
      (auto simp: app_inner_def cors_dispatch_def correlation_dispatch_def Let_def)
qed

lemma serve_answer: "app_inner c route reg uuid req = Inr a \<Longrightarrow> fst (serve service c route (duration, uuid, req) reg) = a"
  by (cases a) (auto simp: serve_def prometheus_dispatch_def Let_def)

lemma serve_length: "length (fst (serve_all service c route qs reg)) = length qs"
  by (induction qs arbitrary: reg) (simp_all add: case_prod_unfold Let_def)

lemma serve_all_traced:
  assumes "never_escapes c route" and "((duration, uuid, req), (answer, hs)) \<in> set (zip qs (fst (serve_all service c route qs reg)))"
    and "preflight c req = None"
  shows "map_of hs ''X-Correlation-ID'' = Some (correlation_of (ar_headers req) uuid)"
  using assms(2)
proof (induction qs arbitrary: reg)
  case (Cons q qs)
  obtain r reg' where s: "serve service c route q reg = (r, reg')" by fastforce
  obtain rs reg'' where ss: "serve_all service c route qs reg' = (rs, reg'')" by fastforce
  from Cons.prems consider "((duration, uuid, req), (answer, hs)) = (q, r)"
    | "((duration, uuid, req), (answer, hs)) \<in> set (zip qs (fst (serve_all service c route qs reg')))" by (auto simp: s ss)
  then show ?case
  proof cases
    case 1
    obtain a where a: "app_inner c route reg uuid req = Inr a" using assms(1) by blast
    with 1 s have "a = (answer, hs)" using serve_answer [OF a, of service duration] by auto
    with a assms(3) show ?thesis by (auto intro: app_inner_traced)
  next
    case 2
    then show ?thesis by (rule Cons.IH)
  qed
qed simp

lemma eta_never_escapes:
  assumes "pandas_ok pd"
  shows "never_escapes c (eta_route expo lib pd run_pipeline margin elapsed st)"
proof (intro allI)
  fix reg uuid req
  let ?route = "eta_route expo lib pd run_pipeline margin elapsed st reg"
  have "\<exists>a. exception_middleware (ar_path req) (Some cid) (?route cid req) = Inr a" for cid
  proof -
    have "\<exists>a b. exception_middleware path (Some cid) (map_sum AppError f (predict pd run_pipeline margin elapsed (Some cid) st r)) = Inr (a, b)"
      for path and f :: "prediction_response \<Rightarrow> nat \<times> content" and r
      by (rule predict_eq [OF assms, of r run_pipeline margin elapsed "Some cid" st]) (simp add: Let_def case_prod_unfold)
    then show ?thesis
      by (auto simp: eta_route_def ready_def ModelNotReadyException_def Let_def split: option.splits)
  qed
  then obtain a where "exception_middleware (ar_path req) (Some (correlation_of (ar_headers req) uuid))
      (?route (correlation_of (ar_headers req) uuid) req) = Inr a" by blast
  then show "\<exists>r. app_inner c (eta_route expo lib pd run_pipeline margin elapsed st) reg uuid req = Inr r"
    by (auto simp: app_inner_def cors_dispatch_def correlation_dispatch_def Let_def split: option.splits)
qed

section \<open>Properties\<close>


text \<open>
  An exception that no handler inside the middleware knows leaves no trace: the client gets the 500 problem, but without the
  correlation id in its header or its body, and neither the request counter nor the latency histogram changes. The
  same request answered by a domain exception is counted once and carries its correlation id in both places.\<close>

theorem unhandled_errors_untraced:
  assumes "preflight c req = None" and "ar_path req \<noteq> ''/metrics''"
    and "\<And>cid. route reg cid req = Inl (AppError e)"
  shows "((\<nexists>code d. e = HTTPException code d) \<and> (\<nexists>t code d. e = DeliverIQException t code d) \<longrightarrow>
      serve service c route (duration, uuid, req) reg =
        (((500, Json [(''type'', JStr ''https://deliveriq.io/errors/internal-server-error''), (''title'', JStr ''Internal Server Error''),
             (''status'', JInt 500), (''detail'', JStr ''An unexpected internal error occurred.''), (''instance'', JStr (ar_path req))]), []), reg)) \<and>
    (\<forall>t code d. e = DeliverIQException t code d \<longrightarrow>
      (case serve service c route (duration, uuid, req) reg of
         ((answer, hs), reg') \<Rightarrow>
           map_of hs ''X-Correlation-ID'' = Some (correlation_of (ar_headers req) uuid) \<and>
           answer = problem_reply (deliveriq_exception_handler (ar_path req) (Some (correlation_of (ar_headers req) uuid)) t code d) \<and>
           request_count reg' (service, ar_method req, ar_path req, nat_str code) =
             request_count reg (service, ar_method req, ar_path req, nat_str code) + 1))"
  (is "(?unknown \<longrightarrow> ?lost) \<and> (\<forall>t code d. e = DeliverIQException t code d \<longrightarrow> ?kept t code d)")
proof (intro conjI allI impI)
  let ?cid = "correlation_of (ar_headers req) uuid"
  assume ?unknown
  then have "exception_middleware (ar_path req) (Some ?cid) (Inl (AppError e)) = Inl e" by (cases e) auto
  with assms(1,3) have "app_inner c route reg uuid req = Inl e"
    by (simp add: app_inner_def cors_dispatch_def correlation_dispatch_def Let_def)
  with assms(2) show ?lost
    by (simp add: serve_def prometheus_dispatch_def problem_reply_def unhandled_exception_handler_def)
next
  let ?cid = "correlation_of (ar_headers req) uuid"
  fix t code d
  assume e: "e = DeliverIQException t code d"
  let ?p = "deliveriq_exception_handler (ar_path req) (Some ?cid) t code d"
  have inner: "app_inner c route reg uuid req = Inr (problem_reply ?p, AList.update ''X-Correlation-ID'' ?cid [] @ cors_headers c req)"
    using assms(1) by (simp add: app_inner_def cors_dispatch_def correlation_dispatch_def Let_def assms(3) e)
  have "fst (problem_reply ?p) = code" by (simp add: problem_reply_def deliveriq_exception_handler_def)
  with inner assms(2) app_inner_traced [OF inner assms(1)] show "?kept t code d"
    by (cases "problem_reply ?p") (simp add: serve_def prometheus_dispatch_def Let_def)
qed

text \<open>
  However often a logger is set up, it keeps one handler, the one of the first call, so a logger that core code set up with the
  default service name keeps reporting that name; the level is that of the last call, \<^verbatim>\<open>INFO\<close> when the name is unknown; and no
  other logger is touched.\<close>

theorem logger_set_up_once:
  "fold (\<lambda>c ls. setup_logger ls c) setups Map.empty name =
     (case filter (\<lambda>c. fst c = name) setups of
        [] \<Rightarrow> None
      | c # cs \<Rightarrow> Some \<lparr>lg_level = level_of (snd (snd (last (c # cs)))), lg_handlers = [fst (snd c)], lg_propagate = False\<rparr>)"
proof (induction setups rule: rev_induct)
  case (snoc c setups)
  obtain n service level where c: "c = (n, service, level)" by (cases c)
  show ?case
  proof (cases "n = name")
    case True
    with snoc show ?thesis
      by (cases "filter (\<lambda>c. fst c = name) setups") (simp_all add: c setup_logger_again setup_logger_fresh)
  next
    case False
    with snoc show ?thesis by (simp add: c setup_logger_other)
  qed
qed simp

section \<open>Witnesses\<close>

definition no_cors :: cors where
  "no_cors = \<lparr>preflight = (\<lambda>_. None), cors_headers = (\<lambda>_. [])\<rparr>"

definition get :: "string \<Rightarrow> app_request" where
  "get path = \<lparr>ar_method = ''GET'', ar_path = path, ar_headers = [(''X-Request-ID'', ''r1'')], ar_body = []\<rparr>"

abbreviation demo_route :: routes where
  "demo_route \<equiv> eta_route (\<lambda>_. []) plain_schema plain_pandas (\<lambda>_ _. Inr 20) 4 0 (initial_model_state :: unit model_state)"


theorem unhandled_errors_untraced_witness:
  "fst (serve ''eta-service'' no_cors (\<lambda>_ _ _. Inl (AppError (KeyError ''x''))) (1, ''u'', get ''/ready'') no_metrics) =
     ((500, Json [(''type'', JStr ''https://deliveriq.io/errors/internal-server-error''), (''title'', JStr ''Internal Server Error''),
        (''status'', JInt 500), (''detail'', JStr ''An unexpected internal error occurred.''), (''instance'', JStr ''/ready'')]), [])"
  using unhandled_errors_untraced [of no_cors "get ''/ready''" "\<lambda>_ _ _. Inl (AppError (KeyError ''x''))" no_metrics "KeyError ''x''"
    "''eta-service''" 1 "''u''"]
  by (simp add: no_cors_def get_def)

end
