(* ===== verification/Training.thy ===== *)
theory Training
  imports Eta Monitoring "HOL-Library.Multiset"
begin

text \<open>
  The training pipeline: the stages of \<^verbatim>\<open>dvc.yaml\<close>, one script each under \<^verbatim>\<open>src/data\<close>, \<^verbatim>\<open>src/features\<close> and \<^verbatim>\<open>src/models\<close>, as functions on
  the files they read and write, and the promotion script. scikit-learn, MLflow and the CSV text format are arguments.
  A frame in memory is a list of rows with their index labels; a file is a list of rows.
\<close>

section \<open>Libraries and files\<close>

datatype encoder =
    MinMaxScaler
  | OneHotEncoder string string                       \<comment> \<open>\<^verbatim>\<open>drop\<close> and \<^verbatim>\<open>handle_unknown\<close>\<close>
  | OrdinalEncoder "string list list" int string int  \<comment> \<open>\<^verbatim>\<open>categories\<close>, \<^verbatim>\<open>encoded_missing_value\<close>, \<^verbatim>\<open>handle_unknown\<close>, \<^verbatim>\<open>unknown_value\<close>\<close>

type_synonym transformer = "string \<times> encoder \<times> string list"

text \<open>
  \<open>sk_split\<close> is \<^verbatim>\<open>train_test_split\<close>, \<open>sk_sort\<close> is \<^verbatim>\<open>sort_values\<close>, \<open>sk_fit\<close> and \<open>sk_transform\<close> are those of a \<^verbatim>\<open>ColumnTransformer\<close> that drops the
  other columns, \<open>sk_train\<close> fits the stacked regressor with its transformed target from the two parameter sections, and
  \<open>csv\<close> is what \<^verbatim>\<open>read_csv\<close> reads of what \<^verbatim>\<open>to_csv\<close> wrote.
\<close>

record ('pre, 'model, 'part) sklearn =
  sk_split :: "rat \<Rightarrow> int \<Rightarrow> row list \<Rightarrow> (row list \<times> row list) outcome"
  sk_sort :: "string \<Rightarrow> row list \<Rightarrow> row list"
  sk_fit :: "transformer list \<Rightarrow> row list \<Rightarrow> 'pre outcome"
  sk_transform :: "'pre \<Rightarrow> row \<Rightarrow> row"
  sk_train :: "json_dict \<Rightarrow> json_dict \<Rightarrow> row list \<Rightarrow> cell list \<Rightarrow> 'model outcome"
  sk_predict :: "'model \<Rightarrow> row \<Rightarrow> rat"
  sk_regressor :: "'model \<Rightarrow> 'part"
  sk_power :: "'model \<Rightarrow> 'part"
  sk_mae :: "real list \<Rightarrow> rat list \<Rightarrow> real outcome"
  sk_r2 :: "real list \<Rightarrow> rat list \<Rightarrow> real outcome"
  csv :: "row list \<Rightarrow> row list"

record pipeline_params =
  pp_test_size :: "rat option"
  pp_random_state :: "int option"
  pp_strategy :: "string option"
  pp_random_forest :: json_dict
  pp_lightgbm :: json_dict

record offline_metrics =
  om_mae :: real
  om_r2 :: real
  late_rate_gt_5min :: real
  early_rate_gt_5min :: real

record run_info =
  ri_run_id :: string
  ri_artifact_path :: string
  ri_model_name :: string
  ri_metrics :: offline_metrics

record registry_report =
  rg_model_name :: string
  rg_version :: string
  rg_alias :: string
  rg_registered_uri :: string
  rg_status :: string

record ('pre, 'model, 'part) files =
  f_params :: "pipeline_params option"
  f_raw :: "row list option"
  f_cleaned :: "row list option"
  f_train :: "row list option"
  f_test :: "row list option"
  f_train_trans :: "row list option"
  f_test_trans :: "row list option"
  f_preprocessor :: "'pre option"
  f_model :: "'model option"
  f_stacking :: "'part option"
  f_power :: "'part option"
  f_run_info :: "run_info option"
  f_registry :: "registry_report option"

datatype stage_error = FileNotFoundError string | StageError py_exn | IndexError

definition raising :: "'a outcome \<Rightarrow> ('a \<Rightarrow> stage_error + 'b) \<Rightarrow> stage_error + 'b" where
  "raising x f = (case x of Inl e \<Rightarrow> Inl (StageError e) | Inr v \<Rightarrow> f v)"

definition load_file :: "string \<Rightarrow> 'a option \<Rightarrow> ('a \<Rightarrow> stage_error + 'b) \<Rightarrow> stage_error + 'b" where
  "load_file path file f = (case file of None \<Rightarrow> Inl (FileNotFoundError path) | Some v \<Rightarrow> f v)"

definition load_data :: "('pre, 'model, 'part) sklearn \<Rightarrow> string \<Rightarrow> row list option \<Rightarrow> (row list \<Rightarrow> stage_error + 'b) \<Rightarrow> stage_error + 'b" where
  "load_data sk path file f = load_file path file (\<lambda>t. f (csv sk t))"

section \<open>Cleaning and splitting\<close>

definition data_cleaning ::
  "('pre, 'model, 'part) sklearn \<Rightarrow> pandas \<Rightarrow> ('pre, 'model, 'part) files \<Rightarrow> stage_error + ('pre, 'model, 'part) files" where
  "data_cleaning sk pd fs =
     load_data sk ''data/raw/swiggy.csv'' (f_raw fs)
       (\<lambda>df. raising (perform_data_cleaning pd df) (\<lambda>cleaned. Inr (fs\<lparr>f_cleaned := Some cleaned\<rparr>)))"

text \<open>All rows of a frame have the same columns.\<close>

definition has_column :: "string \<Rightarrow> row list \<Rightarrow> bool" where
  "has_column c ds \<longleftrightarrow> (case ds of [] \<Rightarrow> False | d # _ \<Rightarrow> c \<in> fst ` set d)"

text \<open>\<^verbatim>\<open>xs[:k]\<close> with \<^verbatim>\<open>xs[k:]\<close>.\<close>

definition slice_at :: "int \<Rightarrow> 'a list \<Rightarrow> 'a list \<times> 'a list" where
  "slice_at k xs = (let n = (if 0 \<le> k then nat k else length xs - nat (- k)) in (take n xs, drop n xs))"

definition split_data ::
  "('pre, 'model, 'part) sklearn \<Rightarrow> row list \<Rightarrow> rat \<Rightarrow> int \<Rightarrow> string \<Rightarrow> (row list \<times> row list) outcome" where
  "split_data sk data test_size random_state strategy =
     (if strategy = ''time'' \<and> has_column ''order_date'' data then
        let sorted_data = sk_sort sk ''order_date'' data;
            split_idx = py_int (of_nat (length sorted_data) * (1 - test_size))
        in Inr (slice_at split_idx sorted_data)
      else sk_split sk test_size random_state data)"

definition get_or :: "'a option \<Rightarrow> 'a \<Rightarrow> 'a" where
  "get_or v dflt = (case v of Some x \<Rightarrow> x | None \<Rightarrow> dflt)"

definition data_preparation ::
  "('pre, 'model, 'part) sklearn \<Rightarrow> ('pre, 'model, 'part) files \<Rightarrow> stage_error + ('pre, 'model, 'part) files" where
  "data_preparation sk fs =
     load_data sk ''data/cleaned/swiggy_cleaned.csv'' (f_cleaned fs) (\<lambda>df.
       load_file ''params.yaml'' (f_params fs) (\<lambda>ps.
         raising (split_data sk df (get_or (pp_test_size ps) (1 / 4)) (get_or (pp_random_state ps) 42) (get_or (pp_strategy ps) ''random''))
           (\<lambda>(train, test). Inr (fs\<lparr>f_train := Some train, f_test := Some test\<rparr>))))"

section \<open>Preprocessing\<close>

definition TRAFFIC_ORDER :: "string list" where
  "TRAFFIC_ORDER = [''low'', ''medium'', ''high'', ''jam'']"

definition DISTANCE_TYPE_ORDER :: "string list" where
  "DISTANCE_TYPE_ORDER = [''short'', ''medium'', ''long'', ''very_long'']"

definition build_preprocessor :: "transformer list" where
  "build_preprocessor =
     [(''scale'', MinMaxScaler, NUMERICAL_FEATURES),
      (''nominal_encode'', OneHotEncoder ''first'' ''ignore'', NOMINAL_FEATURES),
      (''ordinal_encode'', OrdinalEncoder [TRAFFIC_ORDER, DISTANCE_TYPE_ORDER] (- 999) ''use_encoded_value'' (- 1), ORDINAL_FEATURES)]"

type_synonym frame = "(nat \<times> row) list"

definition read_frame :: "row list \<Rightarrow> frame" where
  "read_frame ds = zip [0..<length ds] ds"

definition frame_dropna :: "frame \<Rightarrow> frame" where
  "frame_dropna df = filter (\<lambda>(i, d). dropna d \<noteq> None) df"

definition cell_of :: "string \<Rightarrow> row \<Rightarrow> cell" where
  "cell_of c d = (case map_of d c of Some v \<Rightarrow> v | None \<Rightarrow> Missing)"

definition make_X_and_y :: "frame \<Rightarrow> string \<Rightarrow> frame \<times> (nat \<times> cell) list option" where
  "make_X_and_y data target_column =
     (map (\<lambda>(i, d). (i, drop_columns [target_column] d)) data,
      if has_column target_column (map snd data) then Some (map (\<lambda>(i, d). (i, cell_of target_column d)) data) else None)"

definition join_X_and_y :: "frame \<Rightarrow> (nat \<times> cell) list option \<Rightarrow> frame outcome" where
  "join_X_and_y X y =
     (case y of
        None \<Rightarrow> Inl (TypeError ''object is not iterable'')
      | Some y \<Rightarrow> Inr (List.map_filter (\<lambda>(i, x). map_option (\<lambda>v. (i, x @ [(TARGET_COLUMN, v)])) (map_of y i)) X))"

definition transform_frame :: "('pre, 'model, 'part) sklearn \<Rightarrow> 'pre \<Rightarrow> frame \<Rightarrow> frame" where
  "transform_frame sk p X = map (\<lambda>(i, x). (i, sk_transform sk p x)) X"

definition data_preprocessing ::
  "('pre, 'model, 'part) sklearn \<Rightarrow> ('pre, 'model, 'part) files \<Rightarrow> stage_error + ('pre, 'model, 'part) files" where
  "data_preprocessing sk fs =
     load_data sk ''data/interim/train.csv'' (f_train fs) (\<lambda>train.
       load_data sk ''data/interim/test.csv'' (f_test fs) (\<lambda>test.
         let (X_train, y_train) = make_X_and_y (frame_dropna (read_frame train)) TARGET_COLUMN;
             (X_test, y_test) = make_X_and_y (frame_dropna (read_frame test)) TARGET_COLUMN
         in raising (sk_fit sk build_preprocessor (map snd X_train)) (\<lambda>preprocessor.
              raising (join_X_and_y (transform_frame sk preprocessor X_train) y_train) (\<lambda>train_trans.
                raising (join_X_and_y (transform_frame sk preprocessor X_test) y_test) (\<lambda>test_trans.
                  Inr (fs\<lparr>f_train_trans := Some (map snd train_trans), f_test_trans := Some (map snd test_trans),
                          f_preprocessor := Some preprocessor\<rparr>))))))"

section \<open>Training\<close>

definition train_stage ::
  "('pre, 'model, 'part) sklearn \<Rightarrow> ('pre, 'model, 'part) files \<Rightarrow> stage_error + ('pre, 'model, 'part) files" where
  "train_stage sk fs =
     load_data sk ''data/processed/train_trans.csv'' (f_train_trans fs) (\<lambda>data.
       if \<not> has_column TARGET_COLUMN data then Inl (StageError (KeyError TARGET_COLUMN))
       else
         load_file ''params.yaml'' (f_params fs) (\<lambda>ps.
           raising (sk_train sk (pp_random_forest ps) (pp_lightgbm ps) (map (drop_columns [TARGET_COLUMN]) data) (map (cell_of TARGET_COLUMN) data))
             (\<lambda>model. Inr (fs\<lparr>f_model := Some model, f_stacking := Some (sk_regressor sk model), f_power := Some (sk_power sk model)\<rparr>))))"

section \<open>Evaluation\<close>

definition calculate_metrics :: "('pre, 'model, 'part) sklearn \<Rightarrow> real list \<Rightarrow> rat list \<Rightarrow> offline_metrics outcome" where
  "calculate_metrics sk y_true y_pred =
     (case sk_mae sk y_true y_pred of
        Inl e \<Rightarrow> Inl e
      | Inr m \<Rightarrow>
          (case sk_r2 sk y_true y_pred of
             Inl e \<Rightarrow> Inl e
           | Inr r \<Rightarrow>
               let pairs = zip y_true y_pred; n = of_nat (length pairs)
               in Inr \<lparr>om_mae = m, om_r2 = r,
                       late_rate_gt_5min = of_nat (length (filter (\<lambda>(y, p). y - of_rat p > 5) pairs)) / n,
                       early_rate_gt_5min = of_nat (length (filter (\<lambda>(y, p). of_rat p - y > 5) pairs)) / n\<rparr>))"

datatype mlflow_call =
    DagshubInit string string
  | SetTrackingUri string
  | SetExperiment string
  | SetTag string string
  | LogMetric string real
  | LogArtifact string
  | LogModel string

text \<open>
  \<^verbatim>\<open>setup_mlflow\<close> of the evaluation and of the registration: \<open>env\<close> is \<^verbatim>\<open>os.getenv\<close>, \<open>dagshub\<close> says whether \<^verbatim>\<open>dagshub.init\<close> returns, and
  \<^verbatim>\<open>dagshub.init\<close> points the tracking at DagsHub.
\<close>

definition truthy_env :: "(string \<rightharpoonup> string) \<Rightarrow> string \<Rightarrow> bool" where
  "truthy_env env k \<longleftrightarrow> env k \<notin> {None, Some []}"

definition setup_mlflow :: "(string \<rightharpoonup> string) \<Rightarrow> bool \<Rightarrow> string \<Rightarrow> mlflow_call list" where
  "setup_mlflow env dagshub root_path =
     (if truthy_env env ''DAGSHUB_REPO_OWNER'' \<and> truthy_env env ''DAGSHUB_TOKEN'' \<and> dagshub
      then [DagshubInit (get_or (env ''DAGSHUB_REPO_OWNER'') []) (get_or (env ''DAGSHUB_REPO_NAME'') ''Delivery-Time-Prediction'')] else []) @
     [SetTrackingUri (if truthy_env env ''MLFLOW_TRACKING_URI'' then get_or (env ''MLFLOW_TRACKING_URI'') []
        else ''file:///'' @ root_path @ ''/mlruns'')]"

definition setup_mlflow_evaluation :: "(string \<rightharpoonup> string) \<Rightarrow> bool \<Rightarrow> string \<Rightarrow> mlflow_call list" where
  "setup_mlflow_evaluation env dagshub root_path = setup_mlflow env dagshub root_path @ [SetExperiment ''DeliverIQ_Pipeline'']"

definition metric_calls :: "string \<Rightarrow> offline_metrics \<Rightarrow> mlflow_call list" where
  "metric_calls p m =
     [LogMetric (p @ ''mae'') (om_mae m), LogMetric (p @ ''r2'') (om_r2 m),
      LogMetric (p @ ''late_rate_gt_5min'') (late_rate_gt_5min m), LogMetric (p @ ''early_rate_gt_5min'') (early_rate_gt_5min m)]"

definition numeric_targets :: "row list \<Rightarrow> real list outcome" where
  "numeric_targets ds = all_outcomes (\<lambda>d. case map_of d TARGET_COLUMN of
       None \<Rightarrow> Inl (KeyError TARGET_COLUMN)
     | Some (Num x) \<Rightarrow> Inr x
     | Some _ \<Rightarrow> Inl (ValueError ''could not convert string to float'')) ds"

definition score :: "('pre, 'model, 'part) sklearn \<Rightarrow> 'model \<Rightarrow> row list \<Rightarrow> (offline_metrics \<Rightarrow> stage_error + 'b) \<Rightarrow> stage_error + 'b" where
  "score sk model ds f =
     raising (numeric_targets ds) (\<lambda>y.
       raising (calculate_metrics sk y (map (\<lambda>d. sk_predict sk model (drop_columns [TARGET_COLUMN] d)) ds)) f)"

text \<open>\<open>log_run\<close> is the run that \<^verbatim>\<open>mlflow\<close> records from the calls: its id and the URI of the logged model;
  a run that fails before its model is logged is not used by later stages and is left out.\<close>

definition evaluation ::
  "('pre, 'model, 'part) sklearn \<Rightarrow> (mlflow_call list \<Rightarrow> (string \<times> string) outcome) \<Rightarrow> ('pre, 'model, 'part) files \<Rightarrow>
   stage_error + ('pre, 'model, 'part) files" where
  "evaluation sk log_run fs =
     load_data sk ''data/processed/train_trans.csv'' (f_train_trans fs) (\<lambda>train_data.
     load_data sk ''data/processed/test_trans.csv'' (f_test_trans fs) (\<lambda>test_data.
     load_file ''models/model.joblib'' (f_model fs) (\<lambda>model.
     score sk model train_data (\<lambda>train_metrics.
     score sk model test_data (\<lambda>test_metrics.
       if length train_data < 10 then Inl (StageError (ValueError ''Cannot take a larger sample than population''))
       else
         raising (log_run ([SetTag ''pipeline'' ''deliveriq_dvc'', SetTag ''model_type'' ''stacking_regressor''] @
              metric_calls ''train_'' train_metrics @ metric_calls ''test_'' test_metrics @
              (if f_preprocessor fs \<noteq> None then [LogArtifact ''models/preprocessor.joblib''] else []) @ [LogModel ''delivery_eta_model'']))
           (\<lambda>(run_id, uri). Inr (fs\<lparr>f_run_info := Some \<lparr>ri_run_id = run_id, ri_artifact_path = uri,
              ri_model_name = ''delivery_time_pred_model'', ri_metrics = test_metrics\<rparr>\<rparr>)))))))"

section \<open>Registration and promotion\<close>

text \<open>The registry: what \<^verbatim>\<open>register_model\<close>, \<^verbatim>\<open>set_registered_model_alias\<close>, \<^verbatim>\<open>get_latest_versions\<close> and \<^verbatim>\<open>transition_model_version_stage\<close> do to it.\<close>

record 'reg mlflow =
  ml_register :: "string \<Rightarrow> string \<Rightarrow> 'reg \<Rightarrow> string outcome \<times> 'reg"
  ml_set_alias :: "string \<Rightarrow> string \<Rightarrow> string \<Rightarrow> 'reg \<Rightarrow> unit outcome \<times> 'reg"
  ml_latest_versions :: "string \<Rightarrow> string \<Rightarrow> 'reg \<Rightarrow> string list outcome"
  ml_transition :: "string \<Rightarrow> string \<Rightarrow> string \<Rightarrow> 'reg \<Rightarrow> unit outcome \<times> 'reg"

definition register_model ::
  "'reg mlflow \<Rightarrow> ('pre, 'model, 'part) files \<Rightarrow> 'reg \<Rightarrow> (stage_error + ('pre, 'model, 'part) files) \<times> 'reg" where
  "register_model ml fs reg =
     (case f_run_info fs of
        None \<Rightarrow> (Inl (FileNotFoundError ''run_information.json''), reg)
      | Some info \<Rightarrow>
          (case ml_register ml (ri_artifact_path info) (ri_model_name info) reg of
             (Inl e, reg) \<Rightarrow> (Inl (StageError e), reg)
           | (Inr v, reg) \<Rightarrow>
               let (_, reg) = ml_set_alias ml (ri_model_name info) ''champion'' v reg
               in (Inr (fs\<lparr>f_registry := Some \<lparr>rg_model_name = ri_model_name info, rg_version = v, rg_alias = ''champion'',
                     rg_registered_uri = ri_artifact_path info, rg_status = ''READY''\<rparr>\<rparr>), reg)))"

text \<open>\<^verbatim>\<open>scripts/promote_model_to_prod.py\<close>.\<close>

definition promote_model :: "'reg mlflow \<Rightarrow> ('pre, 'model, 'part) files \<Rightarrow> 'reg \<Rightarrow> (stage_error + unit) \<times> 'reg" where
  "promote_model ml fs reg =
     (case f_run_info fs of
        None \<Rightarrow> (Inl (FileNotFoundError ''run_information.json''), reg)
      | Some info \<Rightarrow>
          (case ml_latest_versions ml (ri_model_name info) ''Staging'' reg of
             Inl e \<Rightarrow> (Inl (StageError e), reg)
           | Inr [] \<Rightarrow> (Inl IndexError, reg)
           | Inr (v # _) \<Rightarrow>
               (case ml_transition ml (ri_model_name info) v ''Production'' reg of
                  (Inl e, reg) \<Rightarrow> (Inl (StageError e), reg)
                | (Inr _, reg) \<Rightarrow> (Inr (), reg))))"

text \<open>\<^verbatim>\<open>dvc repro\<close> up to the model: the stages in order, stopping at the first that raises.\<close>

definition build_model ::
  "('pre, 'model, 'part) sklearn \<Rightarrow> ('pre, 'model, 'part) files \<Rightarrow> stage_error + ('pre, 'model, 'part) files" where
  "build_model sk fs = (case data_preprocessing sk fs of Inl e \<Rightarrow> Inl e | Inr fs' \<Rightarrow> train_stage sk fs')"


section \<open>Processed rows\<close>

definition complete_rows :: "row list \<Rightarrow> row list" where
  "complete_rows ds = filter (\<lambda>d. dropna d \<noteq> None) ds"

definition processed :: "('pre, 'model, 'part) sklearn \<Rightarrow> 'pre \<Rightarrow> row list \<Rightarrow> row list" where
  "processed sk p ds = map (\<lambda>d. sk_transform sk p (drop_columns [TARGET_COLUMN] d) @ [(TARGET_COLUMN, cell_of TARGET_COLUMN d)]) (complete_rows ds)"

lemma frame_dropna_rows: "map snd (frame_dropna (read_frame ds)) = complete_rows ds"
proof -
  have "map snd (filter (\<lambda>(i, d). P d) (zip [n..<n + length ds] ds)) = filter P ds" for P and n :: nat
  proof (induction ds arbitrary: n)
    case (Cons d ds)
    from Cons.IH [of "Suc n"] show ?case by (simp add: upt_conv_Cons del: upt_Suc)
  qed simp
  from this [of "\<lambda>d. dropna d \<noteq> None" 0] show ?thesis by (simp add: frame_dropna_def read_frame_def complete_rows_def)
qed

lemma frame_dropna_index: "distinct (map fst (frame_dropna (read_frame ds)))"
proof -
  have "distinct (map fst (read_frame ds))" by (simp add: read_frame_def)
  then show ?thesis unfolding frame_dropna_def by (rule distinct_map_filter)
qed

text \<open>The join puts each target back beside the row it came from.\<close>

lemma join_aligned:
  assumes "distinct (map fst df)"
  shows "map_sum id (map snd) (join_X_and_y (transform_frame sk p (fst (make_X_and_y df TARGET_COLUMN))) (snd (make_X_and_y df TARGET_COLUMN))) =
    (if has_column TARGET_COLUMN (map snd df)
     then Inr (map (\<lambda>d. sk_transform sk p (drop_columns [TARGET_COLUMN] d) @ [(TARGET_COLUMN, cell_of TARGET_COLUMN d)]) (map snd df))
     else Inl (TypeError ''object is not iterable''))"
proof -
  let ?y = "map (\<lambda>(i, d). (i, cell_of TARGET_COLUMN d)) df"
  have "map_of ?y i = Some (cell_of TARGET_COLUMN d)" if "(i, d) \<in> set df" for i d
    using assms that by (intro map_of_is_SomeI) (force simp: comp_def case_prod_unfold)+
  then have "map snd (List.map_filter (\<lambda>(i, x). map_option (\<lambda>v. (i, x @ [(TARGET_COLUMN, v)])) (map_of ?y i))
      (map (\<lambda>(i, d). (i, sk_transform sk p (drop_columns [TARGET_COLUMN] d))) xs)) =
    map (\<lambda>d. sk_transform sk p (drop_columns [TARGET_COLUMN] d) @ [(TARGET_COLUMN, cell_of TARGET_COLUMN d)]) (map snd xs)"
    if "set xs \<subseteq> set df" for xs
    using that by (induction xs) (auto simp: List.map_filter_def)
  from this [of df] show ?thesis
    by (simp add: join_X_and_y_def make_X_and_y_def transform_frame_def comp_def case_prod_unfold)
qed

lemma raising_Inr: "raising x f = Inr r \<longleftrightarrow> (\<exists>v. x = Inr v \<and> f v = Inr r)"
  by (simp add: raising_def split: sum.splits)

lemma load_file_Inr: "load_file path file f = Inr r \<longleftrightarrow> (\<exists>v. file = Some v \<and> f v = Inr r)"
  by (simp add: load_file_def split: option.splits)

lemma load_data_Inr: "load_data sk path file f = Inr r \<longleftrightarrow> (\<exists>v. file = Some v \<and> f (csv sk v) = Inr r)"
  by (simp add: load_data_def load_file_Inr)

lemmas stage_Inr = raising_Inr load_file_Inr load_data_Inr

lemma join_rows:
  assumes "join_X_and_y (transform_frame sk p X) y = Inr df" and "make_X_and_y (frame_dropna (read_frame ds)) TARGET_COLUMN = (X, y)"
  shows "map snd df = processed sk p ds"
  using join_aligned [OF frame_dropna_index, of sk p ds] assms
  by (auto simp: frame_dropna_rows processed_def split: if_splits)

lemma make_X_rows:
  "map snd (fst (make_X_and_y (frame_dropna (read_frame ds)) c)) = map (drop_columns [c]) (complete_rows ds)"
  by (simp add: make_X_and_y_def comp_def case_prod_unfold frame_dropna_rows [symmetric])

lemma preprocessing_result:
  assumes "data_preprocessing sk fs = Inr gs"
  obtains t u p where "f_train fs = Some t" and "f_test fs = Some u"
    and "sk_fit sk build_preprocessor (map (drop_columns [TARGET_COLUMN]) (complete_rows (csv sk t))) = Inr p"
    and "gs = fs\<lparr>f_train_trans := Some (processed sk p (csv sk t)), f_test_trans := Some (processed sk p (csv sk u)), f_preprocessor := Some p\<rparr>"
proof -
  obtain t u where tu: "f_train fs = Some t" "f_test fs = Some u" using assms by (auto simp: data_preprocessing_def stage_Inr)
  obtain X y where Xy: "make_X_and_y (frame_dropna (read_frame (csv sk t))) TARGET_COLUMN = (X, y)" by fastforce
  obtain X' y' where Xy': "make_X_and_y (frame_dropna (read_frame (csv sk u))) TARGET_COLUMN = (X', y')" by fastforce
  from assms obtain p df df' where r: "sk_fit sk build_preprocessor (map snd X) = Inr p"
      "join_X_and_y (transform_frame sk p X) y = Inr df" "join_X_and_y (transform_frame sk p X') y' = Inr df'"
      "gs = fs\<lparr>f_train_trans := Some (map snd df), f_test_trans := Some (map snd df'), f_preprocessor := Some p\<rparr>"
    by (auto simp: data_preprocessing_def stage_Inr tu Xy Xy')
  have "map snd X = map (drop_columns [TARGET_COLUMN]) (complete_rows (csv sk t))"
    using make_X_rows [of "csv sk t" TARGET_COLUMN] by (simp add: Xy)
  with that [OF tu, of p] r join_rows [OF r(2) Xy] join_rows [OF r(3) Xy'] show thesis by simp
qed

lemma train_result:
  assumes "train_stage sk fs = Inr gs"
  obtains t ps m where "f_train_trans fs = Some t" and "f_params fs = Some ps"
    and "sk_train sk (pp_random_forest ps) (pp_lightgbm ps) (map (drop_columns [TARGET_COLUMN]) (csv sk t)) (map (cell_of TARGET_COLUMN) (csv sk t)) = Inr m"
    and "gs = fs\<lparr>f_model := Some m, f_stacking := Some (sk_regressor sk m), f_power := Some (sk_power sk m)\<rparr>"
  using assms by (auto simp: train_stage_def stage_Inr split: if_splits)

lemma build_model_result:
  assumes "build_model sk fs = Inr gs"
  obtains t ps p m where "f_train fs = Some t" and "f_params fs = Some ps"
    and "sk_fit sk build_preprocessor (map (drop_columns [TARGET_COLUMN]) (complete_rows (csv sk t))) = Inr p"
    and "sk_train sk (pp_random_forest ps) (pp_lightgbm ps) (map (drop_columns [TARGET_COLUMN]) (csv sk (processed sk p (csv sk t))))
       (map (cell_of TARGET_COLUMN) (csv sk (processed sk p (csv sk t)))) = Inr m"
    and "f_preprocessor gs = Some p" and "f_model gs = Some m" and "f_stacking gs = Some (sk_regressor sk m)" and "f_power gs = Some (sk_power sk m)"
    and "f_train_trans gs = Some (processed sk p (csv sk t))"
proof -
  from assms obtain fs' where s: "data_preprocessing sk fs = Inr fs'" "train_stage sk fs' = Inr gs"
    by (auto simp: build_model_def split: sum.splits)
  from preprocessing_result [OF s(1)] obtain t u p where pre: "f_train fs = Some t"
      "sk_fit sk build_preprocessor (map (drop_columns [TARGET_COLUMN]) (complete_rows (csv sk t))) = Inr p"
      "fs' = fs\<lparr>f_train_trans := Some (processed sk p (csv sk t)), f_test_trans := Some (processed sk p (csv sk u)), f_preprocessor := Some p\<rparr>" .
  from train_result [OF s(2)] obtain t' ps m where tr: "f_train_trans fs' = Some t'" "f_params fs' = Some ps"
      "sk_train sk (pp_random_forest ps) (pp_lightgbm ps) (map (drop_columns [TARGET_COLUMN]) (csv sk t')) (map (cell_of TARGET_COLUMN) (csv sk t')) = Inr m"
      "gs = fs'\<lparr>f_model := Some m, f_stacking := Some (sk_regressor sk m), f_power := Some (sk_power sk m)\<rparr>" .
  have "t' = processed sk p (csv sk t)" using tr(1) by (simp add: pre(3))
  with tr show thesis by (intro that [OF pre(1) _ pre(2)]) (simp_all add: pre(3))
qed

section \<open>Splitting\<close>

text \<open>What pandas and scikit-learn promise: sorting permutes the rows, \<^verbatim>\<open>train_test_split\<close> deals them into two parts, the second with
  the share \<open>test_size\<close> of them rounded up, and a CSV file keeps the columns.\<close>

definition split_lib_ok :: "('pre, 'model, 'part) sklearn \<Rightarrow> bool" where
  "split_lib_ok sk \<longleftrightarrow>
     (\<forall>c ds. mset (sk_sort sk c ds) = mset ds) \<and>
     (\<forall>ts rs ds tr te. sk_split sk ts rs ds = Inr (tr, te) \<longrightarrow>
        mset tr + mset te = mset ds \<and> int (length te) = \<lceil>of_nat (length ds) * ts\<rceil>)"

definition csv_keeps_columns :: "('pre, 'model, 'part) sklearn \<Rightarrow> bool" where
  "csv_keeps_columns sk \<longleftrightarrow> (\<forall>c ds. has_column c (csv sk ds) \<longleftrightarrow> has_column c ds)"

lemma mset_slice_at: "slice_at k xs = (a, b) \<Longrightarrow> mset a + mset b = mset xs"
  by (auto simp: slice_at_def Let_def simp flip: mset_append)

lemma slice_at_length: "0 \<le> k \<Longrightarrow> k \<le> int (length xs) \<Longrightarrow> slice_at k xs = (a, b) \<Longrightarrow> int (length b) = int (length xs) - k"
  by (auto simp: slice_at_def Let_def)

lemma time_split_size:
  assumes "0 \<le> ts" and "ts \<le> (1 :: rat)"
  shows "0 \<le> py_int (of_nat n * (1 - ts))" and "py_int (of_nat n * (1 - ts)) \<le> int n"
    and "int n - py_int (of_nat n * (1 - ts)) = \<lceil>of_nat n * ts\<rceil>"
proof -
  have nonneg: "0 \<le> of_nat n * (1 - ts)" using assms by simp
  then have int: "py_int (of_nat n * (1 - ts)) = \<lfloor>of_nat n * (1 - ts)\<rfloor>" by (simp add: py_int_def)
  have "of_nat n * (1 - ts) = rat_of_int (int n) + - (of_nat n * ts)" by (simp add: algebra_simps)
  then have "\<lfloor>of_nat n * (1 - ts)\<rfloor> = int n - \<lceil>of_nat n * ts\<rceil>"
    using int_add_floor [of "int n" "- (of_nat n * ts) :: rat"] by (simp add: ceiling_def)
  then show "int n - py_int (of_nat n * (1 - ts)) = \<lceil>of_nat n * ts\<rceil>" by (simp add: int)
  have "0 \<le> of_nat n * ts" using assms by simp
  then have "0 \<le> \<lceil>of_nat n * ts\<rceil>" by simp
  with \<open>int n - py_int (of_nat n * (1 - ts)) = \<lceil>of_nat n * ts\<rceil>\<close> show "py_int (of_nat n * (1 - ts)) \<le> int n" by linarith
  show "0 \<le> py_int (of_nat n * (1 - ts))" using nonneg int by simp
qed

lemma cleaned_columns:
  assumes "perform_data_cleaning pd ds = Inr cleaned" and "c \<in> set COLUMNS_TO_DROP"
  shows "\<not> has_column c cleaned"
proof -
  have "c \<notin> fst ` set d" if "d \<in> set cleaned" for d
  proof -
    from assms(1) that obtain d' where "dropna (drop_columns COLUMNS_TO_DROP d') = Some d"
      by (auto simp: perform_data_cleaning_def map_filter_def split: sum.splits)
    then have "d = drop_columns COLUMNS_TO_DROP d'" by (simp add: dropna_def split: if_splits)
    with assms(2) show ?thesis by (auto simp: drop_columns_def)
  qed
  then show ?thesis by (cases cleaned) (auto simp: has_column_def)
qed

text \<open>The tracking server is that of the environment or the local directory, whatever DagsHub was initialised with.\<close>

lemma dagshub_tracking_undone:
  "last (setup_mlflow env dagshub root_path) =
     SetTrackingUri (if truthy_env env ''MLFLOW_TRACKING_URI'' then get_or (env ''MLFLOW_TRACKING_URI'') [] else ''file:///'' @ root_path @ ''/mlruns'')"
  by (simp add: setup_mlflow_def)

section \<open>Serving the artifacts\<close>

text \<open>\<^verbatim>\<open>joblib.load\<close> of a file.\<close>

definition joblib_load :: "'a option \<Rightarrow> 'a outcome" where
  "joblib_load file = (case file of Some v \<Rightarrow> Inr v | None \<Rightarrow> Inl (RuntimeError ''No such file''))"

definition run_pipeline :: "('pre, 'model, 'part) sklearn \<Rightarrow> 'pre \<times> 'model \<Rightarrow> row \<Rightarrow> rat outcome" where
  "run_pipeline sk pipe d = Inr (sk_predict sk (snd pipe) (sk_transform sk (fst pipe) d))"

section \<open>Properties\<close>


text \<open>
  A split loses and repeats no row, under either strategy, and the test part has the share \<open>test_size\<close> of the rows rounded up.\<close>

theorem split_is_partition:
  assumes "split_lib_ok sk" and "0 \<le> test_size" and "test_size \<le> 1"
    and "split_data sk data test_size random_state strategy = Inr (train, test)"
  shows "mset train + mset test = mset data \<and> int (length test) = \<lceil>of_nat (length data) * test_size\<rceil>"
proof (cases "strategy = ''time'' \<and> has_column ''order_date'' data")
  case True
  let ?s = "sk_sort sk ''order_date'' data"
  have perm: "mset ?s = mset data" using assms(1) by (simp add: split_lib_ok_def)
  then have len: "length ?s = length data" by (metis size_mset)
  from True assms(4) have "slice_at (py_int (of_nat (length data) * (1 - test_size))) ?s = (train, test)"
    by (simp add: split_data_def Let_def len)
  with mset_slice_at [OF this] slice_at_length [OF _ _ this] time_split_size [OF assms(2,3), of "length data"] perm len show ?thesis by simp
next
  case False
  with assms(1,4) show ?thesis by (auto simp: split_data_def split_lib_ok_def)
qed

text \<open>
  The strategy \<^verbatim>\<open>time\<close> has no effect: the cleaning stage drops the column \<^verbatim>\<open>order_date\<close>, so the preparation stage that follows splits at
  random whichever of the two strategies the parameters name.\<close>

theorem time_strategy_never_used:
  assumes "csv_keeps_columns sk" and "data_cleaning sk pd fs = Inr gs"
  shows "map_sum id (\<lambda>hs. (f_train hs, f_test hs)) (data_preparation sk (gs\<lparr>f_params := Some (ps\<lparr>pp_strategy := Some ''time''\<rparr>)\<rparr>)) =
    map_sum id (\<lambda>hs. (f_train hs, f_test hs)) (data_preparation sk (gs\<lparr>f_params := Some (ps\<lparr>pp_strategy := Some ''random''\<rparr>)\<rparr>))"
proof -
  from assms(2) obtain raw cleaned where c: "perform_data_cleaning pd raw = Inr cleaned" "gs = fs\<lparr>f_cleaned := Some cleaned\<rparr>"
    by (auto simp: data_cleaning_def stage_Inr)
  have "\<not> has_column ''order_date'' (csv sk cleaned)"
    using cleaned_columns [OF c(1), of "''order_date''"] assms(1) by (simp add: csv_keeps_columns_def COLUMNS_TO_DROP_def)
  then have "split_data sk (csv sk cleaned) ts rs ''time'' = split_data sk (csv sk cleaned) ts rs ''random''" for ts rs
    by (simp add: split_data_def)
  then show ?thesis
    by (simp add: data_preparation_def load_data_def load_file_def c(2) get_or_def raising_def split: sum.splits)
qed


text \<open>
  The registry report does not depend on the alias. Once a version is registered, the report names it as \<^verbatim>\<open>champion\<close> and \<^verbatim>\<open>READY\<close> even
  when the registry refused the alias; and because registration puts no version into a stage, the promotion script that
  runs afterwards finds nothing in \<^verbatim>\<open>Staging\<close> and fails without promoting anything.\<close>

theorem registration_report_unconditional:
  assumes "f_run_info fs = Some info" and "ml_register ml (ri_artifact_path info) (ri_model_name info) reg = (Inr v, reg1)"
    and "ml_set_alias ml (ri_model_name info) ''champion'' v reg1 = (alias_answer, reg2)"
    and "\<And>reg. ml_latest_versions ml (ri_model_name info) ''Staging'' (snd (ml_register ml (ri_artifact_path info) (ri_model_name info) reg)) =
      ml_latest_versions ml (ri_model_name info) ''Staging'' reg"
    and "\<And>reg. ml_latest_versions ml (ri_model_name info) ''Staging'' (snd (ml_set_alias ml (ri_model_name info) ''champion'' v reg)) =
      ml_latest_versions ml (ri_model_name info) ''Staging'' reg"
    and "ml_latest_versions ml (ri_model_name info) ''Staging'' reg = Inr []"
  shows "\<exists>gs. register_model ml fs reg = (Inr gs, reg2) \<and>
    f_registry gs = Some \<lparr>rg_model_name = ri_model_name info, rg_version = v, rg_alias = ''champion'',
      rg_registered_uri = ri_artifact_path info, rg_status = ''READY''\<rparr> \<and>
    promote_model ml gs reg2 = (Inl IndexError, reg2)"
proof -
  have "ml_latest_versions ml (ri_model_name info) ''Staging'' reg2 = Inr []"
    using assms(4) [of reg] assms(5) [of reg1] assms(2,3,6) by simp
  with assms(1-3) show ?thesis by (simp add: register_model_def promote_model_def)
qed

text \<open>
  The late rate that the evaluation stage reports and the one the monitor computes are the same quantity: on the same labelled
  predictions the monitor's value is the offline one rounded to four decimals. Late and early deliveries exclude each other.\<close>

theorem late_rate_offline_online:
  assumes "rows = get_labelled_predictions window_size db" and "rows \<noteq> []"
    and "calculate_metrics sk (map (of_rat \<circ> actual_of) rows) (map pl_eta_minutes rows) = Inr m"
  shows "(\<exists>q. late_rate_gt_5min m = of_rat q \<and> late_rate (compute_rolling_metrics window_size db) = py_round 4 q) \<and>
    0 \<le> late_rate_gt_5min m \<and> 0 \<le> early_rate_gt_5min m \<and> late_rate_gt_5min m + early_rate_gt_5min m \<le> 1"
proof -
  let ?pairs = "zip (map (of_rat \<circ> actual_of) rows) (map pl_eta_minutes rows) :: (real \<times> rat) list"
  let ?late = "\<lambda>(y :: real, p). y - of_rat p > 5" and ?early = "\<lambda>(y :: real, p). of_rat p - y > 5"
  from assms(3) have m: "late_rate_gt_5min m = of_nat (length (filter ?late ?pairs)) / of_nat (length rows)"
      "early_rate_gt_5min m = of_nat (length (filter ?early ?pairs)) / of_nat (length rows)"
    by (auto simp: calculate_metrics_def Let_def split: sum.splits)
  have late: "(of_rat a - of_rat p > (5 :: real)) \<longleftrightarrow> a > p + 5" for a p
  proof -
    have "(of_rat (p + 5) :: real) < of_rat a \<longleftrightarrow> p + 5 < a" by (rule of_rat_less)
    then show ?thesis by (simp add: of_rat_add algebra_simps)
  qed
  have "length (filter ?late (zip (map (of_rat \<circ> actual_of) rs) (map pl_eta_minutes rs))) = length (filter is_late rs)" for rs
    by (induction rs) (simp_all add: is_late_def late)
  then have "late_rate_gt_5min m = of_rat (of_nat (length (filter is_late rows)) / of_nat (length rows))"
    by (simp add: m of_rat_divide)
  moreover have "late_rate (compute_rolling_metrics window_size db) = py_round 4 (of_nat (length (filter is_late rows)) / of_nat (length rows))"
    using assms(1,2) by (simp add: compute_rolling_metrics_def Let_def)
  moreover have "length (filter ?late ps) + length (filter ?early ps) \<le> length ps" for ps by (induction ps) auto
  from this [of ?pairs] have "real (length (filter ?late ?pairs)) + real (length (filter ?early ?pairs)) \<le> real (length rows)" by simp
  then have "late_rate_gt_5min m + early_rate_gt_5min m \<le> 1"
    unfolding m using assms(2) by (simp add: divide_simps flip: add_divide_distrib)
  ultimately show ?thesis using m by auto
qed

section \<open>Witnesses\<close>

definition plain_sklearn :: "(nat, nat, nat) sklearn" where
  "plain_sklearn =
     \<lparr>sk_split = (\<lambda>ts rs ds. if 0 \<le> ts \<and> ts \<le> 1
        then let k = nat \<lceil>of_nat (length ds) * ts\<rceil> in Inr (drop k ds, take k ds) else Inl (ValueError ''test_size'')),
      sk_sort = (\<lambda>c ds. rev ds), sk_fit = (\<lambda>ts ds. Inr (length ds)), sk_transform = (\<lambda>p d. d),
      sk_train = (\<lambda>rf lgbm X y. Inr (length X)), sk_predict = (\<lambda>m d. of_nat m), sk_regressor = id, sk_power = id,
      sk_mae = (\<lambda>y p. Inr 0), sk_r2 = (\<lambda>y p. Inr 1), csv = id\<rparr>"

lemma plain_sklearn_ok: "split_lib_ok plain_sklearn" "csv_keeps_columns plain_sklearn"
proof -
  have len: "int (length (take (nat \<lceil>of_nat (length ds) * ts\<rceil>) ds)) = \<lceil>of_nat (length ds) * ts\<rceil>"
    if "0 \<le> ts" "ts \<le> (1 :: rat)" for ts and ds :: "row list"
  proof -
    have "of_nat (length ds) * ts \<le> of_nat (length ds)" using that by (simp add: mult_left_le)
    then have "\<lceil>of_nat (length ds) * ts\<rceil> \<le> int (length ds)" by (simp add: ceiling_le_iff)
    moreover have "0 \<le> \<lceil>of_nat (length ds) * ts\<rceil>"
    proof -
      have "0 \<le> of_nat (length ds) * ts" using that by simp
      then show ?thesis by simp
    qed
    ultimately show ?thesis by simp
  qed
  have parts: "mset (drop k ds) + mset (take k ds) = mset ds" for k and ds :: "row list"
    by (metis append_take_drop_id mset_append union_commute)
  show "split_lib_ok plain_sklearn"
    using len parts by (auto simp: split_lib_ok_def plain_sklearn_def Let_def split: if_splits)
  show "csv_keeps_columns plain_sklearn" by (simp add: csv_keeps_columns_def plain_sklearn_def)
qed

definition delivery :: "real \<Rightarrow> real \<Rightarrow> row" where
  "delivery a t = [(''age'', Num a), (''time_taken'', Num t)]"

definition demo_params :: pipeline_params where
  "demo_params = \<lparr>pp_test_size = None, pp_random_state = None, pp_strategy = None, pp_random_forest = [], pp_lightgbm = []\<rparr>"

definition demo_files :: "row list \<Rightarrow> (nat, nat, nat) files" where
  "demo_files test =
     \<lparr>f_params = Some demo_params, f_raw = Some [], f_cleaned = None, f_train = Some [delivery 30 25, [(''age'', Missing)], delivery 40 35],
      f_test = Some test, f_train_trans = None, f_test_trans = None, f_preprocessor = None, f_model = None, f_stacking = None,
      f_power = None, f_run_info = None, f_registry = None\<rparr>"

lemma demo_complete: "complete_rows [delivery 30 25, [(''age'', Missing)], delivery 40 35] = [delivery 30 25, delivery 40 35]"
  "complete_rows [delivery a t] = [delivery a t]"
  by (simp_all add: complete_rows_def dropna_def delivery_def)

lemma demo_built: "\<exists>gs. build_model plain_sklearn (demo_files [delivery a t]) = Inr gs \<and> f_preprocessor gs = Some 2 \<and> f_model gs = Some 2"
  by (simp add: build_model_def data_preprocessing_def train_stage_def plain_sklearn_def demo_files_def demo_params_def load_data_def load_file_def raising_def
      join_X_and_y_def make_X_and_y_def transform_frame_def frame_dropna_def read_frame_def dropna_def delivery_def has_column_def
      cell_of_def drop_columns_def TARGET_COLUMN_def map_filter_def)


theorem split_is_partition_witness:
  "\<exists>train test. split_data plain_sklearn [delivery 1 1, delivery 2 2, delivery 3 3] (1 / 4) 42 ''random'' = Inr (train, test) \<and>
     mset train + mset test = mset [delivery 1 1, delivery 2 2, delivery 3 3] \<and> int (length test) = 1"
proof -
  let ?data = "[delivery 1 1, delivery 2 2, delivery 3 3]"
  obtain train test where split: "split_data plain_sklearn ?data (1 / 4) 42 ''random'' = Inr (train, test)"
    by (simp add: split_data_def plain_sklearn_def Let_def)
  have "int (length test) = \<lceil>(3 :: rat) * (1 / 4)\<rceil>" and m: "mset train + mset test = mset ?data"
    using split_is_partition [OF plain_sklearn_ok(1) _ _ split] by simp_all
  moreover have "\<lceil>(3 :: rat) * (1 / 4)\<rceil> = 1" by (rule ceiling_unique) simp_all
  ultimately show ?thesis using split by auto
qed

theorem time_strategy_never_used_witness:
  "\<exists>gs. data_cleaning plain_sklearn plain_pandas (demo_files []) = Inr gs \<and>
     map_sum id (\<lambda>hs. (f_train hs, f_test hs)) (data_preparation plain_sklearn (gs\<lparr>f_params := Some (demo_params\<lparr>pp_strategy := Some ''time''\<rparr>)\<rparr>)) =
     map_sum id (\<lambda>hs. (f_train hs, f_test hs)) (data_preparation plain_sklearn (gs\<lparr>f_params := Some (demo_params\<lparr>pp_strategy := Some ''random''\<rparr>)\<rparr>))"
proof -
  obtain gs where gs: "data_cleaning plain_sklearn plain_pandas (demo_files []) = Inr gs"
    by (simp add: data_cleaning_def load_data_def load_file_def demo_files_def plain_sklearn_def perform_data_cleaning_def filter_training_rows_def
        map_filter_def raising_def)
  from time_strategy_never_used [OF plain_sklearn_ok(2) gs] gs show ?thesis by blast
qed


text \<open>A registry that numbers its versions, knows no stages and refuses aliases.\<close>

definition plain_mlflow :: "nat mlflow" where
  "plain_mlflow = \<lparr>ml_register = (\<lambda>uri name n. (Inr (nat_str (Suc n)), Suc n)), ml_set_alias = (\<lambda>name alias v n. (Inl (RuntimeError ''denied''), n)),
     ml_latest_versions = (\<lambda>name stage n. Inr []), ml_transition = (\<lambda>name v stage n. (Inr (), n))\<rparr>"

definition demo_run_info :: run_info where
  "demo_run_info = \<lparr>ri_run_id = ''r'', ri_artifact_path = ''runs:/r'', ri_model_name = ''delivery_time_pred_model'',
     ri_metrics = \<lparr>om_mae = 0, om_r2 = 0, late_rate_gt_5min = 0, early_rate_gt_5min = 0\<rparr>\<rparr>"

theorem registration_report_unconditional_witness:
  "\<exists>gs. register_model plain_mlflow ((demo_files [])\<lparr>f_run_info := Some demo_run_info\<rparr>) 0 = (Inr gs, 1) \<and>
     map_option rg_alias (f_registry gs) = Some ''champion'' \<and> promote_model plain_mlflow gs 1 = (Inl IndexError, 1)"
proof -
  have ml: "ml_register plain_mlflow (ri_artifact_path demo_run_info) (ri_model_name demo_run_info) 0 = (Inr (nat_str 1), 1)"
    "ml_set_alias plain_mlflow (ri_model_name demo_run_info) ''champion'' (nat_str 1) 1 = (Inl (RuntimeError ''denied''), 1)"
    by (simp_all add: plain_mlflow_def)
  have "f_run_info ((demo_files [])\<lparr>f_run_info := Some demo_run_info\<rparr>) = Some demo_run_info" by simp
  from registration_report_unconditional [OF this ml] show ?thesis by (auto simp: plain_mlflow_def)
qed

definition one_delivery :: monitoring_db where
  "one_delivery = \<lparr>prediction_logs =
     [\<lparr>prediction_id = ''P'', pl_order_id = ''O'', pl_correlation_id = None, model_version = ''1.0.0'', feature_schema_version = ''1.0.0'',
       input_features = [], pl_eta_minutes = 20, lower_bound = None, upper_bound = None, pl_degraded = False, predicted_at = Naive 0,
       actual_minutes = Some 30, delivered_at = Some (Naive 1), label_lag_seconds = Some 1\<rparr>],
     drift_reports = [], retrain_decisions = []\<rparr>"

theorem late_rate_offline_online_witness:
  "\<exists>m q. calculate_metrics plain_sklearn [30] [20] = Inr m \<and> late_rate_gt_5min m = of_rat q \<and>
     late_rate (compute_rolling_metrics 10 one_delivery) = py_round 4 q \<and> early_rate_gt_5min m \<le> 1"
proof -
  let ?rows = "get_labelled_predictions 10 one_delivery"
  have rows: "?rows \<noteq> []" "map (of_rat \<circ> actual_of) ?rows = [30 :: real]" "map pl_eta_minutes ?rows = [20]"
    by (simp_all add: get_labelled_predictions_def newest_first_def one_delivery_def labelled_def actual_of_def)
  obtain m where m: "calculate_metrics plain_sklearn (map (of_rat \<circ> actual_of) ?rows) (map pl_eta_minutes ?rows) = Inr m"
    by (simp add: calculate_metrics_def plain_sklearn_def Let_def)
  from late_rate_offline_online [OF refl rows(1) m] m show ?thesis by (auto simp: rows(2,3))
qed

end
