(* ===== verification/Streamlit.thy ===== *)
theory Streamlit
  imports Eta "HOL-Library.While_Combinator"
begin

text \<open>
  The demo page, \<^verbatim>\<open>streamlit_app.py\<close>: its cities and menus, the route planner with its session state, the bill, the order it
  sends to the saga orchestrator and what it shows of the answer. A run of the script is a function of the widgets'
  values and the session; \<^verbatim>\<open>st.rerun()\<close> starts the script again with the same widgets. Layout, colours and the map picture are left out.
\<close>

section \<open>Service status\<close>

definition status_services :: "string list" where
  "status_services =
     [''Saga Orchestrator'', ''ETA Inference'', ''ML Monitoring'', ''Order Service'', ''Payment Service'', ''Inventory Service'']"

definition service_status :: "nat outcome \<Rightarrow> string" where
  "service_status answer = (case answer of Inl e \<Rightarrow> ''down'' | Inr code \<Rightarrow> if code = 200 then ''up'' else ''warn'')"

text \<open>\<^verbatim>\<open>_check_all_services\<close> under \<^verbatim>\<open>st.cache_data(ttl=30)\<close>: \<open>probe\<close> asks a service, times are in seconds.\<close>

definition check_all_services ::
  "(string \<Rightarrow> nat outcome) \<Rightarrow> rat \<Rightarrow> (rat \<times> (string \<times> string) list) option \<Rightarrow> (string \<times> string) list \<times> (rat \<times> (string \<times> string) list) option" where
  "check_all_services probe now cached =
     (case cached of
        Some (t, results) \<Rightarrow>
          if now - t < 30 then (results, cached)
          else (let r = map (\<lambda>n. (n, service_status (probe n))) status_services in (r, Some (now, r)))
      | None \<Rightarrow> (let r = map (\<lambda>n. (n, service_status (probe n))) status_services in (r, Some (now, r))))"

section \<open>Cities\<close>

record restaurant =
  rs_lat :: rat
  rs_lon :: rat
  rs_cuisine :: string
  rs_menu :: "(string \<times> rat) list"
  rs_item_ids :: "(string \<times> string) list"

record city_info =
  ct_center :: "rat \<times> rat"
  ct_zoom :: nat
  ct_restaurants :: "(string \<times> restaurant) list"
  ct_neighborhoods :: "(string \<times> (rat \<times> rat)) list"

definition mumbai :: city_info where
  "mumbai =
     \<lparr>ct_center = (19076 / 1000, 728777 / 10000), ct_zoom = 13,
      ct_restaurants =
         [(''Gajalee (Vile Parle)'', \<lparr>rs_lat = 191025 / 10000, rs_lon = 728455 / 10000, rs_cuisine = ''Coastal Malvani & Seafood'',
            rs_menu = [(''Butter Garlic Jumbo Prawns'', 460), (''Bombil Fry'', 310), (''Neer Dosa with Fish Curry'', 380), (''Sol Kadhi'', 70)],
            rs_item_ids = [(''Butter Garlic Jumbo Prawns'', ''ITEM-1''), (''Bombil Fry'', ''ITEM-2''), (''Neer Dosa with Fish Curry'', ''ITEM-3''), (''Sol Kadhi'', ''ITEM-4'')]\<rparr>),
          (''Bademiya (Colaba)'', \<lparr>rs_lat = 18922 / 1000, rs_lon = 728332 / 10000, rs_cuisine = ''Mughlai & Iconic Kebabs'',
            rs_menu = [(''Chicken Tikka Roll'', 220), (''Mutton Seekh Kebab'', 320), (''Rumali Roti (2 pcs)'', 60), (''Chicken Baida Roti'', 260)],
            rs_item_ids = [(''Chicken Tikka Roll'', ''ITEM-5''), (''Mutton Seekh Kebab'', ''ITEM-6''), (''Rumali Roti (2 pcs)'', ''ITEM-7''), (''Chicken Baida Roti'', ''ITEM-8'')]\<rparr>),
          (''Mahesh Lunch Home (Fort)'', \<lparr>rs_lat = 189324 / 10000, rs_lon = 728351 / 10000, rs_cuisine = ''Mangalorean Seafood & Ghee Roast'',
            rs_menu = [(''Prawns Ghee Roast'', 440), (''Surmai Fish Fry'', 390), (''Appam (2 pcs)'', 80), (''Crab Masala'', 520)],
            rs_item_ids = [(''Prawns Ghee Roast'', ''ITEM-9''), (''Surmai Fish Fry'', ''ITEM-10''), (''Appam (2 pcs)'', ''ITEM-11''), (''Crab Masala'', ''ITEM-12'')]\<rparr>),
          (''Kyani & Co. (Marine Lines)'', \<lparr>rs_lat = 189432 / 10000, rs_lon = 728273 / 10000, rs_cuisine = ''Heritage Irani Cafe & Bakery'',
            rs_menu = [(''Bun Maska with Irani Chai'', 90), (''Chicken Kheema Pav'', 180), (''Mutton Pattice (2 pcs)'', 120), (''Mawa Cake'', 60)],
            rs_item_ids = [(''Bun Maska with Irani Chai'', ''ITEM-13''), (''Chicken Kheema Pav'', ''ITEM-14''), (''Mutton Pattice (2 pcs)'', ''ITEM-15''), (''Mawa Cake'', ''ITEM-16'')]\<rparr>),
          (''Britannia & Co. (Ballard Estate)'', \<lparr>rs_lat = 189345 / 10000, rs_lon = 72839 / 1000, rs_cuisine = ''Parsi & Irani Heritage'',
            rs_menu = [(''Berry Pulao (Chicken)'', 390), (''Mutton Dhansak'', 420), (''Sali Boti'', 350), (''Caramel Custard'', 140)],
            rs_item_ids = [(''Berry Pulao (Chicken)'', ''ITEM-17''), (''Mutton Dhansak'', ''ITEM-18''), (''Sali Boti'', ''ITEM-19''), (''Caramel Custard'', ''ITEM-20'')]\<rparr>)],
      ct_neighborhoods =
         [(''Powai (Hiranandani Gardens)'', (191197 / 10000, 729051 / 10000)),
          (''Bandra West (Pali Hill)'', (190607 / 10000, 728362 / 10000)),
          (''Andheri East (MIDC)'', (191197 / 10000, 728697 / 10000)),
          (''Colaba Causeway'', (18915 / 1000, 728258 / 10000)),
          (''Juhu Beach Area'', (190988 / 10000, 728264 / 10000))]\<rparr>"

definition bengaluru :: city_info where
  "bengaluru =
     \<lparr>ct_center = (129716 / 10000, 775946 / 10000), ct_zoom = 13,
      ct_restaurants =
         [(''Meghana Foods (Koramangala)'', \<lparr>rs_lat = 129352 / 10000, rs_lon = 776245 / 10000, rs_cuisine = ''Biryani & Andhra Special'',
            rs_menu = [(''Special Chicken Biryani'', 340), (''Paneer 65'', 240), (''Boneless Chicken 65'', 290), (''Gulab Jamun (2 pcs)'', 80)],
            rs_item_ids = [(''Special Chicken Biryani'', ''ITEM-1''), (''Paneer 65'', ''ITEM-2''), (''Boneless Chicken 65'', ''ITEM-3''), (''Gulab Jamun (2 pcs)'', ''ITEM-4'')]\<rparr>),
          (''Truffles (Indiranagar)'', \<lparr>rs_lat = 129784 / 10000, rs_lon = 776408 / 10000, rs_cuisine = ''Burgers, Pastas & Shakes'',
            rs_menu = [(''All American Cheese Burger'', 280), (''Peri Peri Chicken Pasta'', 310), (''Garlic Bread with Cheese'', 140), (''Belgian Chocolate Shake'', 180)],
            rs_item_ids = [(''All American Cheese Burger'', ''ITEM-5''), (''Peri Peri Chicken Pasta'', ''ITEM-6''), (''Garlic Bread with Cheese'', ''ITEM-7''), (''Belgian Chocolate Shake'', ''ITEM-8'')]\<rparr>),
          (''Empire Restaurant (Church Street)'', \<lparr>rs_lat = 129756 / 10000, rs_lon = 776066 / 10000, rs_cuisine = ''Kebabs, Shawarma & Mughlai'',
            rs_menu = [(''Empire Special Shawarma'', 160), (''Butter Chicken & Naan Combo'', 320), (''Ghee Rice with Dal'', 190), (''Coin Parotta (3 pcs)'', 90)],
            rs_item_ids = [(''Empire Special Shawarma'', ''ITEM-9''), (''Butter Chicken & Naan Combo'', ''ITEM-10''), (''Ghee Rice with Dal'', ''ITEM-11''), (''Coin Parotta (3 pcs)'', ''ITEM-12'')]\<rparr>),
          (''CTR Shri Sagar (Malleshwaram)'', \<lparr>rs_lat = 130031 / 10000, rs_lon = 775702 / 10000, rs_cuisine = ''South Indian & Filter Coffee'',
            rs_menu = [(''Benne Masala Dosa'', 110), (''Maddur Vada (2 pcs)'', 70), (''Poori Saagu'', 90), (''Degree Filter Coffee'', 40)],
            rs_item_ids = [(''Benne Masala Dosa'', ''ITEM-13''), (''Maddur Vada (2 pcs)'', ''ITEM-14''), (''Poori Saagu'', ''ITEM-15''), (''Degree Filter Coffee'', ''ITEM-16'')]\<rparr>)],
      ct_neighborhoods =
         [(''HSR Layout Sector 4'', (129116 / 10000, 776389 / 10000)),
          (''Koramangala 4th Block'', (129344 / 10000, 776288 / 10000)),
          (''Indiranagar 100ft Road'', (129719 / 10000, 776412 / 10000)),
          (''BTM Layout 2nd Stage'', (129166 / 10000, 776101 / 10000)),
          (''Whitefield Tech Park'', (129698 / 10000, 7775 / 100))]\<rparr>"

definition delhi :: city_info where
  "delhi =
     \<lparr>ct_center = (286139 / 10000, 77209 / 1000), ct_zoom = 12,
      ct_restaurants =
         [(''Karim'' @ [CHR 0x27] @ ''s (Old Delhi / Jama Masjid)'', \<lparr>rs_lat = 286507 / 10000, rs_lon = 772334 / 10000, rs_cuisine = ''Royal Mughlai & Kebabs'',
            rs_menu = [(''Mutton Korma'', 360), (''Chicken Jahangiri'', 380), (''Seekh Kebab (4 pcs)'', 280), (''Khamiri Roti (2 pcs)'', 70)],
            rs_item_ids = [(''Mutton Korma'', ''ITEM-1''), (''Chicken Jahangiri'', ''ITEM-2''), (''Seekh Kebab (4 pcs)'', ''ITEM-3''), (''Khamiri Roti (2 pcs)'', ''ITEM-4'')]\<rparr>),
          (''Gulati Restaurant (Pandara Road)'', \<lparr>rs_lat = 28608 / 1000, rs_lon = 772346 / 10000, rs_cuisine = ''North Indian & Butter Chicken'',
            rs_menu = [(''Famous Butter Chicken'', 440), (''Dal Makhani'', 310), (''Paneer Lababdar'', 340), (''Garlic Naan'', 85)],
            rs_item_ids = [(''Famous Butter Chicken'', ''ITEM-5''), (''Dal Makhani'', ''ITEM-6''), (''Paneer Lababdar'', ''ITEM-7''), (''Garlic Naan'', ''ITEM-8'')]\<rparr>),
          (''Saravana Bhavan (Connaught Place)'', \<lparr>rs_lat = 286315 / 10000, rs_lon = 772197 / 10000, rs_cuisine = ''South Indian Vegetarian'',
            rs_menu = [(''Special Masala Dosa'', 160), (''Idli Vada Combo'', 130), (''Mini Tiffin Platter'', 210), (''Madras Filter Coffee'', 60)],
            rs_item_ids = [(''Special Masala Dosa'', ''ITEM-9''), (''Idli Vada Combo'', ''ITEM-10''), (''Mini Tiffin Platter'', ''ITEM-11''), (''Madras Filter Coffee'', ''ITEM-12'')]\<rparr>)],
      ct_neighborhoods =
         [(''Connaught Place (CP)'', (286315 / 10000, 772197 / 10000)),
          (''Hauz Khas Village'', (285535 / 10000, 771944 / 10000)),
          (''Cyber City (Gurgaon)'', (28495 / 1000, 770895 / 10000)),
          (''Noida Sector 18'', (285708 / 10000, 773271 / 10000)),
          (''South Extension'', (285728 / 10000, 772215 / 10000))]\<rparr>"

definition hyderabad :: city_info where
  "hyderabad =
     \<lparr>ct_center = (17385 / 1000, 784867 / 10000), ct_zoom = 13,
      ct_restaurants =
         [(''Paradise Biryani (Secunderabad)'', \<lparr>rs_lat = 174411 / 10000, rs_lon = 784983 / 10000, rs_cuisine = ''World Famous Hyderabadi Dum Biryani'',
            rs_menu = [(''Royal Mutton Biryani'', 380), (''Special Chicken Biryani'', 340), (''Chicken 65'', 260), (''Double Ka Meetha'', 90)],
            rs_item_ids = [(''Royal Mutton Biryani'', ''ITEM-1''), (''Special Chicken Biryani'', ''ITEM-2''), (''Chicken 65'', ''ITEM-3''), (''Double Ka Meetha'', ''ITEM-4'')]\<rparr>),
          (''Shah Ghouse (Tolichowki)'', \<lparr>rs_lat = 173998 / 10000, rs_lon = 784116 / 10000, rs_cuisine = ''Hyderabadi Haleem & Biryani'',
            rs_menu = [(''Special Mutton Haleem'', 260), (''Boti Kebab'', 290), (''Tala Hua Gosht'', 320), (''Khabsa Rice Platter'', 410)],
            rs_item_ids = [(''Special Mutton Haleem'', ''ITEM-5''), (''Boti Kebab'', ''ITEM-6''), (''Tala Hua Gosht'', ''ITEM-7''), (''Khabsa Rice Platter'', ''ITEM-8'')]\<rparr>),
          (''Chutneys (Banjara Hills)'', \<lparr>rs_lat = 174168 / 10000, rs_lon = 784382 / 10000, rs_cuisine = ''South Indian & 7 Chutneys'',
            rs_menu = [(''Babai Ghee Idli (4 pcs)'', 150), (''Steam Dosa'', 160), (''MLA Pesarattu'', 180), (''Guntur Upma Dosa'', 170)],
            rs_item_ids = [(''Babai Ghee Idli (4 pcs)'', ''ITEM-9''), (''Steam Dosa'', ''ITEM-10''), (''MLA Pesarattu'', ''ITEM-11''), (''Guntur Upma Dosa'', ''ITEM-12'')]\<rparr>)],
      ct_neighborhoods =
         [(''Hitec City / Madhapur'', (174483 / 10000, 783741 / 10000)),
          (''Banjara Hills Road No 1'', (174156 / 10000, 784487 / 10000)),
          (''Gachibowli Financial Dist'', (174401 / 10000, 783489 / 10000)),
          (''Jubilee Hills Checkpost'', (174325 / 10000, 784071 / 10000)),
          (''Charminar Old City'', (173616 / 10000, 784747 / 10000))]\<rparr>"

definition CITIES_DATA :: "(string \<times> city_info) list" where
  "CITIES_DATA = [(''Mumbai'', mumbai), (''Bengaluru'', bengaluru), (''Delhi NCR'', delhi), (''Hyderabad'', hyderabad)]"

section \<open>Distances and routes\<close>

text \<open>\<^verbatim>\<open>math.atan2\<close> in the first quadrant.\<close>

definition atan2_pos :: "real \<Rightarrow> real \<Rightarrow> real" where
  "atan2_pos y x = (if x > 0 then arctan (y / x) else if y > 0 then pi / 2 else 0)"

definition haversine_km :: "rat \<Rightarrow> rat \<Rightarrow> rat \<Rightarrow> rat \<Rightarrow> real" where
  "haversine_km lat1 lon1 lat2 lon2 =
     (let dlat = radians (of_rat (lat2 - lat1));
          dlon = radians (of_rat (lon2 - lon1));
          a = (sin (dlat / 2))\<^sup>2 + cos (radians (of_rat lat1)) * cos (radians (of_rat lat2)) * (sin (dlon / 2))\<^sup>2;
          c = 2 * atan2_pos (sqrt a) (sqrt (1 - a))
      in py_round 2 (6371 * c))"

fun json_number :: "json \<Rightarrow> rat option" where
  "json_number (JInt i) = Some (of_int i)"
| "json_number (JFloat x) = Some x"
| "json_number _ = None"

fun json_field :: "string \<Rightarrow> json \<Rightarrow> json option" where
  "json_field k (JDict d) = map_of d k"
| "json_field k _ = None"

text \<open>\<^verbatim>\<open>[pt[1], pt[0]]\<close>.\<close>

fun swap_point :: "json \<Rightarrow> (json \<times> json) option" where
  "swap_point (JList (x # y # _)) = Some (y, x)"
| "swap_point _ = None"

fun swap_points :: "json list \<Rightarrow> (json \<times> json) list option" where
  "swap_points [] = Some []"
| "swap_points (p # ps) =
     (case (swap_point p, swap_points ps) of (Some q, Some qs) \<Rightarrow> Some (q # qs) | _ \<Rightarrow> None)"

text \<open>What the try-block takes from the router's answer; none when it has no routes or reading it raises.\<close>

definition router_route :: "json \<Rightarrow> ((json \<times> json) list \<times> real) option" where
  "router_route data =
     (case json_field ''routes'' data of
        Some (JList (route # _)) \<Rightarrow>
          (case (json_field ''geometry'' route, json_field ''distance'' route) of
             (Some geometry, Some d) \<Rightarrow>
               (case (json_field ''coordinates'' geometry, json_number d) of
                  (Some (JList pts), Some metres) \<Rightarrow> map_option (\<lambda>coords. (coords, py_round 2 (of_rat metres / 1000))) (swap_points pts)
                | _ \<Rightarrow> None)
           | _ \<Rightarrow> None)
      | _ \<Rightarrow> None)"

definition get_road_route :: "(nat \<times> json) outcome \<Rightarrow> rat \<Rightarrow> rat \<Rightarrow> rat \<Rightarrow> rat \<Rightarrow> (json \<times> json) list \<times> real \<times> bool" where
  "get_road_route answer lat1 lon1 lat2 lon2 =
     (let found = (case answer of Inr (code, data) \<Rightarrow> if code = 200 then router_route data else None | Inl e \<Rightarrow> None)
      in case found of
           Some (coords, distance_km) \<Rightarrow> (coords, distance_km, True)
         | None \<Rightarrow> ([(JFloat lat1, JFloat lon1), (JFloat lat2, JFloat lon2)], haversine_km lat1 lon1 lat2 lon2, False))"

section \<open>The session\<close>

record page_result =
  pg_saga :: saga_result
  pg_order_id :: string
  pg_dishes :: "string list"
  pg_amount :: rat
  pg_distance :: real

record session =
  selected_city :: string
  last_city :: string
  selected_restaurant :: string
  deliv_lat :: rat
  deliv_lon :: rat
  page_saga :: "page_result option"

definition new_session :: session where
  "new_session = \<lparr>selected_city = ''Mumbai'', last_city = ''Mumbai'', selected_restaurant = ''Gajalee (Vile Parle)'',
     deliv_lat = 191197 / 10000, deliv_lon = 729051 / 10000, page_saga = None\<rparr>"

text \<open>The widgets of the planner: city, restaurant, preset area (none for the custom pin) and the last click on the map.\<close>

record planner =
  chosen_city :: string
  chosen_restaurant :: string
  preset_area :: "string option"
  last_clicked :: "(rat \<times> rat) option"

definition lookup :: "(string \<times> 'a) list \<Rightarrow> string \<Rightarrow> 'a outcome" where
  "lookup d k = (case map_of d k of Some v \<Rightarrow> Inr v | None \<Rightarrow> Inl (KeyError k))"

definition change_city :: "string \<Rightarrow> city_info \<Rightarrow> session \<Rightarrow> session" where
  "change_city c info s =
     s\<lparr>selected_city := c, last_city := c, selected_restaurant := fst (hd (ct_restaurants info)),
       deliv_lat := fst (snd (hd (ct_neighborhoods info))), deliv_lon := snd (snd (hd (ct_neighborhoods info)))\<rparr>"

definition apply_preset :: "city_info \<Rightarrow> string option \<Rightarrow> session \<Rightarrow> session outcome" where
  "apply_preset info preset s =
     (case preset of
        None \<Rightarrow> Inr s
      | Some n \<Rightarrow> map_sum id (\<lambda>(lat, lon). s\<lparr>deliv_lat := lat, deliv_lon := lon\<rparr>) (lookup (ct_neighborhoods info) n))"

definition far :: "rat \<times> rat \<Rightarrow> rat \<times> rat \<Rightarrow> bool" where
  "far p q \<longleftrightarrow> \<bar>fst p - fst q\<bar> > 5 / 10000 \<or> \<bar>snd p - snd q\<bar> > 5 / 10000"

text \<open>One run of the planner; the flag says that it ended in \<^verbatim>\<open>st.rerun()\<close>.\<close>

definition plan_route :: "planner \<Rightarrow> session \<Rightarrow> (bool \<times> session) outcome" where
  "plan_route w s =
     (case lookup CITIES_DATA (chosen_city w) of
        Inl e \<Rightarrow> Inl e
      | Inr info \<Rightarrow>
          if chosen_city w \<noteq> last_city s then Inr (True, change_city (chosen_city w) info s)
          else
            (case lookup (ct_restaurants info) (chosen_restaurant w) of
               Inl e \<Rightarrow> Inl e
             | Inr rest \<Rightarrow>
                 (case apply_preset info (preset_area w) (s\<lparr>selected_restaurant := chosen_restaurant w\<rparr>) of
                    Inl e \<Rightarrow> Inl e
                  | Inr s \<Rightarrow>
                      (case last_clicked w of
                         None \<Rightarrow> Inr (False, s)
                       | Some c \<Rightarrow>
                           if far c (deliv_lat s, deliv_lon s) then Inr (True, s\<lparr>deliv_lat := fst c, deliv_lon := snd c\<rparr>)
                           else Inr (False, s)))))"

text \<open>The script runs until a run does not ask for another; none when it never stops.\<close>

definition asks_rerun :: "(bool \<times> session) outcome \<Rightarrow> bool" where
  "asks_rerun r = (case r of Inr (True, s) \<Rightarrow> True | _ \<Rightarrow> False)"

definition run_again :: "planner \<Rightarrow> (bool \<times> session) outcome \<Rightarrow> (bool \<times> session) outcome" where
  "run_again w r = (case r of Inr (b, s) \<Rightarrow> plan_route w s | Inl e \<Rightarrow> Inl e)"

definition run_page :: "planner \<Rightarrow> session \<Rightarrow> (bool \<times> session) outcome option" where
  "run_page w s = while_option asks_rerun (run_again w) (plan_route w s)"

section \<open>The order\<close>

record bill =
  bl_dishes :: "string list"
  bl_item_ids :: "string list"
  bl_total :: rat

definition take_order :: "restaurant \<Rightarrow> (string \<Rightarrow> bool) \<Rightarrow> bill outcome" where
  "take_order r checked =
     (let selected = filter (\<lambda>(dish, price). checked dish) (rs_menu r)
      in map_sum id
           (\<lambda>ids. \<lparr>bl_dishes = map fst selected, bl_item_ids = ids,
                   bl_total = (if selected = [] then 99 else sum_list (map snd selected))\<rparr>)
           (all_outcomes (lookup (rs_item_ids r)) (map fst selected)))"

record trip =
  tr_weather :: weather_condition
  tr_traffic :: traffic_density
  tr_age :: int
  tr_rating :: rat
  tr_vehicle :: vehicle_type
  tr_condition :: int
  tr_festival :: festival_type
  tr_city_type :: city_type

text \<open>The sliders' ranges.\<close>

definition trip_ok :: "trip \<Rightarrow> bool" where
  "trip_ok t \<longleftrightarrow> 18 \<le> tr_age t \<and> tr_age t \<le> 50 \<and> 1 \<le> tr_rating t \<and> tr_rating t \<le> 5 \<and> 0 \<le> tr_condition t \<and> tr_condition t \<le> 3"

definition order_data :: "string \<Rightarrow> restaurant \<Rightarrow> session \<Rightarrow> trip \<Rightarrow> string \<Rightarrow> string \<Rightarrow> json_dict" where
  "order_data oid r s t date clock =
     [(''order_id'', JStr oid), (''delivery_person_age'', JFloat (of_int (tr_age t))), (''delivery_person_ratings'', JFloat (tr_rating t)),
      (''restaurant_latitude'', JFloat (rs_lat r)), (''restaurant_longitude'', JFloat (rs_lon r)),
      (''delivery_location_latitude'', JFloat (deliv_lat s)), (''delivery_location_longitude'', JFloat (deliv_lon s)),
      (''order_date'', JStr date), (''time_order_picked'', JStr clock),
      (''weather_conditions'', JStr (weather_value (tr_weather t))), (''road_traffic_density'', JStr (traffic_value (tr_traffic t))),
      (''vehicle_condition'', JInt (tr_condition t)), (''type_of_order'', JStr ''meal''),
      (''type_of_vehicle'', JStr (vehicle_value (tr_vehicle t))), (''festival'', JStr (festival_value (tr_festival t))),
      (''city'', JStr (city_value (tr_city_type t))), (''city_type'', JStr (city_value (tr_city_type t)))]"

definition saga_request :: "string \<Rightarrow> bill \<Rightarrow> json_dict \<Rightarrow> start_saga_request" where
  "saga_request oid b data =
     \<lparr>ss_order_id = oid, ss_items = Some (if bl_item_ids b = [] then [''ITEM-1''] else bl_item_ids b),
      ss_total_amount = Some (bl_total b), ss_order_data = Some data\<rparr>"

section \<open>The answer\<close>

datatype banner =
    ConfirmedBanner string rat string  \<comment> \<open>order, amount and the formatted time\<close>
  | DegradedBanner string
  | CancelledBanner string json
  | ResponseError nat
  | CommunicationError string

text \<open>\<^verbatim>\<open>f"{v:.1f}"\<close>; \<open>fmt\<close> formats a number.\<close>

definition format_1f :: "(rat \<Rightarrow> string) \<Rightarrow> json \<Rightarrow> string outcome" where
  "format_1f fmt v =
     (case v of
        JInt i \<Rightarrow> Inr (fmt (of_int i))
      | JFloat x \<Rightarrow> Inr (fmt x)
      | JBool b \<Rightarrow> Inr (fmt (if b then 1 else 0))
      | JStr s \<Rightarrow> Inl (ValueError ''Unknown format code f for object of type str'')
      | _ \<Rightarrow> Inl (TypeError ''unsupported format string''))"

definition eta_metric :: "(rat \<Rightarrow> string) \<Rightarrow> json \<Rightarrow> string outcome" where
  "eta_metric fmt v = (if py_truthy v then map_sum id (\<lambda>t. t @ '' min'') (format_1f fmt v) else Inr ''N/A'')"

definition state_banner :: "(rat \<Rightarrow> string) \<Rightarrow> string \<Rightarrow> rat \<Rightarrow> saga_result \<Rightarrow> banner list outcome" where
  "state_banner fmt oid amount res =
     (case sr_state res of
        CONFIRMED \<Rightarrow> map_sum id (\<lambda>t. [ConfirmedBanner oid amount t]) (format_1f fmt (sr_eta_minutes res))
      | CONFIRMED_DEGRADED \<Rightarrow> Inr [DegradedBanner oid]
      | CANCELLED \<Rightarrow> Inr [CancelledBanner oid (sr_error_reason res)]
      | _ \<Rightarrow> Inr [])"

text \<open>\<open>answer\<close> is the exchange with the orchestrator: an exception of the client, or a status and, when it is 200, the result.\<close>

definition show_answer ::
  "(rat \<Rightarrow> string) \<Rightarrow> string \<Rightarrow> bill \<Rightarrow> real \<Rightarrow> (nat \<times> saga_result) outcome \<Rightarrow> session \<Rightarrow> banner list \<times> session" where
  "show_answer fmt oid b distance answer s =
     (case answer of
        Inl e \<Rightarrow> ([CommunicationError (exn_str e)], s)
      | Inr (code, res) \<Rightarrow>
          if code \<noteq> 200 then ([ResponseError code], s)
          else
            let s' = s\<lparr>page_saga := Some \<lparr>pg_saga = res, pg_order_id = oid, pg_dishes = bl_dishes b, pg_amount = bl_total b, pg_distance = distance\<rparr>\<rparr>
            in (case eta_metric fmt (sr_eta_minutes res) of
                  Inl e \<Rightarrow> ([CommunicationError (exn_str e)], s')
                | Inr t \<Rightarrow>
                    (case state_banner fmt oid (bl_total b) res of
                       Inl e \<Rightarrow> ([CommunicationError (exn_str e)], s')
                     | Inr bs \<Rightarrow> (bs, s'))))"


text \<open>The summary of the last saga, shown when the button was not pressed; its formatting is not guarded by a try-block.\<close>

definition show_summary :: "(rat \<Rightarrow> string) \<Rightarrow> session \<Rightarrow> banner list outcome" where
  "show_summary fmt s =
     (case page_saga s of
        None \<Rightarrow> Inr []
      | Some g \<Rightarrow>
          (case eta_metric fmt (sr_eta_minutes (pg_saga g)) of
             Inl e \<Rightarrow> Inl e
           | Inr t \<Rightarrow>
               Inr (case sr_state (pg_saga g) of
                      CONFIRMED \<Rightarrow> [ConfirmedBanner (pg_order_id g) (pg_amount g) t]
                    | CONFIRMED_DEGRADED \<Rightarrow> [DegradedBanner (pg_order_id g)]
                    | CANCELLED \<Rightarrow> [CancelledBanner (pg_order_id g) (sr_error_reason (pg_saga g))]
                    | _ \<Rightarrow> [])))"

text \<open>The second tab: the state of the saga of an order.\<close>

datatype saga_view = SagaView saga_result | NoSagaFound string | LookupFailed string | EnterOrderId

definition fetch_saga_state :: "(string \<Rightarrow> (nat \<times> saga_result) outcome) \<Rightarrow> string \<Rightarrow> saga_view" where
  "fetch_saga_state get_state lookup_id =
     (if lookup_id = [] then EnterOrderId
      else (case get_state (py_strip lookup_id) of
              Inl e \<Rightarrow> LookupFailed (exn_str e)
            | Inr (code, res) \<Rightarrow> if code = 200 then SagaView res else NoSagaFound lookup_id))"

lemma answer_without_banner:
  assumes "eta_metric fmt (sr_eta_minutes res) = Inr t"
  shows "sr_state res = MANUAL_REVIEW \<Longrightarrow> fst (show_answer fmt oid b d (Inr (200, res)) s) = []"
    and "sr_state res = CONFIRMED \<Longrightarrow> sr_eta_minutes res = JNull \<Longrightarrow>
      fst (show_answer fmt oid b d (Inr (200, res)) s) = [CommunicationError ''unsupported format string'']"
  using assms by (simp_all add: show_answer_def state_banner_def format_1f_def Let_def)

section \<open>Distances\<close>

lemma haversine_term_bounds:
  assumes "0 \<le> cos p" and "0 \<le> cos q"
  shows "0 \<le> (sin ((q - p) / 2))\<^sup>2 + cos p * cos q * (sin d)\<^sup>2"
    and "(sin ((q - p) / 2))\<^sup>2 + cos p * cos q * (sin d)\<^sup>2 \<le> (1 :: real)"
proof -
  show "0 \<le> (sin ((q - p) / 2))\<^sup>2 + cos p * cos q * (sin d)\<^sup>2" using assms by simp
  have "cos p * cos q = (cos (p - q) + cos (p + q)) / 2" by (rule cos_times_cos)
  also have "\<dots> \<le> (cos (p - q) + 1) / 2" by simp
  also have "cos (p - q) = 1 - 2 * (sin ((q - p) / 2))\<^sup>2"
  proof -
    have "p - q = - (2 * ((q - p) / 2))" by (simp add: field_simps)
    then have "cos (p - q) = cos (2 * ((q - p) / 2))" by (simp only: cos_minus)
    then show ?thesis by (simp only: cos_double_sin)
  qed
  finally have "cos p * cos q \<le> 1 - (sin ((q - p) / 2))\<^sup>2" by simp
  moreover have "cos p * cos q * (sin d)\<^sup>2 \<le> cos p * cos q"
    using assms by (simp add: mult_left_le abs_square_le_1)
  ultimately show "(sin ((q - p) / 2))\<^sup>2 + cos p * cos q * (sin d)\<^sup>2 \<le> 1" by linarith
qed

lemma atan2_arcsin:
  assumes "0 \<le> a" and "a \<le> 1"
  shows "atan2_pos (sqrt a) (sqrt (1 - a)) = arcsin (min 1 (max 0 (sqrt a)))"
proof (cases "a = 1")
  case True
  then show ?thesis by (simp add: atan2_pos_def)
next
  case False
  with assms have a: "0 < 1 - a" "sqrt a \<le> 1" "0 \<le> sqrt a" by simp_all
  let ?x = "sqrt a / sqrt (1 - a)"
  have "1 + ?x\<^sup>2 = 1 / (1 - a)" using a(1) assms(1) by (simp add: power_divide field_simps)
  then have "sin (arctan ?x) = sqrt a" using a(1) by (simp add: sin_arctan real_sqrt_divide)
  moreover have "arcsin (sin (arctan ?x)) = arctan ?x"
    using arctan_bounded [of ?x] by (intro arcsin_sin) simp_all
  ultimately have "arctan ?x = arcsin (sqrt a)" by simp
  with a show ?thesis by (simp add: atan2_pos_def)
qed

lemma radians_cos:
  assumes "\<bar>x\<bar> \<le> 90"
  shows "0 \<le> cos (radians x)"
proof (rule cos_ge_zero)
  have eq: "radians x = x / 180 * pi" by (simp add: radians_def)
  have "- (1 / 2) * pi \<le> radians x" "radians x \<le> 1 / 2 * pi"
    unfolding eq by (rule mult_right_mono; use assms in auto)+
  then show "- (pi / 2) \<le> radians x" "radians x \<le> pi / 2" by linarith+
qed

section \<open>The planner's runs\<close>

lemma while_option_never:
  assumes "P s" and "\<And>s. P s \<Longrightarrow> b s \<and> P (c s)"
  shows "while_option b c s = None"
proof -
  have "P ((c ^^ k) s)" for k using assms by (induction k) auto
  then have "\<forall>k. b ((c ^^ k) s)" using assms(2) by blast
  then show ?thesis by (simp add: while_option_def)
qed

definition here :: "session \<Rightarrow> rat \<times> rat" where
  "here s = (deliv_lat s, deliv_lon s)"

definition move_to :: "rat \<times> rat \<Rightarrow> session \<Rightarrow> session" where
  "move_to q s = s\<lparr>deliv_lat := fst q, deliv_lon := snd q\<rparr>"

lemma move_to_simps [simp]:
  "here (move_to q s) = q" "last_city (move_to q s) = last_city s" "selected_restaurant (move_to q s) = selected_restaurant s"
  "selected_city (move_to q s) = selected_city s" "here (s\<lparr>selected_restaurant := r\<rparr>) = here s"
  by (simp_all add: here_def move_to_def)

text \<open>The widgets hold one of their options each; \<open>p\<close> is the position of the preset area, if one is chosen.\<close>

definition widgets_ok :: "planner \<Rightarrow> city_info \<Rightarrow> rat \<times> rat \<Rightarrow> bool" where
  "widgets_ok w info p \<longleftrightarrow> lookup CITIES_DATA (chosen_city w) = Inr info \<and>
     (\<exists>rest. lookup (ct_restaurants info) (chosen_restaurant w) = Inr rest) \<and>
     (\<forall>n. preset_area w = Some n \<longrightarrow> lookup (ct_neighborhoods info) n = Inr p)"

definition pinned :: "planner \<Rightarrow> rat \<times> rat \<Rightarrow> session \<Rightarrow> session" where
  "pinned w p s = (let s = s\<lparr>selected_restaurant := chosen_restaurant w\<rparr> in if preset_area w = None then s else move_to p s)"

lemma pinned_simps [simp]:
  "last_city (pinned w p s) = last_city s" "selected_restaurant (pinned w p s) = chosen_restaurant w"
  "here (pinned w p s) = (if preset_area w = None then here s else p)"
  by (simp_all add: pinned_def Let_def)

lemma plan_other_city:
  "widgets_ok w info p \<Longrightarrow> chosen_city w \<noteq> last_city s \<Longrightarrow> plan_route w s = Inr (True, change_city (chosen_city w) info s)"
  by (simp add: plan_route_def widgets_ok_def)

lemma plan_same_city:
  assumes "widgets_ok w info p" and "last_city s = chosen_city w"
  shows "plan_route w s =
    (case last_clicked w of
       Some c \<Rightarrow> if far c (here (pinned w p s)) then Inr (True, move_to c (pinned w p s)) else Inr (False, pinned w p s)
     | None \<Rightarrow> Inr (False, pinned w p s))"
proof -
  have "apply_preset info (preset_area w) (s\<lparr>selected_restaurant := chosen_restaurant w\<rparr>) = Inr (pinned w p s)"
    using assms(1) by (cases "preset_area w") (auto simp: apply_preset_def pinned_def move_to_def widgets_ok_def split: prod.split)
  with assms show ?thesis
    by (auto simp: plan_route_def widgets_ok_def here_def move_to_def split: option.split)
qed

text \<open>Runs in the chosen city: at most one more for a click on a free pin, and no end for a click away from a preset area.\<close>

lemma far_self: "\<not> far c c"
  by (simp add: far_def)

lemma settles_in_city:
  assumes "widgets_ok w info p" and "last_city s = chosen_city w" and "preset_area w = None \<or> (\<forall>c. last_clicked w = Some c \<longrightarrow> \<not> far c p)"
  shows "\<exists>s'. run_page w s = Some (Inr (False, s')) \<and> last_city s' = chosen_city w \<and> selected_restaurant s' = chosen_restaurant w \<and>
    here s' = (if preset_area w \<noteq> None then p
       else case last_clicked w of Some c \<Rightarrow> if far c (here s) then c else here s | None \<Rightarrow> here s)"
proof (cases "\<exists>c. last_clicked w = Some c \<and> far c (here (pinned w p s))")
  case False
  then have "plan_route w s = Inr (False, pinned w p s)"
    using plan_same_city [OF assms(1,2)] by (auto split: option.splits)
  then have "run_page w s = Some (Inr (False, pinned w p s))"
    unfolding run_page_def by (subst while_option_unfold) (simp add: asks_rerun_def)
  with False assms show ?thesis by (auto split: option.splits)
next
  case True
  then obtain c where c: "last_clicked w = Some c" "far c (here (pinned w p s))" by blast
  then have free: "preset_area w = None" using assms(3) by (auto split: if_splits)
  let ?s = "move_to c (pinned w p s)"
  have first: "plan_route w s = Inr (True, ?s)" using plan_same_city [OF assms(1,2)] c by simp
  have "last_city ?s = chosen_city w" using assms(2) by simp
  from plan_same_city [OF assms(1) this] have second: "plan_route w ?s = Inr (False, pinned w p ?s)"
    using c(1) free far_self by simp
  have "run_page w s = Some (Inr (False, pinned w p ?s))"
    unfolding run_page_def
    by (subst while_option_unfold, subst while_option_unfold) (simp add: first second asks_rerun_def run_again_def)
  with c free assms(2) show ?thesis by auto
qed

lemma never_settles_in_city:
  assumes "widgets_ok w info p" and "last_city s = chosen_city w" and "preset_area w \<noteq> None" and "last_clicked w = Some c" and "far c p"
  shows "run_page w s = None"
proof -
  have step: "\<exists>s'. plan_route w s = Inr (True, s') \<and> last_city s' = chosen_city w" if "last_city s = chosen_city w" for s
    using plan_same_city [OF assms(1) that] assms(3-5) that by simp
  let ?P = "\<lambda>r. \<exists>s. r = Inr (True, s) \<and> last_city s = chosen_city w"
  have keep: "asks_rerun r \<and> ?P (run_again w r)" if "?P r" for r
    using that step by (auto simp: asks_rerun_def run_again_def)
  show ?thesis unfolding run_page_def by (rule while_option_never [of ?P, OF step [OF assms(2)] keep])
qed

lemma other_city_first:
  assumes "widgets_ok w info p" and "chosen_city w \<noteq> last_city s"
  shows "run_page w s = run_page w (change_city (chosen_city w) info s)"
  unfolding run_page_def plan_other_city [OF assms]
  by (subst while_option_unfold) (simp add: asks_rerun_def run_again_def)

section \<open>Menus\<close>

definition restaurant_ok :: "restaurant \<Rightarrow> bool" where
  "restaurant_ok r \<longleftrightarrow> map fst (rs_item_ids r) = map fst (rs_menu r) \<and> distinct (map fst (rs_menu r)) \<and> distinct (map snd (rs_item_ids r)) \<and>
     list_all (\<lambda>(dish, price). 0 < price) (rs_menu r)"

definition seeded_ids :: "string list" where
  "seeded_ids = map item_id (inv_items (seed_items \<lparr>inv_items = [], reservations = []\<rparr>))"

lemma menus_ok:
  "list_all (\<lambda>(c, info). list_all (\<lambda>(n, r). restaurant_ok r \<and> list_all (\<lambda>(d, i). i \<in> set seeded_ids) (rs_item_ids r)) (ct_restaurants info)) CITIES_DATA"
  by code_simp

lemma menu_ok:
  assumes "(c, info) \<in> set CITIES_DATA" and "(n, r) \<in> set (ct_restaurants info)"
  shows "restaurant_ok r" and "(d, i) \<in> set (rs_item_ids r) \<Longrightarrow> i \<in> set seeded_ids"
proof -
  have "restaurant_ok r \<and> list_all (\<lambda>(d, i). i \<in> set seeded_ids) (rs_item_ids r)"
    using menus_ok assms unfolding list_all_iff by fast
  then show "restaurant_ok r" and "(d, i) \<in> set (rs_item_ids r) \<Longrightarrow> i \<in> set seeded_ids" by (auto simp: list_all_iff)
qed

lemma all_lookups:
  assumes "set ks \<subseteq> fst ` set d"
  shows "all_outcomes (lookup d) ks = Inr (map (\<lambda>k. the (map_of d k)) ks)"
  using assms
proof (induction ks)
  case (Cons k ks)
  then obtain v where "map_of d k = Some v" by (metis insert_subset list.simps(15) map_of_eq_None_iff not_None_eq)
  with Cons show ?case by (simp add: lookup_def)
qed simp

lemma take_order_ok:
  assumes "restaurant_ok r"
  shows "take_order r checked = Inr
    \<lparr>bl_dishes = filter checked (map fst (rs_menu r)),
     bl_item_ids = map (\<lambda>k. the (map_of (rs_item_ids r) k)) (filter checked (map fst (rs_menu r))),
     bl_total = (if filter checked (map fst (rs_menu r)) = [] then 99 else sum_list (map snd (filter (\<lambda>(d, p). checked d) (rs_menu r))))\<rparr>"
proof -
  have dishes: "map fst (filter (\<lambda>(d, p). checked d) m) = filter checked (map fst m)" for m :: "(string \<times> rat) list"
    by (induction m) auto
  have "fst ` set (rs_item_ids r) = set (map fst (rs_menu r))" using assms by (metis list.set_map restaurant_ok_def)
  then have "set (filter checked (map fst (rs_menu r))) \<subseteq> fst ` set (rs_item_ids r)" by auto
  from all_lookups [OF this] show ?thesis
    by (auto simp: take_order_def Let_def dishes [symmetric])
qed

lemma bill_ids:
  assumes "restaurant_ok r" and "take_order r checked = Inr b"
  shows "distinct (bl_item_ids b)" and "set (bl_item_ids b) \<subseteq> set (map snd (rs_item_ids r))"
    and "length (bl_item_ids b) = length (bl_dishes b)"
proof -
  let ?ids = "rs_item_ids r" and ?ks = "filter checked (map fst (rs_menu r))"
  have ok: "distinct (map fst ?ids)" "distinct (map snd ?ids)" "map fst ?ids = map fst (rs_menu r)"
    using assms(1) by (simp_all add: restaurant_ok_def)
  have b: "bl_item_ids b = map (\<lambda>k. the (map_of ?ids k)) ?ks" "bl_dishes b = ?ks"
    using assms take_order_ok [OF assms(1), of checked] by auto
  show "length (bl_item_ids b) = length (bl_dishes b)" by (simp add: b)
  have ks: "set ?ks \<subseteq> fst ` set ?ids" using ok(3) by (metis filter_is_subset list.set_map)
  have entry: "(k, the (map_of ?ids k)) \<in> set ?ids" if "k \<in> set ?ks" for k
  proof -
    from that ks obtain v where "map_of ?ids k = Some v" by (metis in_mono map_of_eq_None_iff not_None_eq)
    then show ?thesis by (simp add: map_of_SomeD)
  qed
  then show "set (bl_item_ids b) \<subseteq> set (map snd ?ids)" unfolding b by force
  have "k = k'" if "k \<in> set ?ks" "k' \<in> set ?ks" "the (map_of ?ids k) = the (map_of ?ids k')" for k k'
    using entry [OF that(1)] entry [OF that(2)] that(3) ok(2) by (metis distinct_map inj_onD prod.inject snd_conv)
  then have "inj_on (\<lambda>k. the (map_of ?ids k)) (set ?ks)" by (rule inj_onI)
  moreover have "distinct ?ks" using ok(1,3) by simp
  ultimately show "distinct (bl_item_ids b)" unfolding b by (simp only: distinct_map)
qed

section \<open>The order in the ETA service\<close>

definition page_request :: "string \<Rightarrow> restaurant \<Rightarrow> session \<Rightarrow> trip \<Rightarrow> string \<Rightarrow> string \<Rightarrow> order_prediction_request" where
  "page_request oid r s t date clock =
     \<lparr>rq_id = Some oid, rq_rider_id = Some ''RIDER_DEFAULT'', rq_age = of_int (tr_age t), rq_ratings = of_rat (tr_rating t),
      rq_restaurant_latitude = of_rat (rs_lat r), rq_restaurant_longitude = of_rat (rs_lon r), rq_delivery_latitude = of_rat (deliv_lat s),
      rq_delivery_longitude = of_rat (deliv_lon s), rq_order_date = date, rq_order_time = clock, rq_weather = tr_weather t,
      rq_traffic = tr_traffic t, rq_vehicle_condition = tr_condition t, rq_type_of_order = MEAL, rq_type_of_vehicle = tr_vehicle t,
      rq_festival = tr_festival t, rq_city_type = tr_city_type t\<rparr>"

definition page_payload :: "string \<Rightarrow> restaurant \<Rightarrow> session \<Rightarrow> trip \<Rightarrow> string \<Rightarrow> string \<Rightarrow> json_dict" where
  "page_payload oid r s t date clock =
     [(''id'', JStr oid), (''rider_id'', JStr ''RIDER_DEFAULT''), (''age'', JFloat (of_int (tr_age t))), (''ratings'', JFloat (tr_rating t)),
      (''restaurant_latitude'', JFloat (rs_lat r)), (''restaurant_longitude'', JFloat (rs_lon r)),
      (''delivery_latitude'', JFloat (deliv_lat s)), (''delivery_longitude'', JFloat (deliv_lon s)),
      (''order_date'', JStr date), (''order_time'', JStr clock), (''weather'', JStr (weather_value (tr_weather t))),
      (''traffic'', JStr (traffic_value (tr_traffic t))), (''vehicle_condition'', JInt (tr_condition t)), (''type_of_order'', JStr ''meal''),
      (''type_of_vehicle'', JStr (vehicle_value (tr_vehicle t))), (''festival'', JStr (festival_value (tr_festival t))),
      (''city_type'', JStr (city_value (tr_city_type t)))]"

lemma weather_lower: "str_lower (weather_value w) = weather_value w" by (induct w; code_simp)

lemma traffic_lower: "str_lower (traffic_value t) = traffic_value t" by (induct t; code_simp)

lemma vehicle_lower: "str_lower (vehicle_value v) = vehicle_value v" by (induct v; code_simp)

lemma festival_lower: "str_lower (festival_value f) = festival_value f" by (induct f; code_simp)

lemma meal_lower: "str_lower ''meal'' = ''meal''" by code_simp

lemma enum_found:
  "find (\<lambda>e. weather_value e = weather_value w) [SUNNY, STORMY, SANDSTORMS, WINDY, FOG, CLOUDY] = Some w"
  "find (\<lambda>e. traffic_value e = traffic_value t) [LOW, MEDIUM, HIGH, JAM] = Some t"
  "find (\<lambda>e. vehicle_value e = vehicle_value v) [MOTORCYCLE, SCOOTER, ELECTRIC_SCOOTER, BICYCLE] = Some v"
  "find (\<lambda>e. festival_value e = festival_value f) [YES, NO] = Some f"
  "find (\<lambda>e. city_value e = city_value c) [URBAN, METROPOLITAN, SEMI_URBAN] = Some c"
  "find (\<lambda>e. order_type_value e = ''meal'') [SNACK, MEAL, DRINKS, BUFFET] = Some MEAL"
proof -
  show "find (\<lambda>e. weather_value e = weather_value w) [SUNNY, STORMY, SANDSTORMS, WINDY, FOG, CLOUDY] = Some w" by (cases w) simp_all
  show "find (\<lambda>e. traffic_value e = traffic_value t) [LOW, MEDIUM, HIGH, JAM] = Some t" by (cases t) simp_all
  show "find (\<lambda>e. vehicle_value e = vehicle_value v) [MOTORCYCLE, SCOOTER, ELECTRIC_SCOOTER, BICYCLE] = Some v" by (cases v) simp_all
  show "find (\<lambda>e. festival_value e = festival_value f) [YES, NO] = Some f" by (cases f) simp_all
  show "find (\<lambda>e. city_value e = city_value c) [URBAN, METROPOLITAN, SEMI_URBAN] = Some c" by (cases c) simp_all
  show "find (\<lambda>e. order_type_value e = ''meal'') [SNACK, MEAL, DRINKS, BUFFET] = Some MEAL" by simp
qed

lemma city_of_value: "city_of (JStr (city_value c)) = Inr (JStr (city_value c))"
  by (cases c) (simp_all add: city_map_def)

lemma city_value_truthy: "city_value c \<noteq> []" "py_truthy (JStr (city_value c))"
  by (cases c; simp)+

lemma page_eta_payload:
  assumes "conversions_ok c"
  shows "eta_payload c (order_data oid r s t date clock) = Inr (page_payload oid r s t date clock)"
proof -
  have conv: "py_str c (JStr x) = x" for x using assms by (simp add: conversions_ok_def)
  have low: "py_lower c x = x" if "str_lower x = x" for x using assms that by (simp add: conversions_ok_def)
  note lows = low [OF weather_lower] low [OF traffic_lower] low [OF vehicle_lower] low [OF festival_lower] low [OF meal_lower]
  show ?thesis
    unfolding eta_payload_def Let_def order_data_def
    by (simp add: dict_get_or_def conv lows city_of_value city_value_truthy page_payload_def del: city_of.simps)
qed

definition on_map :: "rat \<times> rat \<Rightarrow> bool" where
  "on_map q \<longleftrightarrow> \<bar>fst q\<bar> \<le> 90 \<and> \<bar>snd q\<bar> \<le> 180"

lemma page_decodes:
  assumes "schema_ok lib" and "trip_ok t" and "on_map (rs_lat r, rs_lon r)" and "on_map (deliv_lat s, deliv_lon s)"
  shows "decode_request lib (page_payload oid r s t date clock) = Some (page_request oid r s t date clock)"
proof -
  have num: "coerce_float lib (JFloat x) = Some x" "coerce_int lib (JInt i) = Some i" for x i
    using assms(1) by (simp_all add: schema_ok_def)
  have range: "- 90 \<le> (of_rat x :: real) \<and> of_rat x \<le> (90 :: real)" if "\<bar>x\<bar> \<le> 90" for x :: rat
    using that of_rat_less_eq [of "- 90" x, where ?'a = real] of_rat_less_eq [of x 90, where ?'a = real] by (simp add: of_rat_minus) linarith
  have wide: "- 180 \<le> (of_rat x :: real) \<and> of_rat x \<le> (180 :: real)" if "\<bar>x\<bar> \<le> 180" for x :: rat
    using that of_rat_less_eq [of "- 180" x, where ?'a = real] of_rat_less_eq [of x 180, where ?'a = real] by (simp add: of_rat_minus) linarith
  have rating: "1 \<le> (of_rat (tr_rating t) :: real)" "of_rat (tr_rating t) \<le> (5 :: real)"
    using assms(2) of_rat_less_eq [of 1 "tr_rating t", where ?'a = real] of_rat_less_eq [of "tr_rating t" 5, where ?'a = real]
    by (simp_all add: trip_ok_def)
  have "valid_prediction_request (page_request oid r s t date clock)"
    using assms(2-4) range [of "rs_lat r"] range [of "deliv_lat s"] wide [of "rs_lon r"] wide [of "deliv_lon s"] rating
    by (simp add: valid_prediction_request_def page_request_def trip_ok_def on_map_def)
  then show ?thesis
    by (simp add: decode_request_def page_payload_def optional_string_def float_field_def enum_field_def dict_get_or_def num enum_found
        page_request_def del: find.simps)
qed


section \<open>Properties\<close>

text \<open>
  C40: The planner settles unless a preset area and a click compete. With a city, restaurant and area of the lists, the script stops
  at the preset area, or at the click, or at the position it had, or at the first neighborhood of a newly chosen city. But
  once the map has been clicked away from the chosen preset area, the preset and the click overwrite each other in every run,
  and the script starts again for ever.\<close>

theorem page_settles:
  assumes "widgets_ok w info p"
    and "start = (if last_city s = chosen_city w then here s else snd (hd (ct_neighborhoods info)))"
  shows "if preset_area w \<noteq> None \<and> (\<exists>c. last_clicked w = Some c \<and> far c p) then run_page w s = None
    else \<exists>s'. run_page w s = Some (Inr (False, s')) \<and> last_city s' = chosen_city w \<and> selected_restaurant s' = chosen_restaurant w \<and>
      here s' = (if preset_area w \<noteq> None then p
        else case last_clicked w of Some c \<Rightarrow> if far c start then c else start | None \<Rightarrow> start)"
proof -
  define s1 where "s1 = (if last_city s = chosen_city w then s else change_city (chosen_city w) info s)"
  have s1: "run_page w s = run_page w s1" "last_city s1 = chosen_city w" "here s1 = start"
    using other_city_first [OF assms(1), of s] assms(2) by (auto simp: s1_def change_city_def here_def)
  show ?thesis
  proof (cases "preset_area w \<noteq> None \<and> (\<exists>c. last_clicked w = Some c \<and> far c p)")
    case True
    with never_settles_in_city [OF assms(1) s1(2)] s1(1) show ?thesis by auto
  next
    case False
    then have "preset_area w = None \<or> (\<forall>c. last_clicked w = Some c \<longrightarrow> \<not> far c p)" by blast
    from settles_in_city [OF assms(1) s1(2) this] False show ?thesis unfolding s1(1,3) by auto
  qed
qed

text \<open>
  The bill of every menu is the sum of the prices ticked, its items are one distinct item of the seeded stock per dish,
  and nothing ticked is an order all the same: one unit of \<^verbatim>\<open>ITEM-1\<close> for 99. The items are shared: the same \<^verbatim>\<open>ITEM-1\<close> is a dish of prawns
  in Mumbai and a biryani in Bengaluru.\<close>

theorem bill_matches_menu:
  assumes "(c, info) \<in> set CITIES_DATA" and "(n, r) \<in> set (ct_restaurants info)"
  shows "\<exists>b. take_order r checked = Inr b \<and> bl_dishes b = filter checked (map fst (rs_menu r)) \<and>
    distinct (bl_item_ids b) \<and> length (bl_item_ids b) = length (bl_dishes b) \<and> set (bl_item_ids b) \<subseteq> set seeded_ids \<and>
    bl_total b = (if bl_dishes b = [] then 99 else sum_list (map snd (filter (\<lambda>(dish, price). checked dish) (rs_menu r)))) \<and>
    ss_items (saga_request oid b data) = Some (if bl_dishes b = [] then [''ITEM-1''] else bl_item_ids b) \<and>
    map_of (rs_item_ids (snd (hd (ct_restaurants mumbai)))) ''Butter Garlic Jumbo Prawns'' =
    map_of (rs_item_ids (snd (hd (ct_restaurants bengaluru)))) ''Special Chicken Biryani''"
proof -
  have ok: "restaurant_ok r" by (rule menu_ok(1) [OF assms])
  from take_order_ok [OF ok, of checked] obtain b where b: "take_order r checked = Inr b"
    "bl_dishes b = filter checked (map fst (rs_menu r))"
    "bl_total b = (if filter checked (map fst (rs_menu r)) = [] then 99 else sum_list (map snd (filter (\<lambda>(d, p). checked d) (rs_menu r))))"
    by simp
  note ids = bill_ids [OF ok b(1)]
  have "set (bl_item_ids b) \<subseteq> set seeded_ids" using ids(2) menu_ok(2) [OF assms] by fastforce
  moreover have "bl_item_ids b = [] \<longleftrightarrow> bl_dishes b = []" using ids(3) by (metis length_0_conv)
  ultimately show ?thesis using b ids by (simp add: saga_request_def mumbai_def bengaluru_def)
qed

text \<open>
  C38: What is chosen on the page is what is predicted. For a trip within the sliders' ranges and positions within the ranges of
  latitude and longitude, over a delivered exchange, the ETA service decodes the orchestrator's request to exactly the widgets'
  values and the adapter hands back its prediction for them.\<close>

theorem page_order_predicted:
  assumes "pandas_ok pd" and "schema_ok lib" and "conversions_ok c" and "next_transport pf = Delivered"
    and "trip_ok t" and "on_map (rs_lat r, rs_lon r)" and "on_map (deliv_lat s, deliv_lon s)"
  shows "\<exists>a pf'. http_predict c (serve_predict lib pd run_pipeline margin elapsed cid st) (order_data oid r s t date clock) pf =
      (Inr (Some (encode_prediction a)), pf') \<and>
    predict pd run_pipeline margin elapsed cid st (page_request oid r s t date clock) = Inr a"
proof -
  let ?req = "page_request oid r s t date clock"
  obtain a where a: "predict pd run_pipeline margin elapsed cid st ?req = Inr a"
    by (rule predict_eq [OF assms(1), of ?req run_pipeline margin elapsed cid st]) (simp add: Let_def split: prod.splits)
  have "serve_predict lib pd run_pipeline margin elapsed cid st (page_payload oid r s t date clock) =
      \<lparr>status_code = 200, body_json = encode_prediction a\<rparr>"
    by (simp add: serve_predict_def page_decodes [OF assms(2,5,6,7)] a)
  with a assms(4) show ?thesis by (simp add: http_predict_def page_eta_payload [OF assms(3)] http_call_def)
qed

text \<open>
  The page and the model measure distance by the same formula at different places: the distance the page shows of two positions
  is the model's distance, rounded to two decimals, of the positions with the second longitude in the place of the first
  latitude, the first latitude in the place of the second longitude.\<close>

theorem page_distance_unswapped:
  assumes "\<bar>lat1\<bar> \<le> 90" and "\<bar>lat2\<bar> \<le> 90"
  shows "haversine_km lat1 lon1 lat2 lon2 = py_round 2 (haversine (of_rat lon2) (of_rat lon1) (of_rat lat2) (of_rat lat1))"
proof -
  have rad: "radians (of_rat (x - y)) = radians (of_rat x) - radians (of_rat y)" for x y :: rat
    by (simp add: radians_def of_rat_diff left_diff_distrib diff_divide_distrib)
  have cos: "0 \<le> cos (radians (of_rat x))" if "\<bar>x\<bar> \<le> 90" for x :: rat
  proof (rule radians_cos)
    have "\<bar>of_rat x\<bar> = (of_rat \<bar>x\<bar> :: real)" by simp
    also have "\<dots> \<le> of_rat 90" using that by (simp only: of_rat_less_eq)
    finally show "\<bar>of_rat x\<bar> \<le> (90 :: real)" by simp
  qed
  note bounds = haversine_term_bounds [OF cos [OF assms(1)] cos [OF assms(2)]]
  show ?thesis
    by (simp add: haversine_km_def haversine_def Let_def rad atan2_arcsin [OF bounds])
qed

section \<open>Witnesses\<close>

definition demo_planner :: "string option \<Rightarrow> (rat \<times> rat) option \<Rightarrow> planner" where
  "demo_planner preset click = \<lparr>chosen_city = ''Mumbai'', chosen_restaurant = ''Bademiya (Colaba)'', preset_area = preset, last_clicked = click\<rparr>"

lemma demo_planner_ok: "widgets_ok (demo_planner (Some ''Colaba Causeway'') click) mumbai (189150 / 10000, 728258 / 10000)"
  by (simp add: widgets_ok_def demo_planner_def lookup_def CITIES_DATA_def mumbai_def)

theorem page_settles_witness:
  "(\<exists>s'. run_page (demo_planner (Some ''Colaba Causeway'') None) new_session = Some (Inr (False, s')) \<and>
      here s' = (189150 / 10000, 728258 / 10000)) \<and>
   run_page (demo_planner (Some ''Colaba Causeway'') (Some (19, 73))) new_session = None"
proof -
  have "far (19, 73) (189150 / 10000, 728258 / 10000)" by (simp add: far_def)
  then show ?thesis
    using page_settles [OF demo_planner_ok refl, of None new_session] page_settles [OF demo_planner_ok refl, of "Some (19, 73)" new_session]
    by (auto simp: demo_planner_def)
qed

definition bademiya :: restaurant where
  "bademiya = the (map_of (ct_restaurants mumbai) ''Bademiya (Colaba)'')"

lemma bademiya_listed: "(''Mumbai'', mumbai) \<in> set CITIES_DATA" "(''Bademiya (Colaba)'', bademiya) \<in> set (ct_restaurants mumbai)"
  by (simp_all add: CITIES_DATA_def bademiya_def mumbai_def)

theorem bill_matches_menu_witness:
  "\<exists>b. take_order bademiya (\<lambda>d. False) = Inr b \<and> bl_total b = 99 \<and> ss_items (saga_request ''O'' b []) = Some [''ITEM-1'']"
  using bill_matches_menu [OF bademiya_listed, of "\<lambda>d. False" "''O''" "[]"] by auto

theorem page_order_predicted_witness:
  "\<exists>a pf'. http_predict plain_conversions (serve_predict plain_schema plain_pandas (\<lambda>_ _. Inr 20) 4 0 None (initial_model_state :: unit model_state))
     (order_data ''O1'' bademiya new_session
       \<lparr>tr_weather = FOG, tr_traffic = JAM, tr_age = 28, tr_rating = 47 / 10, tr_vehicle = SCOOTER, tr_condition = 2, tr_festival = YES, tr_city_type = SEMI_URBAN\<rparr>
       ''01-03-2026'' ''19:30:00'') (small_platform [] 1) = (Inr (Some (encode_prediction a)), pf')"
proof -
  have "schema_ok plain_schema" "conversions_ok plain_conversions" "next_transport (small_platform [] 1) = Delivered"
    "on_map (rs_lat bademiya, rs_lon bademiya)" "on_map (deliv_lat new_session, deliv_lon new_session)"
    by (simp_all add: schema_ok_def plain_schema_def conversions_ok_def plain_conversions_def next_transport_def small_platform_def
        on_map_def bademiya_def mumbai_def new_session_def)
  moreover have "trip_ok \<lparr>tr_weather = FOG, tr_traffic = JAM, tr_age = 28, tr_rating = 47 / 10, tr_vehicle = SCOOTER, tr_condition = 2,
      tr_festival = YES, tr_city_type = SEMI_URBAN\<rparr>" (is "trip_ok ?t") by (simp add: trip_ok_def)
  ultimately show ?thesis
    using page_order_predicted [OF plain_pandas_ok, of plain_schema plain_conversions "small_platform [] 1" ?t bademiya new_session
      "\<lambda>_ _. Inr 20" 4 0 None "initial_model_state :: unit model_state" "''O1''" "''01-03-2026''" "''19:30:00''"] by blast
qed

theorem page_distance_unswapped_witness:
  "haversine_km 0 90 0 0 = py_round 2 (haversine 0 90 0 0)"
  using page_distance_unswapped [of 0 0 90 0] by simp

end
