(* ===== verification/Deployment.thy ===== *)
theory Deployment
  imports Idempotency
begin

text \<open>
  Keyed endpoints as they are deployed. FastAPI runs the handlers in a pool of threads that share one idempotency store
  (\<^verbatim>\<open>core/idempotency.py\<close>) and one database: between the lookup of a request in the store, its database session and the
  store of its answer, other requests run; and the store is a dictionary of the process, so a restart empties it, keeps the
  database and loses the requests in flight. The record \<open>endpoint\<close> is what a service provides, the locale
  \<open>keyed_endpoint\<close> the contract under which every interleaving with restarts refines the service that handles one request
  at a time.
\<close>

section \<open>An endpoint and its calls\<close>

record ('s, 'q, 'r, 'o) endpoint =
  ep_check :: "'q \<Rightarrow> py_exn option"             \<comment> \<open>the validation of the request, before the handler\<close>
  ep_key :: "'q \<Rightarrow> string"
  ep_store :: "'s \<Rightarrow> 'r idem_store"
  ep_body :: "'q \<Rightarrow> 's \<Rightarrow> 'r outcome \<times> 's"    \<comment> \<open>the session and the answer built after it\<close>
  ep_save :: "'q \<Rightarrow> 'r \<Rightarrow> 's \<Rightarrow> 's"           \<comment> \<open>\<^verbatim>\<open>idem_store.set\<close>\<close>
  ep_op :: "'o \<Rightarrow> 's \<Rightarrow> 's"                  \<comment> \<open>the other endpoints and workers\<close>
  ep_boot :: "'s \<Rightarrow> 's"                      \<comment> \<open>the process starts again on the same database\<close>

datatype 'r stage =
    Arrived
  | Missed                    \<comment> \<open>not found in the store\<close>
  | Committed 'r              \<comment> \<open>committed, the answer not yet stored\<close>
  | Replied "'r outcome"
  | Lost                      \<comment> \<open>in flight when the process went down\<close>

text \<open>What took effect, in order: committed requests with their answers, other operations, restarts.\<close>

datatype ('q, 'r, 'o) effect = Did 'q 'r | Other 'o | Rebooted

record ('s, 'q, 'r, 'o) deployment =
  d_service :: 's
  d_calls :: "('q \<times> 'r stage) list"
  d_log :: "('q, 'r, 'o) effect list"

definition deploy :: "'s \<Rightarrow> 'q list \<Rightarrow> ('s, 'q, 'r, 'o) deployment" where
  "deploy s qs = \<lparr>d_service = s, d_calls = map (\<lambda>q. (q, Arrived)) qs, d_log = []\<rparr>"

text \<open>One atomic action of call \<open>i\<close>: from where it stands to where it stands next, with the effect it had.\<close>

definition call_step ::
  "('s, 'q, 'r, 'o) endpoint \<Rightarrow> 'q \<Rightarrow> 'r stage \<Rightarrow> 's \<Rightarrow> 'r stage \<times> 's \<times> ('q, 'r, 'o) effect list" where
  "call_step ep q st s =
     (case st of
        Arrived \<Rightarrow>
          (case ep_check ep q of
             Some e \<Rightarrow> (Replied (Inl e), s, [])
           | None \<Rightarrow>
               (case idem_get (ep_store ep s) (ep_key ep q) of
                  Some e \<Rightarrow> (Replied (Inr (ie_response e)), s, [])
                | None \<Rightarrow> (Missed, s, [])))
      | Missed \<Rightarrow>
          (case ep_body ep q s of
             (Inl e, s') \<Rightarrow> (Replied (Inl e), s', [])
           | (Inr r, s') \<Rightarrow> (Committed r, s', [Did q r]))
      | Committed r \<Rightarrow> (Replied (Inr r), ep_save ep q r s, [])
      | Replied x \<Rightarrow> (Replied x, s, [])
      | Lost \<Rightarrow> (Lost, s, []))"

fun interrupt :: "'r stage \<Rightarrow> 'r stage" where
  "interrupt Missed = Lost"
| "interrupt (Committed r) = Lost"
| "interrupt st = st"

datatype 'o event = Advance nat | Interleave 'o | Restart

fun happen :: "('s, 'q, 'r, 'o) endpoint \<Rightarrow> 'o event \<Rightarrow> ('s, 'q, 'r, 'o) deployment \<Rightarrow> ('s, 'q, 'r, 'o) deployment" where
  "happen ep (Advance i) d =
     (if i < length (d_calls d) then
        (case d_calls d ! i of (q, st) \<Rightarrow>
          (case call_step ep q st (d_service d) of (st', s', l) \<Rightarrow>
            \<lparr>d_service = s', d_calls = (d_calls d)[i := (q, st')], d_log = d_log d @ l\<rparr>))
      else d)"
| "happen ep (Interleave x) d = d\<lparr>d_service := ep_op ep x (d_service d), d_log := d_log d @ [Other x]\<rparr>"
| "happen ep Restart d =
     \<lparr>d_service = ep_boot ep (d_service d), d_calls = map (\<lambda>(q, st). (q, interrupt st)) (d_calls d),
      d_log = d_log d @ [Rebooted]\<rparr>"

definition happenings ::
  "('s, 'q, 'r, 'o) endpoint \<Rightarrow> 'o event list \<Rightarrow> ('s, 'q, 'r, 'o) deployment \<Rightarrow> ('s, 'q, 'r, 'o) deployment" where
  "happenings ep es d = fold (happen ep) es d"

lemma happenings_simps [simp]:
  "happenings ep [] d = d" "happenings ep (e # es) d = happenings ep es (happen ep e d)"
  "happenings ep (es @ es') d = happenings ep es' (happenings ep es d)"
  by (simp_all add: happenings_def)

section \<open>One request at a time\<close>

definition serve_keyed :: "('s, 'q, 'r, 'o) endpoint \<Rightarrow> 'q \<Rightarrow> 's \<Rightarrow> 'r outcome \<times> 's" where
  "serve_keyed ep q s =
     (case ep_check ep q of
        Some e \<Rightarrow> (Inl e, s)
      | None \<Rightarrow>
          (case idem_get (ep_store ep s) (ep_key ep q) of
             Some e \<Rightarrow> (Inr (ie_response e), s)
           | None \<Rightarrow>
               (case ep_body ep q s of
                  (Inl e, s') \<Rightarrow> (Inl e, s')
                | (Inr r, s') \<Rightarrow> (Inr r, ep_save ep q r s'))))"

text \<open>The sequential service does what the log says, with the answers the log says.\<close>

fun replays :: "('s, 'q, 'r, 'o) endpoint \<Rightarrow> ('q, 'r, 'o) effect list \<Rightarrow> 's \<Rightarrow> 's option" where
  "replays ep [] s = Some s"
| "replays ep (Did q r # l) s =
     (case serve_keyed ep q s of (x, s') \<Rightarrow> if x = Inr r then replays ep l s' else None)"
| "replays ep (Other x # l) s = replays ep l (ep_op ep x s)"
| "replays ep (Rebooted # l) s = replays ep l (ep_boot ep s)"

lemma replays_append: "replays ep (l @ l') s = (case replays ep l s of None \<Rightarrow> None | Some s' \<Rightarrow> replays ep l' s')"
  by (induction ep l s rule: replays.induct) (auto split: prod.splits)

fun committed_keys :: "('q \<Rightarrow> string) \<Rightarrow> ('r \<Rightarrow> string) \<Rightarrow> ('q, 'r, 'o) effect list \<Rightarrow> (string \<times> string) list" where
  "committed_keys key tag [] = []"
| "committed_keys key tag (Did q r # l) = (key q, tag r) # committed_keys key tag l"
| "committed_keys key tag (_ # l) = committed_keys key tag l"

lemma committed_keys_append [simp]: "committed_keys key tag (l @ l') = committed_keys key tag l @ committed_keys key tag l'"
  by (induction key tag l rule: committed_keys.induct) simp_all

lemma committed_keys_Did: "Did q r \<in> set l \<Longrightarrow> (key q, tag r) \<in> set (committed_keys key tag l)"
  by (induction key tag l rule: committed_keys.induct) auto

lemma committed_keys_same:
  assumes "distinct (map fst (committed_keys key tag l))" and "Did q r \<in> set l" and "Did q' r' \<in> set l" and "key q = key q'"
  shows "r = r'"
  using assms
proof (induction key tag l rule: committed_keys.induct)
  case (2 key tag q0 r0 l)
  then show ?case using committed_keys_Did [of q r l key tag] committed_keys_Did [of q' r' l key tag] by (force simp: image_iff)
qed simp_all

section \<open>The contract\<close>

text \<open>
  \<open>tables\<close> is the part of the state that the store and the restart do not touch, \<open>entries\<close> the keys of the database with the
  ids their answers name (\<open>tag\<close>), \<open>ok\<close> its constraints. A session that commits adds the entry of its request; one that
  fails changes nothing; nothing depends on the store but the lookup.
\<close>

locale keyed_endpoint =
  fixes ep :: "('s, 'q, 'r, 'o) endpoint" and tables :: "'s \<Rightarrow> 't" and entries :: "'t \<Rightarrow> (string \<times> string) list"
    and ok :: "'t \<Rightarrow> bool" and tag :: "'r \<Rightarrow> string"
  assumes unique: "ok t \<Longrightarrow> distinct (map fst (entries t))"
    and body_new: "ep_body ep q s = (Inr r, s') \<Longrightarrow> entries (tables s') = entries (tables s) @ [(ep_key ep q, tag r)] \<and> ok (tables s')"
    and body_fail: "ep_body ep q s = (Inl e, s') \<Longrightarrow> s' = s"
    and body_store: "ep_store ep (snd (ep_body ep q s)) = ep_store ep s"
    and body_tables: "tables s = tables u \<Longrightarrow> fst (ep_body ep q s) = fst (ep_body ep q u) \<and>
      tables (snd (ep_body ep q s)) = tables (snd (ep_body ep q u))"
    and save_store: "\<exists>c t. ep_store ep (ep_save ep q r s) = idem_set (ep_store ep s) (ep_key ep q) r c t"
    and save_tables: "tables (ep_save ep q r s) = tables s"
    and op_store: "ep_store ep (ep_op ep x s) = ep_store ep s"
    and op_tables: "tables s = tables u \<Longrightarrow> tables (ep_op ep x s) = tables (ep_op ep x u)"
    and op_entries: "entries (tables (ep_op ep x s)) = entries (tables s)"
    and op_ok: "ok (tables s) \<Longrightarrow> ok (tables (ep_op ep x s))"
    and boot_store: "ep_store ep (ep_boot ep s) = idem_init"
    and boot_tables: "tables s = tables u \<Longrightarrow> tables (ep_boot ep s) = tables (ep_boot ep u)"
    and boot_entries: "entries (tables (ep_boot ep s)) = entries (tables s)"
    and boot_ok: "ok (tables s) \<Longrightarrow> ok (tables (ep_boot ep s))"
begin

text \<open>The state against its log, where the process was started with an empty store on the tables of \<open>s0\<close>.\<close>

definition call_linked :: "('q, 'r, 'o) effect list \<Rightarrow> 'q \<times> 'r stage \<Rightarrow> bool" where
  "call_linked l c \<longleftrightarrow>
     (case snd c of
        Missed \<Rightarrow> ep_check ep (fst c) = None
      | Committed r \<Rightarrow> Did (fst c) r \<in> set l
      | Replied (Inr r) \<Rightarrow> (\<exists>q. ep_key ep q = ep_key ep (fst c) \<and> Did q r \<in> set l)
      | Replied (Inl e) \<Rightarrow> ep_check ep (fst c) = Some e \<or> (\<exists>s. ok (tables s) \<and> fst (ep_body ep (fst c) s) = Inl e)
      | _ \<Rightarrow> True)"

definition linked :: "'s \<Rightarrow> ('s, 'q, 'r, 'o) deployment \<Rightarrow> bool" where
  "linked s0 d \<longleftrightarrow>
     ok (tables (d_service d)) \<and>
     entries (tables (d_service d)) = entries (tables s0) @ committed_keys (ep_key ep) tag (d_log d) \<and>
     (\<exists>u. replays ep (d_log d) s0 = Some u \<and> tables u = tables (d_service d) \<and>
        dom (ep_store ep u) \<subseteq> fst ` set (entries (tables u))) \<and>
     (\<forall>k e. idem_get (ep_store ep (d_service d)) k = Some e \<longrightarrow>
        (\<exists>q. ep_key ep q = k \<and> Did q (ie_response e) \<in> set (d_log d))) \<and>
     list_all (call_linked (d_log d)) (d_calls d)"

lemma call_linked_mono: "call_linked l c \<Longrightarrow> set l \<subseteq> set l' \<Longrightarrow> call_linked l' c"
  by (auto simp: call_linked_def split: stage.splits sum.splits)

lemma call_linked_interrupt: "call_linked l (q, st) \<Longrightarrow> call_linked l (q, interrupt st)"
  by (cases st) (simp_all add: call_linked_def)

lemma calls_linked_update:
  assumes "list_all (call_linked l) cs" and "call_linked (l @ l') c"
  shows "list_all (call_linked (l @ l')) (cs[i := c])"
proof -
  have "set (cs[i := c]) \<subseteq> insert c (set cs)" by (rule set_update_subset_insert)
  with assms call_linked_mono [of l _ "l @ l'"] show ?thesis by (fastforce simp: list_all_iff)
qed

lemma body_duplicate:
  assumes "ok (tables s)" and "ep_key ep q \<in> fst ` set (entries (tables s))"
  obtains e where "ep_body ep q s = (Inl e, s)"
proof (cases "ep_body ep q s")
  case (Pair x s')
  show thesis
  proof (cases x)
    case (Inl e)
    with Pair body_fail [of q s e s'] that show thesis by simp
  next
    case (Inr r)
    from body_new [OF Pair [unfolded Inr]] have "distinct (map fst (entries (tables s) @ [(ep_key ep q, tag r)]))"
      using unique by metis
    with assms(2) show thesis by simp
  qed
qed

text \<open>The simulation: the commit of a call is the moment at which the sequential service handles its request.\<close>

lemma replays_commit:
  assumes u: "replays ep l s0 = Some u" "tables u = tables s" "dom (ep_store ep u) \<subseteq> fst ` set (entries (tables u))"
    and "ep_check ep q = None" and body: "ep_body ep q s = (Inr r, s')"
  shows "\<exists>u'. replays ep (l @ [Did q r]) s0 = Some u' \<and> tables u' = tables s' \<and>
    dom (ep_store ep u') \<subseteq> fst ` set (entries (tables u'))"
proof -
  from body_new [OF body] have new: "entries (tables s') = entries (tables s) @ [(ep_key ep q, tag r)]" and "ok (tables s')" by simp_all
  then have "ep_key ep q \<notin> fst ` set (entries (tables u))" using unique [of "tables s'"] u(2) by (simp add: image_iff)
  with u(3) have miss: "idem_get (ep_store ep u) (ep_key ep q) = None" by (auto simp: idem_get_def)
  obtain u' where u': "ep_body ep q u = (Inr r, u')" "tables u' = tables s'" "ep_store ep u' = ep_store ep u"
    using body_tables [OF u(2), of q] body body_store [of q u] by (metis fst_conv snd_conv surj_pair)
  obtain c t where "ep_store ep (ep_save ep q r u') = idem_set (ep_store ep u') (ep_key ep q) r c t" using save_store by blast
  with u u' miss new save_tables [of q r u'] assms(4) show ?thesis by (auto simp: replays_append serve_keyed_def)
qed

lemma linked_deploy:
  assumes "ok (tables s0)" and "ep_store ep s0 = idem_init"
  shows "linked s0 (deploy s0 qs)"
  using assms by (auto simp: linked_def deploy_def list_all_iff call_linked_def idem_init_def idem_get_def)

lemma linked_call:
  assumes "linked s0 d" and "i < length (d_calls d)" and "d_calls d ! i = (q, st)"
    and "call_step ep q st (d_service d) = (st', s', l)"
  shows "linked s0 \<lparr>d_service = s', d_calls = (d_calls d)[i := (q, st')], d_log = d_log d @ l\<rparr>"
proof -
  let ?s = "d_service d"
  have all: "list_all (call_linked (d_log d)) (d_calls d)" and store: "\<And>k e. idem_get (ep_store ep ?s) k = Some e \<Longrightarrow>
      \<exists>q. ep_key ep q = k \<and> Did q (ie_response e) \<in> set (d_log d)"
    and here: "ok (tables ?s)" "entries (tables ?s) = entries (tables s0) @ committed_keys (ep_key ep) tag (d_log d)"
    using assms(1) by (auto simp: linked_def)
  have call: "call_linked (d_log d) (q, st)" using all assms(2,3) by (metis list_all_length)
  have quiet: "linked s0 \<lparr>d_service = ?s, d_calls = (d_calls d)[i := (q, st2)], d_log = d_log d\<rparr>"
    if "call_linked (d_log d) (q, st2)" for st2
    using assms(1) calls_linked_update [OF all, of "[]" "(q, st2)" i] that by (simp add: linked_def)
  show ?thesis
  proof (cases st)
    case Arrived
    with assms(4) store have "call_linked (d_log d) (q, st')" and "s' = ?s" "l = []"
      by (auto simp: call_step_def call_linked_def split: option.splits)
    with quiet show ?thesis by simp
  next
    case Missed
    obtain x s1 where body: "ep_body ep q ?s = (x, s1)" by fastforce
    show ?thesis
    proof (cases x)
      case (Inl e)
      with body have "fst (ep_body ep q ?s) = Inl e" by simp
      with here(1) have "call_linked (d_log d) (q, Replied (Inl e))" by (auto simp: call_linked_def)
      with quiet show ?thesis using assms(4) Missed body Inl body_fail [of q ?s e s1] by (simp add: call_step_def)
    next
      case (Inr r)
      from call Missed have check: "ep_check ep q = None" by (simp add: call_linked_def)
      have new: "entries (tables s1) = entries (tables ?s) @ [(ep_key ep q, tag r)]" "ok (tables s1)"
        using body_new [OF body [unfolded Inr]] by simp_all
      have "ep_store ep s1 = ep_store ep ?s" using body_store [of q ?s] body by simp
      moreover have "\<exists>u. replays ep (d_log d @ [Did q r]) s0 = Some u \<and> tables u = tables s1 \<and>
          dom (ep_store ep u) \<subseteq> fst ` set (entries (tables u))"
        using assms(1) replays_commit [OF _ _ _ check body [unfolded Inr], of "d_log d" s0] by (auto simp: linked_def)
      moreover have "list_all (call_linked (d_log d @ [Did q r])) ((d_calls d)[i := (q, Committed r)])"
        by (rule calls_linked_update [OF all]) (simp add: call_linked_def)
      moreover have "st' = Committed r" "s' = s1" "l = [Did q r]" using assms(4) Missed body Inr by (simp_all add: call_step_def)
      ultimately show ?thesis using new here(2) store by (auto simp: linked_def)
    qed
  next
    case (Committed r)
    with assms(4) have s': "s' = ep_save ep q r ?s" "st' = Replied (Inr r)" "l = []" by (simp_all add: call_step_def)
    from call Committed have did: "Did q r \<in> set (d_log d)" by (simp add: call_linked_def)
    then have "call_linked (d_log d) (q, st')" by (auto simp: s' call_linked_def)
    from quiet [OF this] have q: "linked s0 \<lparr>d_service = ?s, d_calls = (d_calls d)[i := (q, st')], d_log = d_log d\<rparr>" .
    obtain c t where "ep_store ep s' = idem_set (ep_store ep ?s) (ep_key ep q) r c t" using save_store s'(1) by blast
    with q did s'(1,3) save_tables [of q r ?s] show ?thesis by (auto simp: linked_def)
  next
    case (Replied x)
    with assms(4) quiet call show ?thesis by (simp add: call_step_def)
  next
    case Lost
    with assms(4) quiet call show ?thesis by (simp add: call_step_def)
  qed
qed

lemma linked_happen:
  assumes "linked s0 d"
  shows "linked s0 (happen ep ev d)"
proof (cases ev)
  case (Advance i)
  with assms linked_call [OF assms, of i] show ?thesis by (auto split: prod.splits)
next
  case (Interleave x)
  have calls: "list_all (call_linked (d_log d @ [Other x])) (d_calls d)"
    using assms call_linked_mono [of "d_log d" _ "d_log d @ [Other x]"] by (fastforce simp: linked_def list_all_iff)
  obtain u where u: "replays ep (d_log d) s0 = Some u" "tables u = tables (d_service d)"
    "dom (ep_store ep u) \<subseteq> fst ` set (entries (tables u))"
    using assms by (auto simp: linked_def)
  with Interleave assms calls op_tables [OF u(2), of x] show ?thesis
    by (auto simp: linked_def replays_append op_store op_entries op_ok)
next
  case Restart
  have calls: "list_all (call_linked (d_log d @ [Rebooted])) (map (\<lambda>(q, st). (q, interrupt st)) (d_calls d))"
    using assms by (auto simp: linked_def list_all_iff intro!: call_linked_interrupt [THEN call_linked_mono])
  obtain u where u: "replays ep (d_log d) s0 = Some u" "tables u = tables (d_service d)"
    "dom (ep_store ep u) \<subseteq> fst ` set (entries (tables u))"
    using assms by (auto simp: linked_def)
  with Restart assms calls boot_tables [OF u(2)] show ?thesis
    by (auto simp: linked_def replays_append boot_store boot_entries boot_ok idem_init_def idem_get_def)
qed

lemma linked_happenings: "linked s0 d \<Longrightarrow> linked s0 (happenings ep es d)"
  by (induction es arbitrary: d) (auto intro: linked_happen)

text \<open>From an empty store: the run refines the sequential service, and equal keys are answered equally.\<close>

lemma refines:
  assumes "ok (tables s0)" and "ep_store ep s0 = idem_init" and "d = happenings ep es (deploy s0 qs)"
  shows "\<exists>u. replays ep (d_log d) s0 = Some u \<and> tables u = tables (d_service d)"
    and "entries (tables (d_service d)) = entries (tables s0) @ committed_keys (ep_key ep) tag (d_log d)"
    and "ok (tables (d_service d))"
  using linked_happenings [OF linked_deploy [OF assms(1,2)], of es qs] unfolding assms(3) [symmetric]
  by (auto simp: linked_def)

lemma reply_committed:
  assumes "ok (tables s0)" and "ep_store ep s0 = idem_init" and "d = happenings ep es (deploy s0 qs)"
    and "(q, Replied (Inr r)) \<in> set (d_calls d)"
  obtains q' where "ep_key ep q' = ep_key ep q" and "Did q' r \<in> set (d_log d)"
  using linked_happenings [OF linked_deploy [OF assms(1,2)], of es qs] assms(4) unfolding assms(3) [symmetric]
  by (force simp: linked_def list_all_iff call_linked_def)

lemma refusal_cause:
  assumes "ok (tables s0)" and "ep_store ep s0 = idem_init" and "d = happenings ep es (deploy s0 qs)"
    and "(q, Replied (Inl e)) \<in> set (d_calls d)"
  shows "ep_check ep q = Some e \<or> (\<exists>s. ok (tables s) \<and> fst (ep_body ep q s) = Inl e)"
  using linked_happenings [OF linked_deploy [OF assms(1,2)], of es qs] assms(4) unfolding assms(3) [symmetric]
  by (force simp: linked_def list_all_iff call_linked_def)

lemma replies_agree:
  assumes "ok (tables s0)" and "ep_store ep s0 = idem_init" and "d = happenings ep es (deploy s0 qs)"
    and "(q, Replied (Inr r)) \<in> set (d_calls d)" and "(q', Replied (Inr r')) \<in> set (d_calls d)"
    and "ep_key ep q = ep_key ep q'"
  shows "r = r'"
proof -
  note refs = refines [OF assms(1-3)]
  have "distinct (map fst (committed_keys (ep_key ep) tag (d_log d)))" using unique [OF refs(3)] unfolding refs(2) by simp
  moreover obtain q1 where "ep_key ep q1 = ep_key ep q" "Did q1 r \<in> set (d_log d)" by (rule reply_committed [OF assms(1-4)])
  moreover obtain q2 where "ep_key ep q2 = ep_key ep q'" "Did q2 r' \<in> set (d_log d)" by (rule reply_committed [OF assms(1-3,5)])
  ultimately show ?thesis using committed_keys_same [where key = "ep_key ep" and q = q1 and q' = q2] assms(6) by metis
qed

text \<open>Every reply names the entry of its key.\<close>

lemma reply_entry:
  assumes "ok (tables s0)" and "ep_store ep s0 = idem_init" and "d = happenings ep es (deploy s0 qs)"
    and "(q, Replied (Inr r)) \<in> set (d_calls d)"
  shows "(ep_key ep q, tag r) \<in> set (entries (tables (d_service d)))"
proof -
  obtain q' where "ep_key ep q' = ep_key ep q" "Did q' r \<in> set (d_log d)" by (rule reply_committed [OF assms])
  with committed_keys_Did [of q' r "d_log d" "ep_key ep" tag] show ?thesis unfolding refines(2) [OF assms(1-3)] by simp
qed

text \<open>What sessions, operations and restarts keep of the tables holds in every state.\<close>

lemma tables_inv:
  assumes "P (tables (d_service d))"
    and body: "\<And>q s r s'. P (tables s) \<Longrightarrow> ep_body ep q s = (Inr r, s') \<Longrightarrow> P (tables s')"
    and ops: "\<And>x s. P (tables s) \<Longrightarrow> P (tables (ep_op ep x s))" and boot: "\<And>s. P (tables s) \<Longrightarrow> P (tables (ep_boot ep s))"
  shows "P (tables (d_service (happenings ep es d)))"
  using assms(1)
proof (induction es arbitrary: d)
  case (Cons ev es)
  have call: "P (tables (fst (snd (call_step ep q st (d_service d)))))" for q st
    using Cons.prems body [of "d_service d" q] body_fail [of q "d_service d"] save_tables
    by (auto simp: call_step_def split: stage.splits option.splits prod.splits sum.splits)
  have "P (tables (d_service (happen ep ev d)))"
  proof (cases ev)
    case (Advance i)
    with Cons.prems call [of "fst (d_calls d ! i)" "snd (d_calls d ! i)"] show ?thesis by (auto split: prod.splits)
  qed (simp_all add: Cons.prems ops boot)
  from Cons.IH [OF this] show ?case by simp
qed simp

lemma calls_kept:
  "length (d_calls (happen ep ev d)) = length (d_calls d) \<and>
   (i < length (d_calls d) \<longrightarrow> fst (d_calls (happen ep ev d) ! i) = fst (d_calls d ! i))"
  by (cases ev; cases "i = (case ev of Advance j \<Rightarrow> j | _ \<Rightarrow> 0)") (auto split: prod.splits)

lemma all_calls_kept:
  "length (d_calls (happenings ep es d)) = length (d_calls d) \<and>
   (i < length (d_calls d) \<longrightarrow> fst (d_calls (happenings ep es d) ! i) = fst (d_calls d ! i))"
  by (induction es arbitrary: d) (auto simp: calls_kept)

section \<open>Keys the store has forgotten\<close>

text \<open>
  A key in the table that the store does not know and no call is about to store: from then on no request with that key is
  answered, and the entry stays as it is.
\<close>

definition not_storing :: "string \<Rightarrow> 'q \<times> 'r stage \<Rightarrow> bool" where
  "not_storing k c \<longleftrightarrow> (ep_key ep (fst c) = k \<longrightarrow> (\<forall>r. snd c \<noteq> Committed r))"

definition forgotten :: "string \<Rightarrow> ('s, 'q, 'r, 'o) deployment \<Rightarrow> bool" where
  "forgotten k d \<longleftrightarrow>
     ok (tables (d_service d)) \<and> k \<in> fst ` set (entries (tables (d_service d))) \<and> idem_get (ep_store ep (d_service d)) k = None \<and>
     list_all (not_storing k) (d_calls d)"

lemma not_storing_update:
  "list_all (not_storing k) cs \<Longrightarrow> not_storing k c \<Longrightarrow> list_all (not_storing k) (cs[i := c])"
  using set_update_subset_insert [of cs i c] by (auto simp: list_all_iff)

lemma forgotten_call:
  assumes "forgotten k d" and "i < length (d_calls d)" and "d_calls d ! i = (q, st)"
    and step: "call_step ep q st (d_service d) = (st', s', l)"
  shows "forgotten k \<lparr>d_service = s', d_calls = (d_calls d)[i := (q, st')], d_log = d_log d @ l\<rparr> \<and>
    (ep_key ep q = k \<longrightarrow> st' = Replied (Inr r) \<longrightarrow> st = Replied (Inr r))"
proof -
  let ?s = "d_service d"
  have here: "ok (tables ?s)" "k \<in> fst ` set (entries (tables ?s))" "idem_get (ep_store ep ?s) k = None" "list_all (not_storing k) (d_calls d)"
    using assms(1) by (simp_all add: forgotten_def)
  from here(4) assms(2,3) have st: "not_storing k (q, st)" by (metis list_all_length)
  have calls: "forgotten k \<lparr>d_service = s', d_calls = (d_calls d)[i := (q, st')], d_log = d_log d @ l\<rparr>"
    if "not_storing k (q, st')" "ok (tables s')" "set (entries (tables ?s)) \<subseteq> set (entries (tables s'))" "idem_get (ep_store ep s') k = None"
    using that here(2) not_storing_update [OF here(4) that(1), of i] by (auto simp: forgotten_def)
  show ?thesis
  proof (cases st)
    case Arrived
    with step have "s' = ?s" "\<And>r. st' \<noteq> Committed r" "ep_key ep q = k \<Longrightarrow> st' \<noteq> Replied (Inr r)"
      using here(3) by (auto simp: call_step_def split: option.splits)
    with calls here show ?thesis by (simp add: not_storing_def)
  next
    case Missed
    obtain x s1 where body: "ep_body ep q ?s = (x, s1)" by fastforce
    have s1: "s' = s1" "l = (case x of Inl e \<Rightarrow> [] | Inr r \<Rightarrow> [Did q r])" "st' = (case x of Inl e \<Rightarrow> Replied (Inl e) | Inr r \<Rightarrow> Committed r)"
      using step Missed body by (auto simp: call_step_def split: sum.splits)
    have fail: "\<exists>e. x = Inl e" if k: "ep_key ep q = k"
      using body_duplicate [OF here(1), of q] here(2) body unfolding k by auto
    show ?thesis
    proof (cases x)
      case (Inl e)
      with body_fail [of q ?s e s1] body s1 calls here show ?thesis by (simp add: not_storing_def)
    next
      case (Inr r1)
      with fail have k: "ep_key ep q \<noteq> k" by blast
      have store: "ep_store ep s1 = ep_store ep ?s" using body_store [of q ?s] body by simp
      from body_new [OF body [unfolded Inr]] s1 calls here store k Inr show ?thesis by (auto simp: not_storing_def)
    qed
  next
    case (Committed r1)
    with st have k: "ep_key ep q \<noteq> k" by (simp add: not_storing_def)
    obtain c t where store: "ep_store ep (ep_save ep q r1 ?s) = idem_set (ep_store ep ?s) (ep_key ep q) r1 c t"
      using save_store by blast
    from Committed step have "s' = ep_save ep q r1 ?s" by (simp add: call_step_def)
    with calls here k store save_tables [of q r1 ?s] show ?thesis by (simp add: not_storing_def)
  next
    case (Replied x)
    with step calls here show ?thesis by (auto simp: call_step_def not_storing_def)
  next
    case Lost
    with step calls here show ?thesis by (auto simp: call_step_def not_storing_def)
  qed
qed

lemma not_storing_interrupt: "not_storing k (q, interrupt st)"
  by (cases st) (simp_all add: not_storing_def)

lemma forgotten_happen:
  assumes "forgotten k d"
  shows "forgotten k (happen ep ev d) \<and>
    (i < length (d_calls d) \<longrightarrow> ep_key ep (fst (d_calls d ! i)) = k \<longrightarrow>
      snd (d_calls (happen ep ev d) ! i) = Replied (Inr r) \<longrightarrow> snd (d_calls d ! i) = Replied (Inr r))"
proof (cases ev)
  case (Advance j)
  show ?thesis
  proof (cases "j < length (d_calls d)")
    case True
    obtain q st where c: "d_calls d ! j = (q, st)" by fastforce
    obtain st' s' l where step: "call_step ep q st (d_service d) = (st', s', l)" by (metis prod_cases3)
    from forgotten_call [OF assms True c step, of r] Advance True c step show ?thesis
      by (cases "i = j") auto
  qed (use Advance assms in simp)
next
  case (Interleave x)
  with assms show ?thesis by (auto simp: forgotten_def op_store op_entries op_ok)
next
  case Restart
  with assms show ?thesis
    by (auto simp: forgotten_def boot_store boot_entries boot_ok idem_init_def idem_get_def list_all_iff not_storing_interrupt
        split: prod.splits elim!: interrupt.elims)
qed

lemma forgotten_forever:
  assumes "forgotten k d" and "i < length (d_calls d)" and "ep_key ep (fst (d_calls d ! i)) = k"
    and "snd (d_calls (happenings ep es d) ! i) = Replied (Inr r)"
  shows "snd (d_calls d ! i) = Replied (Inr r)"
  using assms
proof (induction es arbitrary: d)
  case (Cons ev es)
  note next_step = forgotten_happen [OF Cons.prems(1), of ev i r]
  have "snd (d_calls (happen ep ev d) ! i) = Replied (Inr r)"
    using Cons.IH [of "happen ep ev d"] next_step Cons.prems calls_kept [of ev d i] by simp
  with next_step Cons.prems(2,3) show ?case by simp
qed simp

text \<open>Every key of the table is forgotten when the process starts again.\<close>

lemma restart_forgets:
  assumes "ok (tables (d_service d))" and "k \<in> fst ` set (entries (tables (d_service d)))"
  shows "forgotten k (happen ep Restart d)"
  using assms
  by (auto simp: forgotten_def boot_store boot_entries boot_ok idem_init_def idem_get_def list_all_iff not_storing_interrupt)

lemma forgotten_entry: "forgotten k d \<Longrightarrow> forgotten k (happenings ep es d)"
  by (induction es arbitrary: d) (auto dest: forgotten_happen [THEN conjunct1])

text \<open>A call that has passed the lookup, or that arrives when the store does not know its key, is refused by the table.\<close>

lemma missed_duplicate_refused:
  assumes "ok (tables (d_service d))" and "i < length (d_calls d)" and "d_calls d ! i = (q, Missed)"
    and "ep_key ep q \<in> fst ` set (entries (tables (d_service d)))"
  obtains e where "fst (ep_body ep q (d_service d)) = Inl e" and "d_calls (happen ep (Advance i) d) ! i = (q, Replied (Inl e))"
proof -
  obtain e where "ep_body ep q (d_service d) = (Inl e, d_service d)" by (rule body_duplicate [OF assms(1,4)])
  with assms that [of e] show thesis by (simp add: call_step_def)
qed

lemma forgotten_duplicate_refused:
  assumes "forgotten (ep_key ep q) d" and "i < length (d_calls d)" and "d_calls d ! i = (q, Arrived)" and "ep_check ep q = None"
  obtains e where "fst (ep_body ep q (d_service d)) = Inl e" and "d_calls (happenings ep [Advance i, Advance i] d) ! i = (q, Replied (Inl e))"
proof -
  let ?d = "happen ep (Advance i) d"
  have d: "?d = d\<lparr>d_calls := (d_calls d)[i := (q, Missed)]\<rparr>" using assms by (simp add: call_step_def forgotten_def)
  obtain e where "fst (ep_body ep q (d_service ?d)) = Inl e" "d_calls (happen ep (Advance i) ?d) ! i = (q, Replied (Inl e))"
    by (rule missed_duplicate_refused [of ?d i q]) (use assms d in \<open>simp_all add: forgotten_def\<close>)
  moreover have "d_service ?d = d_service d" unfolding d by simp
  ultimately show thesis using that [of e] by (simp del: happen.simps)
qed

end

end
