(* ===== verification/Keyed_Endpoints.thy ===== *)
theory Keyed_Endpoints
  imports Deployment Payment Orders
begin

text \<open>
  The payment service (\<^verbatim>\<open>services/payment/app.py\<close>) and the order service (\<^verbatim>\<open>services/order/app.py\<close>) as deployed keyed
  endpoints: their handlers cut at the lookup, the database session and the store of the answer, their other operations
  (chaos configuration; status updates and the outbox relay), and what a start of the process sets. Put together again,
  the parts are the handlers of the theories \<open>Payment\<close> and \<open>Orders\<close>. Both keep the contract \<open>keyed_endpoint\<close>; the inventory
  service does not, since its refusals write no row (theory \<open>Inventory_Concurrency\<close>).
\<close>

section \<open>Payment\<close>

text \<open>The handlers after the lookup, up to the answer; the draw and the configuration are read in between.\<close>

fun payment_body :: "call_env \<times> payment_request \<Rightarrow> payment_service \<Rightarrow> payment_response outcome \<times> payment_service" where
  "payment_body (env, Authorize req) s =
     (let pid = ''PAY-'' @ env_uuid env;
          should_fail = (auth_amount req > always_fail_over s \<or> env_random env < fail_rate s);
          st = (if should_fail then DECLINED else AUTHORIZED);
          message = (if should_fail then ''Payment declined by issuing bank'' else ''Payment authorized successfully'');
          row = \<lparr>payment_id = pid, pay_order_id = auth_order_id req, pay_amount = auth_amount req,
                 pay_status = payment_status_value st, pay_key = auth_key req\<rparr>
      in (case get_session payments_ok (\<lambda>db. (Inr (), db @ [row])) (payments s) of
            (Inl e, db) \<Rightarrow> (Inl e, s\<lparr>payments := db\<rparr>)
          | (Inr _, db) \<Rightarrow>
              (Inr \<lparr>pr_payment_id = pid, pr_order_id = auth_order_id req, pr_amount = auth_amount req, pr_status = st,
                    pr_key = auth_key req, pr_message = Some message\<rparr>, s\<lparr>payments := db\<rparr>)))"
| "payment_body (env, Refund req) s =
     (case get_session payments_ok (refund_body env req) (payments s) of
        (Inl e, db) \<Rightarrow> (Inl e, s\<lparr>payments := db\<rparr>)
      | (Inr (refund_id, amount), db) \<Rightarrow>
          (Inr \<lparr>pr_payment_id = refund_id, pr_order_id = ref_order_id req, pr_amount = amount, pr_status = REFUNDED,
                pr_key = ref_key req, pr_message = Some (''Refund issued for original payment '' @ ref_payment_id req)\<rparr>,
           s\<lparr>payments := db\<rparr>))"

definition payment_save :: "call_env \<times> payment_request \<Rightarrow> payment_response \<Rightarrow> payment_service \<Rightarrow> payment_service" where
  "payment_save q r s = s\<lparr>pay_store := idem_set (pay_store s) (payment_key q) r 200 (env_now (fst q))\<rparr>"

definition payment_check :: "call_env \<times> payment_request \<Rightarrow> py_exn option" where
  "payment_check q =
     (case snd q of
        Authorize r \<Rightarrow> if valid_authorize r then None else Some (HTTPException 422 ''Input should be greater than 0'')
      | Refund r \<Rightarrow> None)"

datatype payment_config = ConfigLatency "int option" | ConfigFailRate "rat option"

fun configure :: "payment_config \<Rightarrow> payment_service \<Rightarrow> payment_service" where
  "configure (ConfigLatency v) s = set_latency s v"
| "configure (ConfigFailRate v) s = set_fail_rate s v"

text \<open>A start of the process: the configuration comes from the environment, the store is new, the table is the database's.\<close>

definition payment_start :: "rat \<Rightarrow> int \<Rightarrow> rat \<Rightarrow> payment list \<Rightarrow> payment_service" where
  "payment_start rate lat over db =
     \<lparr>payments = db, pay_store = idem_init, fail_rate = rate, latency_ms = lat, always_fail_over = over\<rparr>"

definition payment_endpoint ::
  "rat \<Rightarrow> int \<Rightarrow> rat \<Rightarrow> (payment_service, call_env \<times> payment_request, payment_response, payment_config) endpoint" where
  "payment_endpoint rate lat over =
     \<lparr>ep_check = payment_check, ep_key = payment_key, ep_store = pay_store, ep_body = payment_body, ep_save = payment_save,
      ep_op = configure, ep_boot = (\<lambda>s. payment_start rate lat over (payments s))\<rparr>"

lemma payment_endpoint_simps [simp]:
  "ep_check (payment_endpoint rate lat over) = payment_check" "ep_key (payment_endpoint rate lat over) = payment_key"
  "ep_store (payment_endpoint rate lat over) = pay_store" "ep_body (payment_endpoint rate lat over) = payment_body"
  "ep_save (payment_endpoint rate lat over) = payment_save" "ep_op (payment_endpoint rate lat over) = configure"
  "ep_boot (payment_endpoint rate lat over) = (\<lambda>s. payment_start rate lat over (payments s))"
  by (simp_all add: payment_endpoint_def)

text \<open>The parts are those of the handlers.\<close>

lemma serve_payment:
  "serve_keyed (payment_endpoint rate lat over) (env, Authorize r) s = post_authorize s env r"
  "serve_keyed (payment_endpoint rate lat over) (env, Refund f) s = refund_payment s env f"
  by (auto simp: serve_keyed_def payment_check_def post_authorize_def authorize_payment_def refund_payment_def payment_save_def
      Let_def split: option.splits prod.splits sum.splits)

lemma payment_body_commit:
  assumes "payment_body q s = (Inr r, s')"
  shows "key_ids (payments s') = key_ids (payments s) @ [(payment_key q, pr_payment_id r)]" and "payments_ok (payments s')"
  using assms
  by (induction q s rule: payment_body.induct)
     (auto simp: Let_def get_session_commit refund_body_def split: option.splits prod.splits sum.splits)

lemma payment_body_fail: "payment_body q s = (Inl e, s') \<Longrightarrow> s' = s"
  by (induction q s rule: payment_body.induct) (auto simp: Let_def dest: get_session_error split: prod.splits sum.splits)

lemma payment_body_store: "pay_store (snd (payment_body q s)) = pay_store s"
  by (induction q s rule: payment_body.induct) (auto simp: Let_def split: prod.splits sum.splits)

abbreviation payment_tables :: "payment_service \<Rightarrow> payment list \<times> rat \<times> rat" where
  "payment_tables s \<equiv> (payments s, fail_rate s, always_fail_over s)"

lemma payment_body_tables:
  "payment_tables s = payment_tables u \<Longrightarrow>
     fst (payment_body q s) = fst (payment_body q u) \<and> payment_tables (snd (payment_body q s)) = payment_tables (snd (payment_body q u))"
  by (cases "(q, s)" rule: payment_body.cases) (auto simp: Let_def split: prod.splits sum.splits)

lemma configure_keeps [simp]:
  "pay_store (configure x s) = pay_store s" "payments (configure x s) = payments s"
  "always_fail_over (configure x s) = always_fail_over s"
  "fail_rate (configure x s) = (case x of ConfigLatency v \<Rightarrow> fail_rate s | ConfigFailRate v \<Rightarrow> case v of Some r \<Rightarrow> r | None \<Rightarrow> 0)"
  by (cases x; simp add: set_latency_def set_fail_rate_def)+

lemma payments_ok_keys: "payments_ok ps \<Longrightarrow> distinct (map fst (key_ids ps))"
  by (simp add: payments_ok_def comp_def)

interpretation payd: keyed_endpoint "payment_endpoint rate lat over" payment_tables "\<lambda>t. key_ids (fst t)"
  "\<lambda>t. payments_ok (fst t)" pr_payment_id for rate lat over
proof (unfold_locales, unfold payment_endpoint_simps)
  show "\<exists>c t. pay_store (payment_save q r s) = idem_set (pay_store s) (payment_key q) r c t" for q r s
    by (auto simp: payment_save_def)
  show "payment_tables s = payment_tables u \<Longrightarrow> fst (payment_body q s) = fst (payment_body q u) \<and>
      payment_tables (snd (payment_body q s)) = payment_tables (snd (payment_body q u))" for q s u
    by (rule payment_body_tables)
  show "payments_ok (fst t) \<Longrightarrow> distinct (map fst (key_ids (fst t)))" for t :: "payment list \<times> rat \<times> rat"
    by (rule payments_ok_keys)
qed (simp_all add: payment_body_commit payment_body_store payment_save_def payment_start_def payment_body_fail del: map_eq_conv split: payment_config.split)

text \<open>Why a request is refused: an authorisation by its amount or by a constraint of the table, a refund also when its payment is missing.\<close>

lemma authorize_refused:
  assumes "fst (payment_body (env, Authorize r) s) = Inl e"
  shows "e = IntegrityError"
  using assms by (auto simp: Let_def get_session_def split: prod.splits sum.splits if_splits)

section \<open>Orders\<close>

definition order_session ::
  "order_env \<Rightarrow> json \<Rightarrow> create_order_request \<Rightarrow> string \<Rightarrow> order_service \<Rightarrow> order_response outcome \<times> order_service" where
  "order_session env customer req key s =
     (let oid = ''ORD-'' @ env_uuid env
      in (case get_session order_db_ok (create_body env oid customer req key) (order_db s) of
            (Inl e, db) \<Rightarrow> (Inl e, s\<lparr>order_db := db\<rparr>)
          | (Inr _, db) \<Rightarrow>
              (Inr \<lparr>or_order_id = oid, or_status = O_CREATED, or_total_amount = co_total_amount req,
                    or_eta_minutes = None, or_eta_lower = None, or_eta_upper = None, or_degraded = False\<rparr>,
               s\<lparr>order_db := db\<rparr>)))"

fun order_body :: "order_env \<times> order_request \<Rightarrow> order_service \<Rightarrow> order_response outcome \<times> order_service" where
  "order_body (env, PostOrder auth req key) s = order_session env (user_id auth) req key s"
| "order_body (env, PostOrderLegacy auth req key) s =
     order_session env (case auth of Some a \<Rightarrow> user_id a | None \<Rightarrow> JStr (co_customer_id req)) req key s"

definition order_save :: "order_env \<times> order_request \<Rightarrow> order_response \<Rightarrow> order_service \<Rightarrow> order_service" where
  "order_save q r s = s\<lparr>order_store := idem_set (order_store s) (order_request_key q) r 202 (env_now (fst q))\<rparr>"

definition order_check :: "order_env \<times> order_request \<Rightarrow> py_exn option" where
  "order_check q = (if valid_create (order_request_body (snd q)) then None else Some (HTTPException 422 ''validation error''))"

text \<open>
  Status updates, and the batches of a relay: \<open>answer\<close> is what Redis says to an entry, \<open>now\<close> the clock, the last
  argument whether the commit succeeds.
\<close>

datatype order_other =
    StatusUpdate string update_params
  | Relay "string \<Rightarrow> stream_fields \<Rightarrow> string outcome" nat time bool

fun order_work :: "(json \<Rightarrow> string) \<Rightarrow> order_other \<Rightarrow> order_service \<Rightarrow> order_service" where
  "order_work str_of (StatusUpdate oid q) s = snd (update_order_status s oid q)"
| "order_work str_of (Relay answer batch now commit_ok) s =
     s\<lparr>order_db := (order_db s)\<lparr>outbox :=
         fst (snd (relay_batch (\<lambda>stream fields b. (answer stream fields, b)) str_of batch now commit_ok (outbox (order_db s), ())))\<rparr>\<rparr>"

definition order_endpoint ::
  "(json \<Rightarrow> string) \<Rightarrow> (order_service, order_env \<times> order_request, order_response, order_other) endpoint" where
  "order_endpoint str_of =
     \<lparr>ep_check = order_check, ep_key = order_request_key, ep_store = order_store, ep_body = order_body, ep_save = order_save,
      ep_op = order_work str_of, ep_boot = (\<lambda>s. s\<lparr>order_store := idem_init\<rparr>)\<rparr>"

lemma order_endpoint_simps [simp]:
  "ep_check (order_endpoint str_of) = order_check" "ep_key (order_endpoint str_of) = order_request_key"
  "ep_store (order_endpoint str_of) = order_store" "ep_body (order_endpoint str_of) = order_body"
  "ep_save (order_endpoint str_of) = order_save" "ep_op (order_endpoint str_of) = order_work str_of"
  "ep_boot (order_endpoint str_of) = (\<lambda>s. s\<lparr>order_store := idem_init\<rparr>)"
  by (simp_all add: order_endpoint_def)

lemma serve_create_order: "serve_keyed (order_endpoint str_of) q s = post_order s q"
proof -
  obtain env b where q: "q = (env, b)" by fastforce
  show ?thesis
    by (cases b)
       (auto simp: q serve_keyed_def order_check_def post_order_def create_order_def create_order_legacy_def place_order_def
         order_session_def order_save_def Let_def split: option.splits prod.splits sum.splits)
qed

abbreviation order_entries :: "order_db \<Rightarrow> (string \<times> string) list" where
  "order_entries db \<equiv> map (\<lambda>row. (order_key row, order_id row)) (orders db)"

lemma order_session_commit:
  assumes "order_session env customer req key s = (Inr r, s')"
  shows "order_entries (order_db s') = order_entries (order_db s) @ [(key, or_order_id r)]" and "order_db_ok (order_db s')"
  using assms by (auto simp: order_session_def Let_def get_session_commit create_body_def split: prod.splits sum.splits)

lemma order_session_fail: "order_session env customer req key s = (Inl e, s') \<Longrightarrow> s' = s \<and> e = IntegrityError"
  by (auto simp: order_session_def Let_def get_session_def create_body_def split: prod.splits sum.splits if_splits)

lemma order_session_store: "order_store (snd (order_session env customer req key s)) = order_store s"
  by (auto simp: order_session_def Let_def split: prod.splits sum.splits)

lemma order_session_tables:
  "order_db s = order_db u \<Longrightarrow> fst (order_session env customer req key s) = fst (order_session env customer req key u) \<and>
     order_db (snd (order_session env customer req key s)) = order_db (snd (order_session env customer req key u))"
  by (auto simp: order_session_def Let_def split: prod.splits sum.splits)

lemma order_body_session:
  obtains customer where "order_body q = order_session (fst q) customer (order_request_body (snd q)) (order_request_key q)"
  by (cases q; cases "snd q") (auto simp: fun_eq_iff)

lemma relay_rows_ids: "map row_id (fst (snd (relay_rows xadd str_of now n es b))) = map row_id es"
  by (induction xadd str_of now n es b rule: relay_rows.induct)
     (auto simp: relay_entry_def Let_def split: prod.splits sum.splits if_splits)

lemma relay_batch_ids: "map row_id (fst (snd (relay_batch xadd str_of n now c (es, b)))) = map row_id es"
  using relay_rows_ids [of xadd str_of now n es b] by (auto simp: relay_batch_def split: prod.splits)

lemma order_work_db:
  "order_store (order_work str_of x s) = order_store s"
  "order_db s = order_db u \<Longrightarrow> order_db (order_work str_of x s) = order_db (order_work str_of x u)"
  "order_entries (order_db (order_work str_of x s)) = order_entries (order_db s)"
  by (cases x; auto simp: update_order_status_def get_session_def split: option.splits prod.splits sum.splits)+

lemma order_work_ok:
  assumes "order_db_ok (order_db s)"
  shows "order_db_ok (order_db (order_work str_of x s))"
proof (cases x)
  case (StatusUpdate oid q)
  with assms show ?thesis by (auto simp: update_order_status_def get_session_def split: option.splits prod.splits sum.splits)
next
  case (Relay answer batch now c)
  let ?o = "fst (snd (relay_batch (\<lambda>stream fields b. (answer stream fields, b)) str_of batch now c (outbox (order_db s), ())))"
  have "map fst (map row_id ?o) = map fst (map row_id (outbox (order_db s)))" unfolding relay_batch_ids ..
  then have "map oe_event_id ?o = map oe_event_id (outbox (order_db s))" by (simp add: comp_def)
  with assms Relay show ?thesis by (simp add: order_db_ok_def)
qed

interpretation ordd: keyed_endpoint "order_endpoint str_of" order_db order_entries order_db_ok or_order_id for str_of
proof (unfold_locales, unfold order_endpoint_simps)
  show "order_db_ok db \<Longrightarrow> distinct (map fst (order_entries db))" for db by (simp add: order_db_ok_def comp_def)
  fix q :: "order_env \<times> order_request" and s s' u :: order_service and r e
  obtain c where body: "order_body q = order_session (fst q) c (order_request_body (snd q)) (order_request_key q)"
    by (rule order_body_session)
  show "order_entries (order_db s') = order_entries (order_db s) @ [(order_request_key q, or_order_id r)] \<and> order_db_ok (order_db s')"
    if "order_body q s = (Inr r, s')"
    using that order_session_commit unfolding body by blast
  show "order_body q s = (Inl e, s') \<Longrightarrow> s' = s" unfolding body using order_session_fail by blast
  show "order_store (snd (order_body q s)) = order_store s" unfolding body by (rule order_session_store)
  show "order_db s = order_db u \<Longrightarrow> fst (order_body q s) = fst (order_body q u) \<and>
      order_db (snd (order_body q s)) = order_db (snd (order_body q u))" unfolding body by (rule order_session_tables)
  show "\<exists>c t. order_store (order_save q r s) = idem_set (order_store s) (order_request_key q) r c t" by (auto simp: order_save_def)
  show "order_db s = order_db u \<Longrightarrow> order_db (order_work str_of x s) = order_db (order_work str_of x u)" for x by (rule order_work_db(2))
qed (simp_all add: order_save_def order_work_db(1,3) order_work_ok)

section \<open>Events of orders\<close>

lemma announces_row_id: "row_id e' = row_id e \<Longrightarrow> announces row e' = announces row e"
proof -
  assume "row_id e' = row_id e"
  then have "message (\<lambda>_. []) e' = message (\<lambda>_. []) e" by (auto simp: message_def split: sum.splits)
  then show ?thesis by (simp add: announces_def)
qed

lemma announced_relay:
  assumes "list_all2 announces rows es" and "map row_id es' = map row_id es"
  shows "list_all2 announces rows es'"
proof -
  from assms(2) have "length es' = length es" by (rule map_eq_imp_length_eq)
  with assms show ?thesis
    by (auto simp: list_all2_conv_all_nth list_eq_iff_nth_eq announces_row_id [of "es' ! i" "es ! i" for i])
qed

lemma order_work_announces:
  assumes "list_all2 announces (orders (order_db s)) (outbox (order_db s))"
  shows "list_all2 announces (orders (order_db (order_work str_of x s))) (outbox (order_db (order_work str_of x s)))"
proof (cases x)
  case (StatusUpdate oid q)
  with assms show ?thesis
    by (auto simp: update_order_status_def get_session_def intro!: list_all2_update_first split: option.splits prod.splits sum.splits)
next
  case (Relay answer batch now c)
  with assms show ?thesis by (auto intro!: announced_relay [OF _ relay_batch_ids])
qed

lemma order_body_announces:
  assumes "list_all2 announces (orders (order_db s)) (outbox (order_db s))" and "order_body q s = (Inr r, s')"
  shows "list_all2 announces (orders (order_db s')) (outbox (order_db s'))"
proof -
  obtain c where "order_body q = order_session (fst q) c (order_request_body (snd q)) (order_request_key q)"
    by (rule order_body_session)
  with assms(2) have "create_body (fst q) (''ORD-'' @ env_uuid (fst q)) c (order_request_body (snd q)) (order_request_key q) (order_db s)
      = (Inr (), order_db s')"
    by (auto simp: order_session_def Let_def get_session_commit split: prod.splits sum.splits)
  from created_announced [OF this] assms(1) show ?thesis by (auto simp: list_all2_appendI)
qed

section \<open>Properties\<close>

text \<open>
  C26: A customer is charged once per key. However the requests of the payment service interleave, whatever is configured
  meanwhile and however often the process restarts, the table keeps its constraints; every request that was answered has
  exactly one row with its key, the one its answer names; and any two answers to one key are the same.\<close>

theorem payments_charged_once:
  assumes "payments_ok db"
    and "d = happenings (payment_endpoint rate lat over) es (deploy (payment_start rate lat over db) qs)"
  shows "payments_ok (payments (d_service d)) \<and>
    (\<forall>q r. (q, Replied (Inr r)) \<in> set (d_calls d) \<longrightarrow>
       (\<exists>p. filter (\<lambda>p. pay_key p = payment_key q) (payments (d_service d)) = [p] \<and> payment_id p = pr_payment_id r) \<and>
       (\<forall>q' r'. (q', Replied (Inr r')) \<in> set (d_calls d) \<and> payment_key q' = payment_key q \<longrightarrow> r' = r))"
proof -
  have start: "payments_ok (fst (payment_tables (payment_start rate lat over db)))"
      "ep_store (payment_endpoint rate lat over) (payment_start rate lat over db) = idem_init"
    using assms(1) by (simp_all add: payment_start_def)
  have ok: "payments_ok (payments (d_service d))" using payd.refines(3) [OF start assms(2)] by simp
  have "\<exists>p. filter (\<lambda>p. pay_key p = payment_key q) (payments (d_service d)) = [p] \<and> payment_id p = pr_payment_id r"
    if reply: "(q, Replied (Inr r)) \<in> set (d_calls d)" for q r
  proof -
    obtain p where p: "p \<in> set (payments (d_service d))" "pay_key p = payment_key q" "payment_id p = pr_payment_id r"
      using payd.reply_entry [OF start assms(2) reply] by auto
    from ok p(1) have "filter (\<lambda>y. pay_key y = pay_key p) (payments (d_service d)) = [p]"
      by (intro filter_key_singleton) (auto simp: payments_ok_def)
    with p(2,3) show ?thesis by simp
  qed
  moreover have "r' = r"
    if "(q, Replied (Inr r)) \<in> set (d_calls d)" "(q', Replied (Inr r')) \<in> set (d_calls d)" "payment_key q' = payment_key q" for q q' r r'
    using payd.replies_agree [OF start assms(2) that(2,1)] that(3) by simp
  ultimately show ?thesis using ok by blast
qed

text \<open>
  C27: The retry of a charge that was made fails. Once an authorisation has its row, a duplicate that has passed the lookup
  before the answer was stored ends in an integrity error (500) and not in the answer; and when the process restarts, the
  charge stays in the table, every repetition ends in an integrity error, and no schedule whatever gives the answer to a
  request that had not got it before the restart.\<close>

theorem retry_of_charge_refused:
  assumes "payments_ok db"
    and "d = happenings (payment_endpoint rate lat over) es (deploy (payment_start rate lat over db) qs)"
    and "i < length (d_calls d)" and "d_calls d ! i = ((env, Authorize req), st)" and "valid_authorize req"
    and "auth_key req \<in> pay_key ` set (payments (d_service d))"
  shows "(st = Missed \<longrightarrow>
       snd (d_calls (happen (payment_endpoint rate lat over) (Advance i) d) ! i) = Replied (Inl IntegrityError)) \<and>
    (st = Arrived \<longrightarrow>
       snd (d_calls (happenings (payment_endpoint rate lat over) [Restart, Advance i, Advance i] d) ! i) = Replied (Inl IntegrityError)) \<and>
    (\<forall>es' r. snd (d_calls (happenings (payment_endpoint rate lat over) (Restart # es') d) ! i) = Replied (Inr r) \<longrightarrow> st = Replied (Inr r)) \<and>
    (\<forall>es'. auth_key req \<in> pay_key ` set (payments (d_service (happenings (payment_endpoint rate lat over) (Restart # es') d)))) \<and>
    status_code (respond (\<lambda>_. []) (Inl IntegrityError)) = 500"
proof -
  let ?ep = "payment_endpoint rate lat over" and ?q = "(env, Authorize req)"
  have start: "payments_ok (fst (payment_tables (payment_start rate lat over db)))"
      "ep_store ?ep (payment_start rate lat over db) = idem_init"
    using assms(1) by (simp_all add: payment_start_def)
  have ok: "payments_ok (fst (payment_tables (d_service d)))" by (rule payd.refines(3) [OF start assms(2)])
  have row: "auth_key req \<in> fst ` set (key_ids (fst (payment_tables (d_service d))))" using assms(6) by (force simp: image_image)
  then have row': "ep_key ?ep ?q \<in> fst ` set (key_ids (fst (payment_tables (d_service d))))" by simp
  have forg: "payd.forgotten rate lat over (auth_key req) (happen ?ep Restart d)" by (rule payd.restart_forgets [OF ok row])
  have missed: "snd (d_calls (happen ?ep (Advance i) d) ! i) = Replied (Inl IntegrityError)" if here: "st = Missed"
  proof -
    obtain e where e: "fst (ep_body ?ep ?q (d_service d)) = Inl e" "d_calls (happen ?ep (Advance i) d) ! i = (?q, Replied (Inl e))"
      by (rule payd.missed_duplicate_refused [OF ok assms(3) _ row']) (use assms(4) here in \<open>simp_all del: payment_body.simps\<close>)
    from e(1) have "e = IntegrityError" unfolding payment_endpoint_simps by (rule authorize_refused)
    with e(2) show ?thesis by simp
  qed
  have retry: "snd (d_calls (happenings ?ep [Restart, Advance i, Advance i] d) ! i) = Replied (Inl IntegrityError)" if here: "st = Arrived"
  proof -
    let ?d = "happen ?ep Restart d"
    obtain e where e: "fst (ep_body ?ep ?q (d_service ?d)) = Inl e"
        "d_calls (happenings ?ep [Advance i, Advance i] ?d) ! i = (?q, Replied (Inl e))"
      by (rule payd.forgotten_duplicate_refused [of rate lat over ?q ?d i])
         (use assms(3-5) forg here in \<open>simp_all add: payment_check_def del: payment_body.simps\<close>)
    from e(1) have "e = IntegrityError" unfolding payment_endpoint_simps by (rule authorize_refused)
    with e(2) show ?thesis by (simp only: happenings_simps snd_conv)
  qed
  have never: "st = Replied (Inr r)" if "snd (d_calls (happenings ?ep (Restart # es') d) ! i) = Replied (Inr r)" for es' r
  proof -
    have "snd (d_calls (happen ?ep Restart d) ! i) = Replied (Inr r)"
      by (rule payd.forgotten_forever [OF forg, of _ es']) (use assms(3,4) that in simp_all)
    with assms(3,4) show ?thesis by (cases st) simp_all
  qed
  have "auth_key req \<in> pay_key ` set (payments (d_service (happenings ?ep (Restart # es') d)))" for es'
  proof -
    from payd.forgotten_entry [OF forg, of es']
    have "auth_key req \<in> fst ` set (key_ids (fst (payment_tables (d_service (happenings ?ep es' (happen ?ep Restart d))))))"
      unfolding payd.forgotten_def by blast
    then show ?thesis by (simp add: image_image)
  qed
  with missed retry never show ?thesis by simp
qed

text \<open>
  C8: The deployed order service is the order service that handles one request at a time. Started on an empty database, for
  every interleaving of its requests with each other, with status updates, relay batches and restarts there is a sequence of
  single requests, the committed ones in the order of their commits, with the same tables; every answered request was given
  the answer that this sequence gives to its key; and the outbox holds one event per order, in sequence, that decodes to it.\<close>

theorem deployed_orders_linearize:
  assumes "d = happenings (order_endpoint str_of) es (deploy no_orders qs)"
  shows "(\<exists>u. replays (order_endpoint str_of) (d_log d) no_orders = Some u \<and> order_db u = order_db (d_service d)) \<and>
    (\<forall>q s. serve_keyed (order_endpoint str_of) q s = post_order s q) \<and>
    (\<forall>q r. (q, Replied (Inr r)) \<in> set (d_calls d) \<longrightarrow>
       (\<exists>q'. Did q' r \<in> set (d_log d) \<and> order_request_key q' = order_request_key q)) \<and>
    list_all2 announces (orders (order_db (d_service d))) (outbox (order_db (d_service d))) \<and>
    order_db_ok (order_db (d_service d))"
proof -
  have start: "order_db_ok (order_db no_orders)" "ep_store (order_endpoint str_of) no_orders = idem_init"
    by (simp_all add: no_orders_def order_db_ok_def)
  have "list_all2 announces (orders (order_db (d_service d))) (outbox (order_db (d_service d)))"
    unfolding assms
    by (rule ordd.tables_inv [where P = "\<lambda>db. list_all2 announces (orders db) (outbox db)"])
       (simp_all add: deploy_def no_orders_def order_work_announces order_body_announces)
  moreover have "\<exists>q'. Did q' r \<in> set (d_log d) \<and> order_request_key q' = order_request_key q"
    if "(q, Replied (Inr r)) \<in> set (d_calls d)" for q r
    using ordd.reply_committed [OF start assms that] by (metis order_endpoint_simps(2))
  ultimately show ?thesis using ordd.refines [OF start assms] serve_create_order by blast
qed

section \<open>Witnesses\<close>

text \<open>Three requests to charge an order under one key: two at once, one after a restart.\<close>

definition charge_again :: "string \<Rightarrow> call_env \<times> payment_request" where
  "charge_again u = (\<lparr>env_uuid = u, env_random = 1, env_now = 0\<rparr>, Authorize \<lparr>auth_order_id = ''ORD-1'', auth_amount = 5, auth_key = ''k''\<rparr>)"

abbreviation bank :: "(payment_service, call_env \<times> payment_request, payment_response, payment_config) endpoint" where
  "bank \<equiv> payment_endpoint 0 0 9"

definition charging :: "payment_config event list \<Rightarrow>
  (payment_service, call_env \<times> payment_request, payment_response, payment_config) deployment" where
  "charging es = happenings bank es (deploy (payment_start 0 0 9 []) [charge_again ''1'', charge_again ''2'', charge_again ''3''])"

definition charged_once :: "payment_config event list" where
  "charged_once = [Advance 0, Advance 1, Advance 0, Advance 0]"

definition charge_answer :: payment_response where
  "charge_answer = \<lparr>pr_payment_id = ''PAY-1'', pr_order_id = ''ORD-1'', pr_amount = 5, pr_status = AUTHORIZED, pr_key = ''k'',
     pr_message = Some ''Payment authorized successfully''\<rparr>"

lemma charging_calls:
  "d_calls (charging charged_once) =
     [(charge_again ''1'', Replied (Inr charge_answer)), (charge_again ''2'', Missed), (charge_again ''3'', Arrived)]"
  "map pay_key (payments (d_service (charging charged_once))) = [''k'']"
  by code_simp+

theorem payments_charged_once_witness:
  "\<exists>p. filter (\<lambda>p. pay_key p = ''k'') (payments (d_service (charging charged_once))) = [p] \<and> payment_id p = ''PAY-1''"
proof -
  have "payments_ok []" by (simp add: payments_ok_def)
  from payments_charged_once [OF this charging_def, of charged_once] charging_calls(1)
  show ?thesis by (auto simp: charge_again_def charge_answer_def)
qed

theorem retry_of_charge_refused_witness:
  "snd (d_calls (happen bank (Advance 1) (charging charged_once)) ! 1) = Replied (Inl IntegrityError) \<and>
   snd (d_calls (happenings bank [Restart, Advance 2, Advance 2] (charging charged_once)) ! 2) = Replied (Inl IntegrityError)"
proof -
  let ?d = "charging charged_once"
  have ok: "payments_ok []" by (simp add: payments_ok_def)
  have row: "''k'' \<in> pay_key ` set (payments (d_service ?d))"
    using charging_calls(2) by (metis list.set_intros(1) list.set_map)
  have calls: "1 < length (d_calls ?d)" "d_calls ?d ! 1 = (charge_again ''2'', Missed)"
      "2 < length (d_calls ?d)" "d_calls ?d ! 2 = (charge_again ''3'', Arrived)"
    by (simp_all add: charging_calls(1))
  note retry = retry_of_charge_refused [OF ok charging_def]
  from retry [OF calls(1) calls(2) [unfolded charge_again_def]] retry [OF calls(3) calls(4) [unfolded charge_again_def]] row
  show ?thesis by (simp add: valid_authorize_def del: happen.simps happenings_simps One_nat_def)
qed

text \<open>An order, sent twice at once, and a restart before it is sent again.\<close>

definition ordering :: "order_other event list \<Rightarrow> (order_service, order_env \<times> order_request, order_response, order_other) deployment" where
  "ordering es = happenings (order_endpoint (\<lambda>_. [])) es
     (deploy no_orders (replicate 3 (demo_env, PostOrderLegacy None demo_request ''k'')))"

definition ordered_once :: "order_other event list" where
  "ordered_once = [Advance 0, Advance 1, Advance 0, Interleave (StatusUpdate ''ORD-A1''
     \<lparr>up_new_status = Some ''CONFIRMED'', up_eta_minutes = None, up_eta_lower = None, up_eta_upper = None, up_degraded = False\<rparr>),
     Advance 0, Advance 1, Restart, Advance 2, Advance 2]"

theorem deployed_orders_linearize_witness:
  "map (map_option or_order_id \<circ> (\<lambda>(q, st). case st of Replied (Inr r) \<Rightarrow> Some r | _ \<Rightarrow> None)) (d_calls (ordering ordered_once)) =
     [Some ''ORD-A1'', None, None] \<and>
   map order_status (orders (order_db (d_service (ordering ordered_once)))) = [''CONFIRMED''] \<and>
   (\<exists>u. replays (order_endpoint (\<lambda>_. [])) (d_log (ordering ordered_once)) no_orders = Some u \<and>
     map order_status (orders (order_db u)) = [''CONFIRMED''])"
proof -
  have 1: "map (map_option or_order_id \<circ> (\<lambda>(q, st). case st of Replied (Inr r) \<Rightarrow> Some r | _ \<Rightarrow> None)) (d_calls (ordering ordered_once)) =
      [Some ''ORD-A1'', None, None]" by code_simp
  have 2: "map order_status (orders (order_db (d_service (ordering ordered_once)))) = [''CONFIRMED'']" by code_simp
  from deployed_orders_linearize [OF ordering_def, of ordered_once]
  obtain u where "replays (order_endpoint (\<lambda>_. [])) (d_log (ordering ordered_once)) no_orders = Some u"
      "order_db u = order_db (d_service (ordering ordered_once))" by blast
  with 1 2 show ?thesis by simp
qed

end
