(* ===== verification/Outbox_Relays.thy ===== *)
theory Outbox_Relays
  imports Outbox
begin

text \<open>
  Several relays on one outbox (\<^verbatim>\<open>OutboxRelay\<close> in \<^verbatim>\<open>core/outbox.py\<close>). The query of \<^verbatim>\<open>relay_batch\<close> takes no row lock, so
  while a relay publishes the entries it has loaded, another may load and publish the same rows, and the services go on
  writing events. A relay is cut into its query, the publication of one entry and the commit, which writes the columns the
  session has changed into the rows as they are then.
\<close>

section \<open>Relays and their actions\<close>

text \<open>Rows are named by their position: they are appended and never deleted.\<close>

record relayer =
  loaded :: "(nat \<times> outbox_event) list"                      \<comment> \<open>still to be published\<close>
  handled :: "(nat \<times> outbox_event \<times> outbox_event) list"     \<comment> \<open>as loaded, as changed in the session\<close>

record 'b relay_system =
  out_rows :: "outbox_event list"
  stream :: 'b
  relayers :: "relayer list"

definition query_pending :: "nat \<Rightarrow> outbox_event list \<Rightarrow> (nat \<times> outbox_event) list" where
  "query_pending batch es = take batch (filter (\<lambda>(n, e). oe_status e = PENDING) (enumerate 0 es))"

definition changed_columns :: "outbox_event \<Rightarrow> outbox_event \<Rightarrow> outbox_event \<Rightarrow> outbox_event" where
  "changed_columns e e' row =
     row\<lparr>oe_status := (if oe_status e' = oe_status e then oe_status row else oe_status e'),
         retry_count := (if retry_count e' = retry_count e then retry_count row else retry_count e'),
         published_at := (if published_at e' = published_at e then published_at row else published_at e')\<rparr>"

fun write_changes :: "(nat \<times> outbox_event \<times> outbox_event) list \<Rightarrow> outbox_event list \<Rightarrow> outbox_event list" where
  "write_changes [] es = es"
| "write_changes ((n, e, e') # cs) es = write_changes cs (es[n := changed_columns e e' (es ! n)])"

datatype relay_action =
    Query nat nat
  | Publish nat time
  | Commit nat bool
  | Write string string string out_payload "string option"

abbreviation set_relayer :: "nat \<Rightarrow> relayer \<Rightarrow> 'b relay_system \<Rightarrow> 'b relay_system" where
  "set_relayer i w s \<equiv> s\<lparr>relayers := (relayers s)[i := w]\<rparr>"

text \<open>An action that its relay cannot take now leaves everything as it is.\<close>

fun relay_act :: "'b xadd \<Rightarrow> (json \<Rightarrow> string) \<Rightarrow> relay_action \<Rightarrow> 'b relay_system \<Rightarrow> 'b relay_system" where
  "relay_act xadd str_of (Query i batch) s =
     (if i < length (relayers s) \<and> relayers s ! i = \<lparr>loaded = [], handled = []\<rparr>
      then set_relayer i \<lparr>loaded = query_pending batch (out_rows s), handled = []\<rparr> s else s)"
| "relay_act xadd str_of (Publish i now) s =
     (if i < length (relayers s) then
        (case loaded (relayers s ! i) of
           [] \<Rightarrow> s
         | (n, e) # todo \<Rightarrow>
             (case relay_entry xadd str_of now e (stream s) of (sent, e', b) \<Rightarrow>
               set_relayer i \<lparr>loaded = todo, handled = handled (relayers s ! i) @ [(n, e, e')]\<rparr> (s\<lparr>stream := b\<rparr>)))
      else s)"
| "relay_act xadd str_of (Commit i success) s =
     (if i < length (relayers s) \<and> loaded (relayers s ! i) = []
      then set_relayer i \<lparr>loaded = [], handled = []\<rparr>
        (if success then s\<lparr>out_rows := write_changes (handled (relayers s ! i)) (out_rows s)\<rparr> else s)
      else s)"
| "relay_act xadd str_of (Write uuid ty name payload eid) s =
     s\<lparr>out_rows := write_outbox_event uuid ty name payload eid (out_rows s)\<rparr>"

definition relay_acts :: "'b xadd \<Rightarrow> (json \<Rightarrow> string) \<Rightarrow> relay_action list \<Rightarrow> 'b relay_system \<Rightarrow> 'b relay_system" where
  "relay_acts xadd str_of = fold (relay_act xadd str_of)"

definition idle_relays :: "nat \<Rightarrow> outbox_event list \<Rightarrow> 'b \<Rightarrow> 'b relay_system" where
  "idle_relays k es b = \<lparr>out_rows = es, stream = b, relayers = replicate k \<lparr>loaded = [], handled = []\<rparr>\<rparr>"

section \<open>One relay alone\<close>

text \<open>The whole batch of one relay, nothing in between, is \<open>relay_batch\<close>.\<close>

fun publish_all ::
  "'b xadd \<Rightarrow> (json \<Rightarrow> string) \<Rightarrow> time \<Rightarrow> (nat \<times> outbox_event) list \<Rightarrow> 'b \<Rightarrow> (nat \<times> outbox_event \<times> outbox_event) list \<times> 'b" where
  "publish_all xadd str_of now [] b = ([], b)"
| "publish_all xadd str_of now ((n, e) # todo) b =
     (case relay_entry xadd str_of now e b of (sent, e', b') \<Rightarrow>
       (case publish_all xadd str_of now todo b' of (cs, b'') \<Rightarrow> ((n, e, e') # cs, b'')))"

lemma publish_all_acts:
  assumes "loaded w = todo" and "publish_all xadd str_of now todo b = (cs, b')"
  shows "relay_acts xadd str_of (replicate (length todo) (Publish 0 now)) \<lparr>out_rows = es, stream = b, relayers = [w]\<rparr> =
    \<lparr>out_rows = es, stream = b', relayers = [\<lparr>loaded = [], handled = handled w @ cs\<rparr>]\<rparr>"
  using assms
proof (induction xadd str_of now todo b arbitrary: w cs rule: publish_all.induct)
  case (1 xadd str_of now b)
  then show ?case by (cases w) (simp add: relay_acts_def)
next
  case (2 xadd str_of now n e todo b)
  obtain sent e1 b1 where e1: "relay_entry xadd str_of now e b = (sent, e1, b1)" by (metis prod_cases3)
  obtain cs1 where cs: "publish_all xadd str_of now todo b1 = (cs1, b')" "cs = (n, e, e1) # cs1"
    using "2.prems"(2) e1 by (auto split: prod.splits)
  have "relay_acts xadd str_of (replicate (length todo) (Publish 0 now))
      \<lparr>out_rows = es, stream = b1, relayers = [\<lparr>loaded = todo, handled = handled w @ [(n, e, e1)]\<rparr>]\<rparr> =
    \<lparr>out_rows = es, stream = b', relayers = [\<lparr>loaded = [], handled = (handled w @ [(n, e, e1)]) @ cs1\<rparr>]\<rparr>"
    using "2.IH" [OF e1 [symmetric] refl, of "\<lparr>loaded = todo, handled = handled w @ [(n, e, e1)]\<rparr>" cs1] cs(1) by simp
  with "2.prems"(1) e1 cs(2) show ?case by (simp add: relay_acts_def)
qed

lemma relay_entry_changes:
  "relay_entry xadd str_of now e b = (sent, e', b') \<Longrightarrow> changed_columns e e' e = e'"
  by (cases e) (auto simp: relay_entry_def changed_columns_def Let_def split: sum.splits prod.splits)

lemma relay_rows_split:
  assumes "relay_rows xadd str_of now batch es b = (c, es', b')"
    and "publish_all xadd str_of now (take batch (filter (\<lambda>(n, e). oe_status e = PENDING) (enumerate (length xs) es))) b = (cs, b'')"
  shows "write_changes cs (xs @ es) = xs @ es' \<and> b'' = b'"
  using assms
proof (induction xadd str_of now batch es b arbitrary: xs c es' cs rule: relay_rows.induct)
  case (2 xadd str_of now n e es b)
  show ?case
  proof (cases "oe_status e = PENDING \<and> 0 < n")
    case True
    obtain sent e1 b1 where e1: "relay_entry xadd str_of now e b = (sent, e1, b1)" by (metis prod_cases3)
    obtain c2 es2 where es2: "relay_rows xadd str_of now (n - 1) es b1 = (c2, es2, b')" "es' = e1 # es2"
      using "2.prems"(1) True e1 by (auto split: prod.splits)
    obtain cs2 where cs2: "publish_all xadd str_of now
        (take (n - 1) (filter (\<lambda>(n, e). oe_status e = PENDING) (enumerate (length (xs @ [e1])) es))) b1 = (cs2, b'')"
        "cs = (length xs, e, e1) # cs2"
      using "2.prems"(2) True e1 by (cases n) (auto split: prod.splits)
    from "2.IH"(1) [OF True e1 [symmetric] refl es2(1) cs2(1)]
    have "write_changes cs2 ((xs @ [e1]) @ es) = (xs @ [e1]) @ es2 \<and> b'' = b'" .
    then show ?thesis using cs2(2) es2(2) relay_entry_changes [OF e1] by simp
  next
    case False
    obtain c2 es2 where es2: "relay_rows xadd str_of now n es b = (c2, es2, b')" "es' = e # es2"
      using "2.prems"(1) False by (auto split: prod.splits)
    have "publish_all xadd str_of now (take n (filter (\<lambda>(n, e). oe_status e = PENDING) (enumerate (length (xs @ [e])) es))) b = (cs, b'')"
      using "2.prems"(2) False by (cases n) auto
    from "2.IH"(2) [OF False es2(1) this] show ?thesis using es2(2) by simp
  qed
qed (simp add: enumerate_simps)

lemma relay_alone:
  assumes "relay_batch xadd str_of batch now success (es, b) = (c, es', b')"
  shows "relay_acts xadd str_of
      (Query 0 batch # replicate (length (query_pending batch es)) (Publish 0 now) @ [Commit 0 success]) (idle_relays 1 es b) =
    idle_relays 1 es' b'"
proof -
  obtain es1 where rows: "relay_rows xadd str_of now batch es b = (c, es1, b')" and es1: "es' = (if success then es1 else es)"
    using assms by (auto simp: relay_batch_def split: prod.splits)
  obtain cs b2 where pub: "publish_all xadd str_of now (query_pending batch es) b = (cs, b2)" by fastforce
  with relay_rows_split [OF rows, of "[]"] have ws: "write_changes cs es = es1" "b2 = b'" by (simp_all add: query_pending_def)
  have "relay_acts xadd str_of (replicate (length (query_pending batch es)) (Publish 0 now))
      \<lparr>out_rows = es, stream = b, relayers = [\<lparr>loaded = query_pending batch es, handled = []\<rparr>]\<rparr> =
    \<lparr>out_rows = es, stream = b', relayers = [\<lparr>loaded = [], handled = cs\<rparr>]\<rparr>"
    using publish_all_acts [OF _ pub, of "\<lparr>loaded = query_pending batch es, handled = []\<rparr>" es] ws by simp
  with ws es1 show ?thesis by (simp add: relay_acts_def idle_relays_def)
qed

section \<open>What all relays together keep\<close>

definition sent_ok :: "(json \<Rightarrow> string) \<Rightarrow> (string \<times> stream_fields) set \<Rightarrow> outbox_event \<Rightarrow> bool" where
  "sent_ok str_of out e \<longleftrightarrow> (oe_status e = PUBLISHED \<longrightarrow> (\<exists>m \<in> out. message str_of e = Some m))"

lemma sent_ok_mono: "sent_ok str_of out e \<Longrightarrow> out \<subseteq> out' \<Longrightarrow> sent_ok str_of out' e"
  by (auto simp: sent_ok_def)

lemma message_row_id: "row_id e' = row_id e \<Longrightarrow> message str_of e' = message str_of e"
  by (auto simp: message_def split: sum.splits)

definition relayer_ok :: "(json \<Rightarrow> string) \<Rightarrow> (string \<times> stream_fields) set \<Rightarrow> outbox_event list \<Rightarrow> relayer \<Rightarrow> bool" where
  "relayer_ok str_of out es w \<longleftrightarrow>
     (\<forall>(n, e) \<in> set (loaded w). n < length es \<and> row_id (es ! n) = row_id e \<and> oe_status e = PENDING) \<and>
     (\<forall>(n, e, e') \<in> set (handled w). n < length es \<and> row_id (es ! n) = row_id e' \<and> sent_ok str_of out e')"

definition relays_ok ::
  "(json \<Rightarrow> string) \<Rightarrow> ('b \<Rightarrow> (string \<times> stream_fields) list) \<Rightarrow> (string \<times> stream_fields) set \<Rightarrow> 'b relay_system \<Rightarrow> bool" where
  "relays_ok str_of delivered old s \<longleftrightarrow>
     list_all (sent_ok str_of (set (delivered (stream s)))) (out_rows s) \<and>
     list_all (relayer_ok str_of (set (delivered (stream s))) (out_rows s)) (relayers s) \<and>
     set (delivered (stream s)) \<subseteq> old \<union> {m. \<exists>e \<in> set (out_rows s). message str_of e = Some m}"

lemma changed_columns_keeps [simp]: "row_id (changed_columns e e' row) = row_id row"
  by (simp add: changed_columns_def)

lemma write_changes_ids [simp]: "map row_id (write_changes cs es) = map row_id es"
proof (induction cs es rule: write_changes.induct)
  case (2 n e e' cs es)
  have "map row_id (es[n := changed_columns e e' (es ! n)]) = map row_id es"
    by (cases "n < length es") (simp_all add: map_update list_update_beyond list_update_same_conv)
  with 2 show ?case by simp
qed simp

lemma write_changes_sent:
  assumes "list_all (sent_ok str_of out) es"
    and "\<forall>(n, e, e') \<in> set cs. n < length es \<and> row_id (es ! n) = row_id e' \<and> sent_ok str_of out e'"
  shows "list_all (sent_ok str_of out) (write_changes cs es)"
  using assms
proof (induction cs es rule: write_changes.induct)
  case (2 n e e' cs es)
  let ?row = "changed_columns e e' (es ! n)"
  have n: "n < length es" "row_id (es ! n) = row_id e'" "sent_ok str_of out e'" using "2.prems"(2) by auto
  have "sent_ok str_of out (es ! n)" using "2.prems"(1) n(1) by (simp add: list_all_length)
  with n(2,3) have row: "sent_ok str_of out ?row"
    using message_row_id [of ?row "es ! n"] message_row_id [of "es ! n" e']
    by (auto simp: sent_ok_def changed_columns_def split: if_splits)
  have ids: "row_id (es[n := ?row] ! k) = row_id (es ! k)" for k
    by (cases "k = n") (simp_all add: n(1))
  have "list_all (sent_ok str_of out) (es[n := ?row])"
    using "2.prems"(1) row set_update_subset_insert [of es n ?row] by (auto simp: list_all_iff)
  moreover have "\<forall>(k, e, e') \<in> set cs. k < length (es[n := ?row]) \<and> row_id (es[n := ?row] ! k) = row_id e' \<and> sent_ok str_of out e'"
    using "2.prems"(2) unfolding ids by auto
  ultimately show ?case by (simp add: "2.IH")
qed simp

lemma relayer_ok_rows:
  assumes "relayer_ok str_of out es w" and "map row_id es = take (length es) (map row_id es')" and "out \<subseteq> out'"
  shows "relayer_ok str_of out' es' w"
proof -
  have same: "n < length es' \<and> row_id (es' ! n) = row_id (es ! n)" if "n < length es" for n
  proof -
    have "length (take (length es) (map row_id es')) = length es" unfolding assms(2) [symmetric] by simp
    then have "length es \<le> length es'" by simp
    moreover from that have "map row_id es ! n = take (length es) (map row_id es') ! n" using assms(2) by simp
    ultimately show ?thesis using that by simp
  qed
  show ?thesis using assms(1) sent_ok_mono [OF _ assms(3)] same unfolding relayer_ok_def by fastforce
qed

lemma relay_entry_sent:
  assumes "appends xadd delivered" and "relay_entry xadd str_of now e b = (sent, e', b')" and "oe_status e = PENDING"
  shows "row_id e' = row_id e" and "sent_ok str_of (set (delivered b')) e'" and "set (delivered b) \<subseteq> set (delivered b')"
    and "set (delivered b') \<subseteq> set (delivered b) \<union> {m. message str_of e = Some m}"
proof -
  have "row_id e' = row_id e \<and> sent_ok str_of (set (delivered b')) e' \<and> set (delivered b) \<subseteq> set (delivered b') \<and>
    set (delivered b') \<subseteq> set (delivered b) \<union> {m. message str_of e = Some m}"
  proof (cases "json_loads (oe_payload e)")
    case (Inl err)
    with assms(2,3) show ?thesis by (auto simp: relay_entry_def sent_ok_def Let_def split: if_splits)
  next
    case (Inr p)
    obtain r b1 where pub: "publish_sync xadd str_of (stream_name e) p b = (r, b1)" by fastforce
    have "case r of Inr i \<Rightarrow> delivered b1 = delivered b @ [(stream_name e, map (\<lambda>(k, v). (k, flatten str_of v)) p)]
        | Inl err \<Rightarrow> delivered b1 = delivered b \<or>
            delivered b1 = delivered b @ [(stream_name e, map (\<lambda>(k, v). (k, flatten str_of v)) p)]"
      using assms(1) pub unfolding publish_sync_def appends_def by blast
    then show ?thesis
      using assms(2,3) Inr pub by (cases r) (auto simp: relay_entry_def sent_ok_def Let_def message_def split: if_splits)
  qed
  then show "row_id e' = row_id e" and "sent_ok str_of (set (delivered b')) e'" and "set (delivered b) \<subseteq> set (delivered b')"
    and "set (delivered b') \<subseteq> set (delivered b) \<union> {m. message str_of e = Some m}" by blast+
qed

lemma query_pending_loaded:
  "(n, e) \<in> set (query_pending batch es) \<Longrightarrow> n < length es \<and> es ! n = e \<and> oe_status e = PENDING"
  using set_take_subset [of batch "filter (\<lambda>(n, e). oe_status e = PENDING) (enumerate 0 es)"]
  by (fastforce simp: query_pending_def in_set_enumerate_eq)

lemma list_all_relayers:
  assumes "list_all P ws" and "P w" shows "list_all P (ws[i := w])"
  using assms set_update_subset_insert [of ws i w] by (auto simp: list_all_iff)

lemma relay_act_ok:
  assumes "appends xadd delivered" and "relays_ok str_of delivered old s"
  shows "relays_ok str_of delivered old (relay_act xadd str_of a s) \<and>
    map row_id (out_rows s) = take (length (out_rows s)) (map row_id (out_rows (relay_act xadd str_of a s)))"
proof -
  let ?out = "set (delivered (stream s))" and ?es = "out_rows s" and ?s' = "relay_act xadd str_of a s"
  have sent: "list_all (sent_ok str_of ?out) ?es" and ws: "list_all (relayer_ok str_of ?out ?es) (relayers s)"
    and known: "?out \<subseteq> old \<union> {m. \<exists>e \<in> set ?es. message str_of e = Some m}"
    using assms(2) by (simp_all add: relays_ok_def)
  have w: "relayer_ok str_of ?out ?es (relayers s ! i)" if "i < length (relayers s)" for i
    using ws that by (simp add: list_all_length)
  show ?thesis
  proof (cases a)
    case (Query i batch)
    have "relayer_ok str_of ?out ?es \<lparr>loaded = query_pending batch ?es, handled = []\<rparr>"
      using query_pending_loaded by (auto simp: relayer_ok_def)
    with Query sent ws known show ?thesis by (simp add: relays_ok_def list_all_relayers)
  next
    case (Publish i now)
    show ?thesis
    proof (cases "i < length (relayers s) \<and> loaded (relayers s ! i) \<noteq> []")
      case True
      then obtain n e todo where todo: "loaded (relayers s ! i) = (n, e) # todo" by (cases "loaded (relayers s ! i)") auto
      obtain ok e' b' where e': "relay_entry xadd str_of now e (stream s) = (ok, e', b')" by (metis prod_cases3)
      have s': "?s' = set_relayer i \<lparr>loaded = todo, handled = handled (relayers s ! i) @ [(n, e, e')]\<rparr> (s\<lparr>stream := b'\<rparr>)"
        using True Publish todo e' by simp
      from True have wi: "relayer_ok str_of ?out ?es (relayers s ! i)" by (intro w) simp
      then have n: "n < length ?es" "row_id (?es ! n) = row_id e" "oe_status e = PENDING"
        by (simp_all add: relayer_ok_def todo)
      note entry = relay_entry_sent [OF assms(1) e' n(3)]
      have mono: "relayer_ok str_of (set (delivered b')) ?es v" if "relayer_ok str_of ?out ?es v" for v
        using relayer_ok_rows [OF that _ entry(3)] by simp
      have "relayer_ok str_of (set (delivered b')) ?es \<lparr>loaded = todo, handled = handled (relayers s ! i) @ [(n, e, e')]\<rparr>"
        using mono [OF wi] n entry(1,2) by (auto simp: relayer_ok_def todo)
      moreover have "list_all (relayer_ok str_of (set (delivered b')) ?es) (relayers s)" using ws mono by (auto simp: list_all_iff)
      moreover have "list_all (sent_ok str_of (set (delivered b'))) ?es" using sent sent_ok_mono [OF _ entry(3)] by (auto simp: list_all_iff)
      moreover have here: "{m. message str_of e = Some m} \<subseteq> {m. \<exists>e \<in> set ?es. message str_of e = Some m}"
        using message_row_id [OF n(2), of str_of] by (auto intro: bexI [OF _ nth_mem [OF n(1)]])
      then have "set (delivered b') \<subseteq> old \<union> {m. \<exists>e \<in> set ?es. message str_of e = Some m}"
        using known entry(4) here by blast
      ultimately show ?thesis unfolding s' by (simp add: relays_ok_def list_all_relayers)
    next
      case False
      with Publish have "?s' = s" by auto
      with assms(2) show ?thesis by simp
    qed
  next
    case (Commit i success)
    show ?thesis
    proof (cases "i < length (relayers s) \<and> loaded (relayers s ! i) = [] \<and> success")
      case True
      let ?new = "write_changes (handled (relayers s ! i)) ?es"
      have sent': "list_all (sent_ok str_of ?out) ?new"
        by (rule write_changes_sent [OF sent]) (use w [of i] True in \<open>simp add: relayer_ok_def\<close>)
      have ids: "map row_id ?es = take (length ?es) (map row_id ?new)" by simp
      have "list_all (relayer_ok str_of ?out ?new) (relayers s)"
        using ws relayer_ok_rows [OF _ ids order_refl] by (auto simp: list_all_iff)
      moreover have "{m. \<exists>e \<in> set ?es. message str_of e = Some m} \<subseteq> {m. \<exists>e \<in> set ?new. message str_of e = Some m}"
      proof clarify
        fix m e assume "e \<in> set ?es" and m: "message str_of e = Some m"
        then have "row_id e \<in> row_id ` set ?es" by blast
        then have "row_id e \<in> row_id ` set ?new" unfolding set_map [symmetric] write_changes_ids .
        then obtain e' where "e' \<in> set ?new" "row_id e = row_id e'" by blast
        with message_row_id [OF this(2)] m show "\<exists>e \<in> set ?new. message str_of e = Some m" by metis
      qed
      then have "?out \<subseteq> old \<union> {m. \<exists>e \<in> set ?new. message str_of e = Some m}" using known by blast
      ultimately show ?thesis using Commit True sent' by (simp add: relays_ok_def list_all_relayers relayer_ok_def)
    next
      case False
      with Commit sent ws known show ?thesis by (auto simp: relays_ok_def list_all_relayers relayer_ok_def)
    qed
  next
    case (Write uuid ty name payload eid)
    let ?new = "write_outbox_event uuid ty name payload eid ?es"
    obtain e where new: "?new = ?es @ [e]" "oe_status e = PENDING" by (simp add: write_outbox_event_def)
    have "list_all (relayer_ok str_of ?out ?new) (relayers s)"
      using ws relayer_ok_rows [of str_of ?out ?es _ ?new ?out] new(1) by (auto simp: list_all_iff)
    then have "relays_ok str_of delivered old (s\<lparr>out_rows := ?new\<rparr>)"
      unfolding relays_ok_def using sent known new(2) by (auto simp: new(1) sent_ok_def)
    with Write new(1) show ?thesis by simp
  qed
qed

lemma relay_acts_ok:
  assumes "appends xadd delivered" and "relays_ok str_of delivered old s"
  shows "relays_ok str_of delivered old (relay_acts xadd str_of as s) \<and>
    map row_id (out_rows s) = take (length (out_rows s)) (map row_id (out_rows (relay_acts xadd str_of as s)))"
  using assms(2)
proof (induction "as" arbitrary: s)
  case (Cons a "as")
  note step = relay_act_ok [OF assms(1) Cons.prems, of a]
  from Cons.IH [OF conjunct1 [OF step]] have IH: "relays_ok str_of delivered old (relay_acts xadd str_of (a # as) s)"
      "map row_id (out_rows (relay_act xadd str_of a s)) =
       take (length (out_rows (relay_act xadd str_of a s))) (map row_id (out_rows (relay_acts xadd str_of (a # as) s)))"
    by (simp_all add: relay_acts_def)
  have "length (out_rows s) \<le> length (out_rows (relay_act xadd str_of a s))"
    using arg_cong [OF conjunct2 [OF step], of length] by simp
  then have "take (length (out_rows s)) (map row_id (out_rows (relay_act xadd str_of a s))) =
      take (length (out_rows s)) (map row_id (out_rows (relay_acts xadd str_of (a # as) s)))"
    unfolding IH(2) take_take by (simp only: min.absorb1)
  with step have "map row_id (out_rows s) = take (length (out_rows s)) (map row_id (out_rows (relay_acts xadd str_of (a # as) s)))"
    by (simp only:)
  with IH(1) show ?case by blast
qed (simp add: relay_acts_def)

section \<open>Properties\<close>

text \<open>
  C9: Any number of relays deliver at least once. However the queries, publications and commits of the relays interleave
  with each other and with the services that write events, and whatever fails, no row is lost or altered in its id, stream
  and payload, every published row has its event among the delivered entries, and every entry delivered is the event of a row.\<close>

theorem concurrent_relays_deliver:
  assumes "appends xadd delivered" and "\<forall>e \<in> set es. oe_status e = PENDING"
    and "t = relay_acts xadd str_of as (idle_relays k es b)"
  shows "map row_id es = take (length es) (map row_id (out_rows t)) \<and>
    (\<forall>e \<in> set (out_rows t). oe_status e = PUBLISHED \<longrightarrow> (\<exists>m \<in> set (delivered (stream t)). message str_of e = Some m)) \<and>
    (\<forall>m \<in> set (delivered (stream t)). m \<in> set (delivered b) \<or> (\<exists>e \<in> set (out_rows t). message str_of e = Some m))"
proof -
  have "relays_ok str_of delivered (set (delivered b)) (idle_relays k es b)"
    using assms(2) by (auto simp: relays_ok_def idle_relays_def sent_ok_def relayer_ok_def list_all_iff)
  from relay_acts_ok [OF assms(1) this, of "as"] show ?thesis
    unfolding assms(3) [symmetric] by (auto simp: relays_ok_def sent_ok_def list_all_iff idle_relays_def)
qed

text \<open>
  C10: Two relays do not share the work. Of one pending event, two relays that poll before either commits publish both, where
  the second would find nothing to do after the commit of the first; and a relay whose last attempt fails marks as failed an
  event that the other has delivered and marked as published.\<close>

theorem overlapping_relays_repeat:
  assumes "appends xadd delivered" and "available xadd" and "oe_status e = PENDING" and "message str_of e = Some m"
    and "0 < n" and "0 < n'"
  shows "delivered (stream (relay_acts xadd str_of [Query 0 n, Query 1 n', Publish 0 t, Publish 1 t', Commit 0 True, Commit 1 True]
      (idle_relays 2 [e] b))) = delivered b @ [m, m] \<and>
    delivered (stream (relay_acts xadd str_of [Query 0 n, Publish 0 t, Commit 0 True, Query 1 n', Publish 1 t', Commit 1 True]
      (idle_relays 2 [e] b))) = delivered b @ [m] \<and>
    (let s = relay_acts stub_xadd str_of [Query 0 n, Query 1 n', Publish 0 t, Publish 1 t', Commit 1 True, Commit 0 True]
           (idle_relays 2 [e\<lparr>retry_count := 4\<rparr>] \<lparr>entries = [], failures = 1\<rparr>)
     in entries (stream s) = [m] \<and> map oe_status (out_rows s) = [OUTBOX_FAILED])"
proof -
  have one: "take n [x] = [x]" "take n' [x] = [x]" for x :: "nat \<times> outbox_event" using assms(5,6) by simp_all
  note defs = relay_acts_def idle_relays_def query_pending_def enumerate_eq_zip assms(3) one
  obtain b1 where b1: "relay_entry xadd str_of t e b = (True, e\<lparr>oe_status := PUBLISHED, published_at := Some t\<rparr>, b1)"
      "delivered b1 = delivered b @ [m]"
    using relay_entry_available [OF assms(1,2,4), of t b] by blast
  obtain b2 where b2: "relay_entry xadd str_of t' e b1 = (True, e\<lparr>oe_status := PUBLISHED, published_at := Some t'\<rparr>, b2)"
      "delivered b2 = delivered b1 @ [m]"
    using relay_entry_available [OF assms(1,2,4), of t' b1] by blast
  have "delivered (stream (relay_acts xadd str_of [Query 0 n, Query 1 n', Publish 0 t, Publish 1 t', Commit 0 True, Commit 1 True]
      (idle_relays 2 [e] b))) = delivered b @ [m, m]"
    using b1 b2 by (simp add: defs eval_nat_numeral)
  moreover have "delivered (stream (relay_acts xadd str_of [Query 0 n, Publish 0 t, Commit 0 True, Query 1 n', Publish 1 t', Commit 1 True]
      (idle_relays 2 [e] b))) = delivered b @ [m]"
    using b1 by (simp add: defs changed_columns_def eval_nat_numeral)
  moreover have "let s = relay_acts stub_xadd str_of [Query 0 n, Query 1 n', Publish 0 t, Publish 1 t', Commit 1 True, Commit 0 True]
      (idle_relays 2 [e\<lparr>retry_count := 4\<rparr>] \<lparr>entries = [], failures = 1\<rparr>)
    in entries (stream s) = [m] \<and> map oe_status (out_rows s) = [OUTBOX_FAILED]"
    using assms(4)
    by (auto simp: defs changed_columns_def eval_nat_numeral relay_entry_def publish_sync_def stub_xadd_def message_def Let_def
        split: sum.splits)
  ultimately show ?thesis by blast
qed

section \<open>Witnesses\<close>

abbreviation one_event :: "outbox_event list" where
  "one_event \<equiv> write_outbox_event ''e1'' ''t'' ''s'' [] None []"

theorem concurrent_relays_deliver_witness:
  "let t = relay_acts list_xadd (\<lambda>_. []) [Query 0 1, Write ''e2'' ''t'' ''s'' [] None, Query 1 9, Publish 0 0, Publish 1 0,
       Publish 1 0, Commit 1 True, Commit 0 False] (idle_relays 2 one_event [])
   in map oe_status (out_rows t) = [PUBLISHED, PUBLISHED] \<and> length (stream t) = 3 \<and>
     (\<forall>e \<in> set (out_rows t). oe_status e = PUBLISHED \<longrightarrow> (\<exists>m \<in> set (stream t). message (\<lambda>_. []) e = Some m))"
proof -
  let ?t = "relay_acts list_xadd (\<lambda>_. []) [Query 0 1, Write ''e2'' ''t'' ''s'' [] None, Query 1 9, Publish 0 0, Publish 1 0,
       Publish 1 0, Commit 1 True, Commit 0 False] (idle_relays 2 one_event [])"
  have "map oe_status (out_rows ?t) = [PUBLISHED, PUBLISHED] \<and> length (stream ?t) = 3" by code_simp
  moreover have "\<forall>e \<in> set one_event. oe_status e = PENDING" by (simp add: write_outbox_event_def)
  note concurrent_relays_deliver [OF conjunct1 [OF list_available] this refl]
  ultimately show ?thesis unfolding Let_def by blast
qed

theorem overlapping_relays_repeat_witness:
  "stream (relay_acts list_xadd (\<lambda>_. []) [Query 0 50, Query 1 50, Publish 0 0, Publish 1 0, Commit 0 True, Commit 1 True]
     (idle_relays 2 one_event [])) = [(''s'', []), (''s'', [])]"
proof -
  obtain e where e: "one_event = [e]" "oe_status e = PENDING" "message (\<lambda>_. []) e = Some (''s'', [])"
    by (simp add: write_outbox_event_def message_def)
  from overlapping_relays_repeat [OF conjunct1 [OF list_available] conjunct2 [OF list_available] e(2,3), of 50 50 0 0 "[]"]
  show ?thesis unfolding e(1) by simp
qed

end
