(* ===== verification/Settings.thy ===== *)
theory Settings
  imports Prelude
begin

text \<open>
  The settings of the services, \<^verbatim>\<open>core/config.py\<close>. The schema library reads the environment and the file \<^verbatim>\<open>.env\<close>: what it
  finds for the name of a field is the parameter \<open>env\<close>, its readings of booleans and numbers are parameters as well. A
  field that is not set has its default, a value that cannot be read refuses the start.
\<close>

section \<open>Reading a field\<close>

record settings_lib =
  read_bool :: "string \<Rightarrow> bool option"
  read_int :: "string \<Rightarrow> int option"
  read_float :: "string \<Rightarrow> rat option"

definition field_value :: "(string \<Rightarrow> string option) \<Rightarrow> (string \<Rightarrow> 'a option) \<Rightarrow> string \<Rightarrow> 'a \<Rightarrow> 'a option" where
  "field_value env parse name dflt = (case env name of None \<Rightarrow> Some dflt | Some t \<Rightarrow> parse t)"

definition text_value :: "(string \<Rightarrow> string option) \<Rightarrow> string \<Rightarrow> string \<Rightarrow> string" where
  "text_value env name dflt = (case env name of None \<Rightarrow> dflt | Some t \<Rightarrow> t)"

section \<open>The settings\<close>

record base_settings =
  set_service_name :: string
  set_environment :: string
  set_debug :: bool
  set_host :: string
  set_port :: int
  set_log_level :: string
  set_redis_url :: string
  set_database_url :: "string option"
  set_mlflow_tracking_uri :: "string option"

record eta_settings = base_settings +
  set_model_artifact_path :: string
  set_preprocessor_artifact_path :: string
  set_power_transformer_artifact_path :: string
  set_model_alias :: string
  set_prediction_interval_margin :: rat

text \<open>\<^verbatim>\<open>BaseServiceSettings\<close> with the two defaults that a subclass may replace.\<close>

definition BaseServiceSettings :: "settings_lib \<Rightarrow> (string \<Rightarrow> string option) \<Rightarrow> string \<Rightarrow> int \<Rightarrow> base_settings option" where
  "BaseServiceSettings lib env default_name default_port =
     (case (field_value env (read_bool lib) ''debug'' False, field_value env (read_int lib) ''port'' default_port) of
            (Some debug, Some port) \<Rightarrow>
              Some \<lparr>set_service_name = text_value env ''service_name'' default_name, set_environment = text_value env ''environment'' ''development'',
                    set_debug = debug, set_host = text_value env ''host'' ''0.0.0.0'', set_port = port,
                    set_log_level = text_value env ''log_level'' ''INFO'', set_redis_url = text_value env ''redis_url'' ''redis://localhost:6379/0'',
                    set_database_url = env ''database_url'', set_mlflow_tracking_uri = env ''mlflow_tracking_uri''\<rparr>
          | _ \<Rightarrow> None)"

definition base_service_settings :: "settings_lib \<Rightarrow> (string \<Rightarrow> string option) \<Rightarrow> base_settings option" where
  "base_service_settings lib env = BaseServiceSettings lib env ''deliveriq-service'' 8000"

definition ETAServiceSettings :: "settings_lib \<Rightarrow> (string \<Rightarrow> string option) \<Rightarrow> eta_settings option" where
  "ETAServiceSettings lib env =
     (case (BaseServiceSettings lib env ''eta-service'' 8000, field_value env (read_float lib) ''prediction_interval_margin'' 4) of
            (Some b, Some margin) \<Rightarrow>
              Some (base_settings.extend b
                (eta_settings.fields (text_value env ''model_artifact_path'' ''models/model.joblib'')
                  (text_value env ''preprocessor_artifact_path'' ''models/preprocessor.joblib'')
                  (text_value env ''power_transformer_artifact_path'' ''models/power_transformer.joblib'')
                  (text_value env ''model_alias'' ''champion'') margin))
          | _ \<Rightarrow> None)"

section \<open>Lemmas\<close>

lemma field_value_None: "field_value env parse name dflt = None \<longleftrightarrow> (\<exists>t. env name = Some t \<and> parse t = None)"
  by (simp add: field_value_def split: option.split)

lemma eta_settings_eq:
  assumes "field_value env (read_bool lib) ''debug'' False = d" and "field_value env (read_int lib) ''port'' 8000 = p"
    and "field_value env (read_float lib) ''prediction_interval_margin'' 4 = m"
  shows "ETAServiceSettings lib env = None \<longleftrightarrow> d = None \<or> p = None \<or> m = None"
    and "ETAServiceSettings lib env = Some st \<Longrightarrow>
      set_service_name st = text_value env ''service_name'' ''eta-service'' \<and> d = Some (set_debug st) \<and> p = Some (set_port st) \<and>
      m = Some (set_prediction_interval_margin st) \<and>
      set_model_artifact_path st = text_value env ''model_artifact_path'' ''models/model.joblib''"
  using assms
  by (cases d; cases p; cases m;
      fastforce simp: ETAServiceSettings_def BaseServiceSettings_def base_settings.extend_def eta_settings.fields_def)+

text \<open>The start is refused exactly when one of the three fields that are not text is set to a text that cannot be read.\<close>

lemma eta_settings_refused:
  "ETAServiceSettings lib env = None \<longleftrightarrow>
     (\<exists>t. env ''debug'' = Some t \<and> read_bool lib t = None) \<or> (\<exists>t. env ''port'' = Some t \<and> read_int lib t = None) \<or>
     (\<exists>t. env ''prediction_interval_margin'' = Some t \<and> read_float lib t = None)"
  unfolding eta_settings_eq(1) [OF refl refl refl] field_value_None ..

text \<open>
  The defaults of the ETA service replace those of the base class, and the environment replaces both. The names of the fields
  have no prefix, so services that share an environment share its values.\<close>

lemma eta_settings_environment:
  assumes "ETAServiceSettings lib env = Some st"
  shows "set_service_name st = (case env ''service_name'' of None \<Rightarrow> ''eta-service'' | Some t \<Rightarrow> t)"
    and "env ''port'' = None \<Longrightarrow> set_port st = 8000" and "env ''port'' = Some t \<Longrightarrow> read_int lib t = Some (set_port st)"
    and "env ''prediction_interval_margin'' = None \<Longrightarrow> set_prediction_interval_margin st = 4"
    and "env ''prediction_interval_margin'' = Some t \<Longrightarrow> read_float lib t = Some (set_prediction_interval_margin st)"
  using eta_settings_eq(2) [OF refl refl refl assms] by (simp_all add: text_value_def field_value_def)

end
