(* ===== verification/Sample_Request.thy ===== *)
theory Sample_Request
  imports Settings Eta
begin

text \<open>
  The script \<^verbatim>\<open>scripts/sample_predictions.py\<close>, which posts one row of the raw data to the prediction endpoint, and the
  endpoint under the settings it is started with. The CSV row is an argument (the row \<^verbatim>\<open>pandas\<close> drew), the HTTP call a
  parameter; what is printed is kept as a list.
\<close>

section \<open>The script\<close>

datatype printed = TargetValue string | RowData json_dict | StatusCode nat | PredictionValue rat | ErrorStatus nat

text \<open>
  \<open>strip_min\<close> is \<^verbatim>\<open>replace("(min) ", "")\<close>, \<open>post\<close> the request with its status and text, \<open>to_float\<close> Python's \<^verbatim>\<open>float\<close> on a text. A
  target that is no text has no \<^verbatim>\<open>replace\<close>.
\<close>

definition without_target :: "json_dict \<Rightarrow> json_dict" where
  "without_target row = filter (\<lambda>(c, v). c \<noteq> fst (last row)) row"

definition sample_predictions ::
  "(string \<Rightarrow> string) \<Rightarrow> (string \<Rightarrow> rat option) \<Rightarrow> (json_dict \<Rightarrow> nat \<times> string) \<Rightarrow> json_dict \<Rightarrow> printed list \<times> unit outcome" where
  "sample_predictions strip_min to_float post row =
     (case snd (last row) of
        JStr target \<Rightarrow>
          (let data = without_target row;
               (code, text) = post data;
               out = [TargetValue (strip_min target), RowData data, StatusCode code]
           in if code = 200 then
                (case to_float text of
                   Some x \<Rightarrow> (out @ [PredictionValue x], Inr ())
                 | None \<Rightarrow> (out, Inl (ValueError (''could not convert string to float: '' @ text))))
              else (out @ [ErrorStatus code], Inr ()))
      | _ \<Rightarrow> ([], Inl (AttributeError ''replace'')))"

section \<open>What it prints\<close>

text \<open>
  The raw columns are not the fields of the contract: \<^verbatim>\<open>Delivery_person_Age\<close> is not \<^verbatim>\<open>age\<close>. So the endpoint refuses the row,
  whatever model is loaded, and the script reports the error 422. It would not print a prediction that did arrive either: the
  text of an answer is a JSON object and no number.\<close>

lemma raw_row_refused:
  assumes "map_of d ''age'' = None" and "coerce_float lib JNull = None"
  shows "status_code (serve_predict lib pd run_pipeline margin elapsed cid st d) = 422"
proof -
  have "float_field lib d ''age'' = None" using assms by (simp add: float_field_def dict_get_or_def)
  then have "decode_request lib d = None" by (simp add: decode_request_def split: option.split)
  then show ?thesis by (simp add: serve_predict_def)
qed

lemma sample_never_predicts:
  assumes "\<And>d. to_float (render (d :: json_dict)) = None"
    and "\<And>d. \<exists>r :: http_response. post d = (status_code r, render (body_json r))"
  shows "PredictionValue x \<notin> set (fst (sample_predictions strip_min to_float post row))"
proof -
  obtain r :: http_response where "post (without_target row) = (status_code r, render (body_json r))" using assms(2) [of "without_target row"] by blast
  with assms(1) show ?thesis by (simp add: sample_predictions_def Let_def split: json.split)
qed

lemma sample_reports_error:
  assumes "map_of row ''age'' = None" and "coerce_float lib JNull = None" and "snd (last row) = JStr target"
    and "post = (\<lambda>d. let r = serve_predict lib pd run_pipeline margin elapsed cid st d in (status_code r, render (body_json r)))"
  shows "last (fst (sample_predictions strip_min to_float post row)) = ErrorStatus 422"
proof -
  have "map_of (without_target row) ''age'' = None" using assms(1) by (auto simp: without_target_def map_of_eq_None_iff)
  from raw_row_refused [OF this assms(2), of pd run_pipeline margin elapsed cid st] show ?thesis
    by (simp add: sample_predictions_def assms(3,4) Let_def)
qed

section \<open>The endpoint under its settings\<close>

text \<open>\<^verbatim>\<open>predict\<close> reads the margin from the settings the process was started with.\<close>

definition predict_with ::
  "eta_settings \<Rightarrow> pandas \<Rightarrow> ('pipe \<Rightarrow> row \<Rightarrow> rat outcome) \<Rightarrow> rat \<Rightarrow> string option \<Rightarrow> 'pipe model_state \<Rightarrow> order_prediction_request \<Rightarrow>
   prediction_response outcome" where
  "predict_with settings pd run_pipeline elapsed cid st r = predict pd run_pipeline (set_prediction_interval_margin settings) elapsed cid st r"

text \<open>
  With the default margin the fallback is answered as 32 minutes between 28 and 36. The margin is read without a bound: with
  \<^verbatim>\<open>PREDICTION_INTERVAL_MARGIN=-3\<close> the same answer is 32 minutes between 35 and 37.\<close>

lemma fallback_interval:
  fixes run_pipeline :: "'pipe \<Rightarrow> row \<Rightarrow> rat outcome"
  assumes "pandas_ok pd" and "ETAServiceSettings lib env = Some settings"
    and "predict_with settings pd run_pipeline elapsed cid initial_model_state r = Inr p"
  shows "env ''prediction_interval_margin'' = None \<Longrightarrow> ps_lower_bound p = 28 \<and> ps_eta_minutes p = 32 \<and> ps_upper_bound p = 36"
    and "env ''prediction_interval_margin'' = Some t \<Longrightarrow> read_float lib t = Some (- 3) \<Longrightarrow>
      ps_lower_bound p = 35 \<and> ps_eta_minutes p = 32 \<and> ps_upper_bound p = 37"
proof -
  let ?m = "set_prediction_interval_margin settings"
  obtain row where "normalise_for_inference pd (request_row r) = Inr row" and "predict pd run_pipeline ?m elapsed cid initial_model_state r =
      (let (eta, deg) = estimate run_pipeline initial_model_state row; lower = max 5 (py_round 1 (eta - ?m))
       in Inr \<lparr>ps_eta_minutes = py_round 1 eta, ps_lower_bound = lower, ps_upper_bound = max (lower + 2) (py_round 1 (eta + ?m)),
               ps_model_version = ms_model_version (initial_model_state :: 'pipe model_state), ps_feature_schema_version = FEATURE_SCHEMA_VERSION,
               ps_degraded = deg, ps_latency_ms = py_round 2 (elapsed * 1000), ps_request_id = cid\<rparr>)"
    by (rule predict_eq [OF assms(1), of r run_pipeline ?m elapsed cid initial_model_state])
  with assms(3) have p: "ps_lower_bound p = max 5 (py_round 1 (32 - ?m))" "ps_eta_minutes p = py_round 1 32"
      "ps_upper_bound p = max (max 5 (py_round 1 (32 - ?m)) + 2) (py_round 1 (32 + ?m))"
    by (auto simp: predict_with_def estimate_def initial_model_state_def Let_def)
  have round: "py_round 1 (of_int z :: rat) = of_int z" for z by (rule py_round_of_int)
  note rounds = round [of 28, simplified] round [of 32, simplified] round [of 36, simplified] round [of 35, simplified] round [of 29, simplified]
  show "env ''prediction_interval_margin'' = None \<Longrightarrow> ps_lower_bound p = 28 \<and> ps_eta_minutes p = 32 \<and> ps_upper_bound p = 36"
    using p eta_settings_environment(4) [OF assms(2)] by (simp add: rounds)
  show "env ''prediction_interval_margin'' = Some t \<Longrightarrow> read_float lib t = Some (- 3) \<Longrightarrow>
      ps_lower_bound p = 35 \<and> ps_eta_minutes p = 32 \<and> ps_upper_bound p = 37"
    using p eta_settings_environment(5) [OF assms(2), of t] by (simp add: rounds)
qed

end
