(* ===== verification/Saga_Crash.thy ===== *)
theory Saga_Crash
  imports Saga "HOL-Library.Sublist"
begin

text \<open>
  The orchestrator going down in the middle of a saga (\<^verbatim>\<open>services/orchestrator/saga_state_machine.py\<close>). The events of a run are
  in its trace; a crash leaves a prefix of them, the database what the last commit of the prefix wrote, and the services
  what the calls of the prefix did. Nothing in the program resumes a saga, so what can be told afterwards is what the row
  says; this theory shows what that is.
\<close>

section \<open>What a crash leaves\<close>

text \<open>The state of the saga's row after a crash: that of the last transition before the last commit, none before the first.\<close>

fun row_state :: "saga_state \<Rightarrow> saga_state option \<Rightarrow> saga_event list \<Rightarrow> saga_state option" where
  "row_state s d [] = d"
| "row_state s d (Transitioned s' # es) = row_state s' d es"
| "row_state s d (Committed # es) = row_state s (Some s) es"
| "row_state s d (Called c # es) = row_state s d es"

abbreviation durable_state :: "saga_event list \<Rightarrow> saga_state option" where
  "durable_state \<equiv> row_state CREATED None"

text \<open>The calls that move money or stock.\<close>

datatype effect_kind = Authorizes | Reserves | Refunds

fun effect_kinds :: "saga_call list \<Rightarrow> effect_kind list" where
  "effect_kinds [] = []"
| "effect_kinds (CallAuthorize oid amt k # cs) = Authorizes # effect_kinds cs"
| "effect_kinds (CallReserve oid is k # cs) = Reserves # effect_kinds cs"
| "effect_kinds (CallRefund oid p k # cs) = Refunds # effect_kinds cs"
| "effect_kinds (CallPredict d # cs) = effect_kinds cs"
| "effect_kinds (CallUpdateStatus d # cs) = effect_kinds cs"

lemma effect_kinds_append [simp]: "effect_kinds (xs @ ys) = effect_kinds xs @ effect_kinds ys"
  by (induction xs rule: effect_kinds.induct) simp_all

text \<open>What the row in a state says about the calls made: all but the call of that state itself, which may or may not have been made.\<close>

fun calls_told :: "saga_state \<Rightarrow> effect_kind list list" where
  "calls_told PAYMENT_PENDING = [[], [Authorizes]]"
| "calls_told PAYMENT_OK = [[Authorizes]]"
| "calls_told INVENTORY_PENDING = [[Authorizes], [Authorizes, Reserves]]"
| "calls_told REFUNDING = [[Authorizes, Reserves], [Authorizes, Reserves, Refunds]]"
| "calls_told MANUAL_REVIEW = [[Authorizes, Reserves, Refunds]]"
| "calls_told CANCELLED = [[Authorizes], [Authorizes, Reserves], [Authorizes, Reserves, Refunds]]"
| "calls_told CREATED = []"
| "calls_told PAYMENT_FAILED = []"
| "calls_told REFUNDED = []"
| "calls_told ETA_OK = []"
| "calls_told ETA_FAILED = []"
| "calls_told s = [[Authorizes, Reserves]]"

definition crash_fits :: "saga_state option \<Rightarrow> effect_kind list \<Rightarrow> bool" where
  "crash_fits d ks \<longleftrightarrow> (case d of None \<Rightarrow> ks = [] | Some s \<Rightarrow> ks \<in> set (calls_told s))"

section \<open>Every prefix of a run\<close>

fun event_step :: "saga_event \<Rightarrow> saga_state \<times> saga_state option \<times> effect_kind list \<Rightarrow> saga_state \<times> saga_state option \<times> effect_kind list" where
  "event_step (Transitioned s') (s, d, ks) = (s', d, ks)"
| "event_step Committed (s, d, ks) = (s, Some s, ks)"
| "event_step (Called c) (s, d, ks) = (s, d, ks @ effect_kinds [c])"

abbreviation reading :: "saga_event list \<Rightarrow> saga_state \<times> saga_state option \<times> effect_kind list" where
  "reading es \<equiv> fold event_step es (CREATED, None, [])"

lemma reading_row: "fst (snd (fold event_step es (s, d, ks))) = row_state s d es"
  by (induction s d es arbitrary: ks rule: row_state.induct) auto

lemma reading_calls: "snd (snd (fold event_step es (s, d, ks))) = ks @ effect_kinds (calls es)"
proof (induction es arbitrary: s d ks)
  case (Cons e es)
  have "effect_kinds (c # cs) = effect_kinds [c] @ effect_kinds cs" for c cs
    by (cases c) simp_all
  from this [of _ "calls es"] Cons.IH show ?case by (cases e) auto
qed simp

definition crash_safe :: "saga_event list \<Rightarrow> bool" where
  "crash_safe es \<longleftrightarrow> (\<forall>p. prefix p es \<longrightarrow> crash_fits (fst (snd (reading p))) (snd (snd (reading p))))"

lemma crash_safe_snoc:
  "crash_safe (es @ [e]) \<longleftrightarrow> crash_safe es \<and> crash_fits (fst (snd (reading (es @ [e])))) (snd (snd (reading (es @ [e]))))"
  by (auto simp: crash_safe_def prefix_snoc)

text \<open>A run whose trace is safe so far and which has made the calls \<open>ks\<close>.\<close>

definition told :: "effect_kind list \<Rightarrow> 'w orch \<Rightarrow> bool" where
  "told ks st \<longleftrightarrow> crash_safe (trace st) \<and>
     reading (trace st) = (current_state (cur st), map_option (\<lambda>(row, ls). current_state row) (durable st), ks)"

lemma told_safe: "told ks st \<Longrightarrow> crash_safe (trace st)"
  by (simp add: told_def)

lemma told_transition: "told ks st \<Longrightarrow> told ks (transition env s n ty d st)"
  by (auto simp: told_def transition_def log_step_def Let_def crash_safe_snoc) (auto simp: crash_safe_def)

lemma told_modify: "(\<And>r. current_state (f r) = current_state r) \<Longrightarrow> told ks (modify_cur f st) = told ks st"
  by (simp add: told_def modify_cur_def)

lemma told_complete [simp]: "told ks (complete env st) = told ks st"
  by (simp add: told_def complete_def)

lemma told_committed: "told ks st \<Longrightarrow> ks \<in> set (calls_told (current_state (cur st))) \<Longrightarrow> told ks (committed st)"
  by (simp add: told_def committed_def crash_safe_snoc crash_fits_def)

lemma told_invoke:
  assumes "invoke c f st = (r, st')" and "told ks st" and "synced st"
    and "ks @ effect_kinds [c] \<in> set (calls_told (current_state (cur st)))"
  shows "told (ks @ effect_kinds [c]) st'" and "cur st' = cur st" and "persisted st'" and "synced st'"
  using assms by (auto simp: told_def invoke_def synced_def persisted_def crash_safe_snoc crash_fits_def split: prod.splits)

lemma told_notify:
  assumes "told ks st" and "synced st" and "ks \<in> set (calls_told (current_state (cur st)))"
  shows "told ks (notify_order svc kw st)"
proof (cases "order_update svc")
  case None
  with assms(1) show ?thesis by (simp add: notify_order_def)
next
  case (Some f)
  obtain r st' where inv: "invoke (CallUpdateStatus kw) (f kw) st = (r, st')" by fastforce
  from told_invoke(1) [OF inv assms(1,2)] assms(3) Some inv show ?thesis by (simp add: notify_order_def)
qed

section \<open>The phases\<close>

lemma cancel_saga_told:
  assumes "told ks st" and "persisted st" and "ks \<in> set (calls_told CANCELLED)"
  shows "crash_safe (trace (snd (cancel_saga svc env reason st)))"
  using assms
  by (auto simp: cancel_saga_def then_commit_later return_result_def told_modify
      intro!: told_safe [OF told_notify] told_committed told_transition)

lemma compensate_told:
  assumes "told [Authorizes, Reserves] st" and "persisted st"
  shows "crash_safe (trace (snd (compensate svc env reason st)))"
proof (cases "py_truthy (sg_payment_id (cur st))")
  case True
  let ?st = "committed (transition env REFUNDING ''compensate_refund_start'' COMPENSATE JNull st)"
  have st: "told [Authorizes, Reserves] ?st" by (rule told_committed [OF told_transition [OF assms(1)]]) simp
  let ?key = "generate_idempotency_key (se_sha256 env) [saga_id (cur ?st), ''payment'', ''refund'']"
  obtain r st' where inv: "invoke (CallRefund (sg_order_id (cur ?st)) (sg_payment_id (cur ?st)) ?key)
      (pay_refund svc (sg_order_id (cur ?st)) (sg_payment_id (cur ?st)) ?key) ?st = (r, st')" by fastforce
  have st': "told [Authorizes, Reserves, Refunds] st'" "persisted st'"
    using told_invoke [OF inv st committed_synced] by simp_all
  show ?thesis
  proof (cases r)
    case (Inl e)
    with True inv assms st' show ?thesis
      by (auto simp: compensate_def then_commit_later Let_def return_result_def told_modify
          intro!: told_safe [OF told_committed] told_transition)
  next
    case (Inr d)
    with True inv assms st' show ?thesis
      by (auto simp: compensate_def then_commit_later Let_def told_modify intro!: cancel_saga_told told_transition)
  qed
next
  case False
  with assms show ?thesis by (auto simp: compensate_def intro!: cancel_saga_told)
qed

lemma eta_phase_told:
  assumes "told [Authorizes, Reserves] st" and "persisted st"
  shows "crash_safe (trace (snd (eta_phase svc env data st)))"
proof -
  let ?st = "committed (transition env ETA_PENDING ''eta_request_start'' FORWARD JNull st)"
  have st: "told [Authorizes, Reserves] ?st" by (rule told_committed [OF told_transition [OF assms(1)]]) simp
  obtain a st' where ask: "ask_eta svc data ?st = (a, st')" by fastforce
  have st': "told [Authorizes, Reserves] st' \<and> persisted st'"
  proof (cases "eta_predict svc")
    case None
    with ask st show ?thesis by (auto simp: ask_eta_def)
  next
    case (Some f)
    let ?data = "case data of None \<Rightarrow> [] | Some d \<Rightarrow> d"
    obtain r st1 where inv: "invoke (CallPredict ?data) (f ?data) ?st = (r, st1)" by fastforce
    with Some ask have "st' = st1" by (auto simp: ask_eta_def Let_def split: sum.splits option.splits)
    with told_invoke [OF inv st committed_synced] show ?thesis by simp
  qed
  let ?up = "complete env (eta_update env a st')"
  have up: "told [Authorizes, Reserves] ?up" "persisted ?up" "current_state (cur ?up) \<in> {CONFIRMED, CONFIRMED_DEGRADED}"
    using st' by (auto simp: eta_update_def told_modify intro!: told_transition split: prod.splits option.splits)
  then have "[Authorizes, Reserves] \<in> set (calls_told (current_state (cur ?up)))" by auto
  then have "told [Authorizes, Reserves] (notify_order svc kw (committed ?up))" for kw
    using told_committed [OF up(1)] by (intro told_notify) simp_all
  then have "crash_safe (trace (notify_order svc kw (committed ?up)))" for kw by (rule told_safe)
  with ask assms(2) up(2) show ?thesis
    by (simp add: eta_phase_def then_commit_later Let_def return_result_def)
qed

lemma inventory_phase_told:
  assumes "told [Authorizes] st" and "persisted st"
  shows "crash_safe (trace (snd (inventory_phase svc env items data st)))"
proof -
  let ?st = "committed (transition env INVENTORY_PENDING ''inventory_reserve_start'' FORWARD JNull st)"
  have st: "told [Authorizes] ?st" by (rule told_committed [OF told_transition [OF assms(1)]]) simp
  let ?key = "generate_idempotency_key (se_sha256 env) [saga_id (cur ?st), ''inventory'', ''reserve'']"
  obtain r st' where inv: "invoke (CallReserve (sg_order_id (cur ?st)) items ?key)
      (inv_reserve svc (sg_order_id (cur ?st)) items ?key) ?st = (r, st')" by fastforce
  have st': "told [Authorizes, Reserves] st'" "persisted st'" using told_invoke [OF inv st committed_synced] by simp_all
  show ?thesis
  proof (cases r)
    case (Inl e)
    with inv assms st' show ?thesis
      by (auto simp: inventory_phase_def then_commit_later Let_def intro!: compensate_told told_committed told_transition)
  next
    case (Inr d)
    with inv assms st' told_safe [OF st'(1)] show ?thesis
      by (auto simp: inventory_phase_def then_commit_later Let_def dict_index_def told_modify
          intro!: compensate_told eta_phase_told told_committed told_transition split: option.splits)
  qed
qed

lemma fail_payment_told:
  assumes "told [Authorizes] st" and "persisted st"
  shows "crash_safe (trace (snd (fail_payment env n1 d n2 reason st)))"
  using assms
  by (auto simp: fail_payment_def then_commit_later return_result_def told_modify
      intro!: told_safe [OF told_committed] told_transition)

lemma payment_phase_told:
  assumes "told [] st" and "synced st" and "current_state (cur st) = PAYMENT_PENDING"
  shows "crash_safe (trace (snd (payment_phase svc env items amt data st)))"
proof -
  let ?key = "generate_idempotency_key (se_sha256 env) [saga_id (cur st), ''payment'', ''authorize'']"
  obtain r st' where inv: "invoke (CallAuthorize (sg_order_id (cur st)) amt ?key)
      (pay_authorize svc (sg_order_id (cur st)) amt ?key) st = (r, st')" by fastforce
  have st': "told [Authorizes] st'" "persisted st'" using told_invoke [OF inv assms(1,2)] assms(3) by simp_all
  show ?thesis
  proof (cases r)
    case (Inl e)
    with inv st' show ?thesis by (auto simp: payment_phase_def Let_def intro!: fail_payment_told)
  next
    case (Inr d)
    with inv st' told_safe [OF st'(1)] show ?thesis
      by (auto simp: payment_phase_def Let_def then_commit_later dict_index_def told_modify
          intro!: fail_payment_told inventory_phase_told told_committed told_transition split: option.splits)
  qed
qed

lemma started_told: "told [] (started env oid db w)"
  by (simp add: told_def started_def new_saga_def transition_def log_step_def Let_def crash_safe_def crash_fits_def prefix_Cons)

lemma start_saga_crash_safe: "crash_safe (trace (snd (start_saga svc env oid items amt data db w)))"
  using started_told [of env oid db w] told_safe [OF started_told, of env oid db w]
  by (auto simp: start_saga_begin intro!: payment_phase_told told_committed)

section \<open>Properties\<close>

text \<open>
  C4: A crash leaves at most one call in doubt. Wherever the orchestrator goes down, in a run with whatever services, no
  call was made while a transition was uncommitted, and the row in the database tells the authorisations, reservations and
  refunds that were made, in their order, up to the one call of the state it shows, of which there is exactly one in
  PAYMENT_PENDING, INVENTORY_PENDING and REFUNDING; before there is a row no call was made; and no row ever shows
  PAYMENT_FAILED or REFUNDED.\<close>

theorem crash_leaves_one_call_in_doubt:
  assumes "prefix p (trace (snd (start_saga svc env oid items amt data db w)))"
  shows "write_ahead False p \<and>
    (case durable_state p of
       None \<Rightarrow> effect_kinds (calls p) = []
     | Some s \<Rightarrow> effect_kinds (calls p) \<in> set (calls_told s) \<and> s \<notin> {PAYMENT_FAILED, REFUNDED})"
proof -
  obtain q where q: "trace (snd (start_saga svc env oid items amt data db w)) = p @ q" using assms by (auto simp: prefix_def)
  have "write_ahead False p" using saga_write_ahead [of svc env oid items amt data db w] unfolding q by simp
  moreover have "crash_fits (durable_state p) (effect_kinds (calls p))"
    using start_saga_crash_safe [of svc env oid items amt data db w] assms
    by (simp add: crash_safe_def reading_row reading_calls)
  ultimately show ?thesis by (auto simp: crash_fits_def split: option.splits)
qed

text \<open>A saga whose payment service is down, cut off after the call: the row still says that the payment is pending.\<close>

definition failing_trace :: "saga_event list" where
  "failing_trace = trace (snd (start_saga (stub_services (Inl (RuntimeError ''down'')) stub_refunded stub_reserved (Inr None))
     stub_env ''O1'' [''pizza''] 10 None no_sagas 0))"

lemma failing_trace_eq:
  "\<exists>k. failing_trace = [Transitioned PAYMENT_PENDING, Committed, Called (CallAuthorize ''O1'' 10 k), Transitioned PAYMENT_FAILED,
     Transitioned CANCELLED, Committed]"
  by (simp add: failing_trace_def start_saga_begin stub_admissible payment_phase_def fail_payment_def invoke_def then_commit_later
      return_result_def Let_def stub_services_def started_def new_saga_def transition_def log_step_def committed_def modify_cur_def
      complete_def persisted_def)

theorem crash_leaves_one_call_in_doubt_witness:
  "durable_state (take 3 failing_trace) = Some PAYMENT_PENDING \<and> effect_kinds (calls (take 3 failing_trace)) = [Authorizes] \<and>
   write_ahead False (take 3 failing_trace)"
proof -
  obtain k where t: "failing_trace = [Transitioned PAYMENT_PENDING, Committed, Called (CallAuthorize ''O1'' 10 k),
      Transitioned PAYMENT_FAILED, Transitioned CANCELLED, Committed]" using failing_trace_eq by blast
  have "take 3 failing_trace = [Transitioned PAYMENT_PENDING, Committed, Called (CallAuthorize ''O1'' 10 k)]"
    unfolding t by simp
  then have "durable_state (take 3 failing_trace) = Some PAYMENT_PENDING \<and> effect_kinds (calls (take 3 failing_trace)) = [Authorizes]"
    by simp
  moreover have "prefix (take 3 failing_trace) (trace (snd (start_saga (stub_services (Inl (RuntimeError ''down'')) stub_refunded stub_reserved
      (Inr None)) stub_env ''O1'' [''pizza''] 10 None no_sagas 0)))" unfolding failing_trace_def by (rule take_is_prefix)
  from crash_leaves_one_call_in_doubt [OF this] have "write_ahead False (take 3 failing_trace)" by (rule conjunct1)
  ultimately show ?thesis by blast
qed

end
