(* ===== verification/Spec2Isabelle.thy ===== *)
theory Spec2Isabelle
  imports Rate_Limiter Http_Client Streams Http_Adapters Auth Webhook Eta Tools Ops_Console Inventory_Concurrency Observability Training Streamlit
    Keyed_Endpoints Outbox_Relays Sample_Request Saga_Crash
begin

text \<open>
  A verification development for DeliverIQ, a food delivery platform written in Python: a saga orchestrator over
  payment, inventory, ETA and order services, events through an outbox and Redis streams, authentication, webhooks,
  and a monitor that decides when the delivery time model is retrained.

  \<^bold>\<open>The program and its model.\<close> A service is a record of its tables and in-memory stores; an endpoint is a function
  from the state and the request to an outcome (an exception or the answer) and the next state. A database session
  commits or rolls back as a whole (\<^verbatim>\<open>get_session\<close>); uniqueness constraints are checked at commit. Clocks, uuids and
  random draws are arguments; floats are rationals (reals where a transcendental function is used), rounded where
  the code rounds.

  \<^item> \<open>Prelude\<close>: Python values, exceptions, JSON, rounding, sessions, the HTTP boundary with lost requests and lost responses,
    runs of a service, and the contract \<^verbatim>\<open>guarded_service\<close>: a step that keeps an invariant, and what follows for runs.
  \<^item> \<open>Idempotency\<close> (\<^verbatim>\<open>core/idempotency.py\<close>): the store, key derivation, and the contract \<^verbatim>\<open>idempotent_service\<close>, from which
    the replay of answered requests follows once for the payment, inventory and order services.
  \<^item> \<open>Deployment\<close>, \<open>Keyed_Endpoints\<close>: the same keyed handlers deployed. Requests interleave between the lookup of the key, the
    committed transaction and the storing of the answer, with other endpoints in between, and a restart keeps the tables and
    forgets the store. The contract \<^verbatim>\<open>keyed_endpoint\<close> gives the invariant and the refinement of one request at a time;
    the payment and order services are its interpretations.
  \<^item> \<open>Payment\<close>, \<open>Inventory\<close>, \<open>Orders\<close> (\<^verbatim>\<open>services/payment\<close>, \<^verbatim>\<open>services/inventory\<close>, \<^verbatim>\<open>services/order\<close>): all endpoints. One row
    per key; the ledger; all-or-nothing reservations, conservation of units, the flash sale; an order and its outbox
    event in one transaction; pagination.
  \<^item> \<open>Saga\<close> (\<^verbatim>\<open>services/orchestrator/saga_state_machine.py\<close>): \<^verbatim>\<open>start_saga\<close> with every transition, commit and log row. Each log is a
    path of the edge relation \<^verbatim>\<open>saga_edge\<close>, nothing is called before the state that announces it is committed, and
    the answer is what the database holds.
  \<^item> \<open>Saga_Protocol\<close>: the order of calls as the inductive relation \<^verbatim>\<open>saga_plan\<close>; \<^verbatim>\<open>start_saga\<close> refines it, and compensation,
    degraded confirmation and payment failure follow by rule inversion. The contracts \<^verbatim>\<open>saga_world_invariant\<close> and
    \<^verbatim>\<open>saga_backend\<close> state what the orchestrator needs of the services.
  \<^item> \<open>Saga_Crash\<close>: what the saga's row tells about the calls made when the orchestrator goes down at any point of a run.
  \<^item> \<open>Http_Adapters\<close> (\<^verbatim>\<open>http_adapters.py\<close>, \<^verbatim>\<open>services/orchestrator/app.py\<close>): the adapters in front of the four service models; they are shown
    to be a \<^verbatim>\<open>saga_backend\<close>. The settlement theorem below composes all of them.
  \<^item> \<open>Http_Client\<close>, \<open>Rate_Limiter\<close> (\<^verbatim>\<open>core/http.py\<close>, \<^verbatim>\<open>core/rate_limiter.py\<close>): retries and the circuit breaker; the pruned request
    lists decide like the full history, and no window of any position holds more than the limit.
  \<^item> \<open>Outbox\<close>, \<open>Streams\<close> (\<^verbatim>\<open>core/outbox.py\<close>, \<^verbatim>\<open>contracts/events.py\<close>, \<^verbatim>\<open>core/streams.py\<close>, \<^verbatim>\<open>services/notifier\<close>): at-least-once publication
    and draining of the outbox, the broker's groups, the consumer with its dead letter stream and the batches it gives up, one
    notification per event. \<open>Outbox_Relays\<close>: several relays on one table, polling, publishing and committing in any order.
  \<^item> \<open>Security\<close>, \<open>Auth\<close>, \<open>Webhook\<close> (\<^verbatim>\<open>core/security.py\<close>, \<^verbatim>\<open>core/auth_middleware.py\<close>, \<^verbatim>\<open>services/auth\<close>, \<^verbatim>\<open>services/webhook\<close>): tokens, accounts,
    tenants and signed deliveries.
  \<^item> \<open>Monitoring\<close> (\<^verbatim>\<open>services/monitoring\<close>): prediction log, rolling metrics, stability index and retrain gate; that index is a
    divergence, and the gate's decision is the stated conjunction.
  \<^item> \<open>Features\<close>, \<open>Eta\<close> (\<^verbatim>\<open>contracts/features.py\<close>, \<^verbatim>\<open>scripts/data_clean_utils.py\<close>, \<^verbatim>\<open>app.py\<close>, \<^verbatim>\<open>core/errors.py\<close>, \<^verbatim>\<open>core/app_factory.py\<close>): the request contract,
    the cleaning shared by training and serving, and the prediction endpoint with its error handlers.
  \<^item> \<open>Settings\<close>, \<open>Sample_Request\<close> (\<^verbatim>\<open>core/config.py\<close>, \<^verbatim>\<open>scripts/sample_predictions.py\<close>): the fields that the environment overrides, the
    prediction endpoint under a given configuration, and the script that posts a row of the raw data to it.
  \<^item> \<open>Tools\<close> (\<^verbatim>\<open>tools/drift_injector.py\<close>, \<^verbatim>\<open>tools/simulator.py\<close>): the injector and the simulator, with the gate run under both the
    service's requests and injected data.
  \<^item> \<open>Ops_Console\<close> (\<^verbatim>\<open>ops_console/app.py\<close>): the saga explorer and counters over the orchestrator's tables, the outbox table, and the
    console as a client of the payment, order and inventory models: chaos controls, idempotency demo, flash sale race.

  \<^bold>\<open>Parameters.\<close> Code outside the repository is an argument with its documented behaviour as a named hypothesis: JWT
  encoding, bcrypt and HMAC (\<^verbatim>\<open>jwt_ok\<close> and its companions in \<open>Security\<close>), Redis (\<^verbatim>\<open>xadd\<close>), numpy's histogram
  (\<^verbatim>\<open>one_count_per_bin\<close>), pandas' date parsing (\<^verbatim>\<open>pandas_ok\<close>), scikit-learn and MLflow (\<^verbatim>\<open>split_lib_ok\<close>), the CORS middleware, and the
  database's reading of time stamps (\<^verbatim>\<open>drops_time_zone\<close>: a plain DateTime column does not store the time zone). Each has a
  concrete instance in a witness.

  \<^bold>\<open>Loops.\<close> Retry, relay and dispatch loops recurse on the list of attempts, rows or subscriptions and need no
  fuel. The consumer's endless loop is a function of the batches it is given, the relay's of a number of rounds. Concurrent
  threads run under any schedule, bounded by a measure; the reruns of the Streamlit page are \<^verbatim>\<open>while_option\<close>, none when they never end.

  \<^bold>\<open>What the model showed.\<close> Several theorems state behaviour that a comment or the documentation contradicts: the order
  service never learns the outcome of a saga, a lost payment answer leaves a cancelled order charged, a payment can be
  refunded and a reservation released twice, a repeated item oversells, concurrent reservations oversell without row locks and
  can deadlock with them, a charge or order retried after a restart is refused and not answered again, an interrupted saga is
  never resumed, two relays publish an event twice, the consumer never asks again for the messages of a batch it gave up, the monitor never labels a prediction and retrains at most once, the chronological split never
  applies, the simulator reports cancelled orders as confirmed, and the console's flash sale sells nothing.

  \<^bold>\<open>Not modelled.\<close> The layout and map of the Streamlit page, the console's templates and HTML, the command lines of the tools;
  notebooks, tests and deployment files. Two sessions of one database interleave in \<open>Inventory_Concurrency\<close>, with the queries
  of a handler as steps, and in \<open>Deployment\<close> and \<open>Outbox_Relays\<close>, with transactions as steps; elsewhere each handler's
  transaction is one step. For reservations with row locks the first theory justifies that; for payments and orders the key's
  uniqueness constraint decides at commit; elsewhere it is an abstraction. In \<open>Inventory_Concurrency\<close> a release takes all
  its row locks in one action, so deadlocks between two releases do not appear.
\<close>

section \<open>Properties\<close>

text \<open>
  C1: Every order settles. When no HTTP message is lost, the services are consistent, coming uuids are
  new and the saga's three idempotency keys are distinct and unused, a saga over the HTTP adapters
  always returns, and either it is confirmed, the order's net charge has grown by exactly the total
  and every item's stock has shrunk by exactly the units ordered, or it is cancelled and the charge
  of every order and the stock of every item are what they were before.
\<close>

theorem saga_settles_order:
  assumes "admissible env oid db" and "pf_reliable w"
    and "keys = [step_key env (''SAGA-'' @ se_uuid env) ''payment'' ''authorize'',
           step_key env (''SAGA-'' @ se_uuid env) ''inventory'' ''reserve'',
           step_key env (''SAGA-'' @ se_uuid env) ''payment'' ''refund'']"
    and "distinct keys" and "\<forall>k \<in> set keys. pf_fresh w k"
  shows "\<exists>res st. start_saga (http_services body_text c eta with_order) env oid items amt data db w = (Inr res, st) \<and>
    (sr_state res \<in> {CONFIRMED, CONFIRMED_DEGRADED} \<and>
       pf_charged (world st) = (pf_charged w)(oid := pf_charged w oid + amt) \<and>
       pf_stocked (world st) = (\<lambda>i. pf_stocked w i - int (count_list items i)) \<or>
     sr_state res = CANCELLED \<and> pf_charged (world st) = pf_charged w \<and> pf_stocked (world st) = pf_stocked w)"
proof -
  obtain res st where run: "start_saga (http_services body_text c eta with_order) env oid items amt data db w = (Inr res, st)"
    using http_saga_returns [OF assms(1)] by blast
  from http.plan_settles [OF start_saga_plan [OF run] assms(2) _ _ _ _ refl refl refl] assms(3-5)
  have "(sr_state res \<in> {CONFIRMED, CONFIRMED_DEGRADED} \<and>
       pf_charged (world st) = (pf_charged w)(oid := pf_charged w oid + amt) \<and>
       pf_stocked (world st) = (\<lambda>i. pf_stocked w i - int (count_list items i))) \<or>
     (sr_state res = CANCELLED \<and> pf_charged (world st) = pf_charged w \<and> pf_stocked (world st) = pf_stocked w)"
    by simp
  with run show ?thesis by blast
qed

theorem saga_settles_order_witness:
  "\<exists>res st. start_saga (http_services (\<lambda>d. []) plain_conversions None True) stub_env ''O1'' [''pizza''] 10 None no_sagas
      (small_platform [] 1) = (Inr res, st) \<and>
    (sr_state res \<in> {CONFIRMED, CONFIRMED_DEGRADED} \<and> pf_charged (world st) ''O1'' = 10 \<and> pf_stocked (world st) ''pizza'' = 0 \<or>
     sr_state res = CANCELLED \<and> pf_charged (world st) ''O1'' = 0 \<and> pf_stocked (world st) ''pizza'' = 1)"
proof -
  have sid: "''SAGA-'' @ se_uuid stub_env = ''SAGA-0A''" by (simp add: stub_env_def)
  have start: "pf_charged (small_platform [] 1) ''O1'' = 0" "pf_stocked (small_platform [] 1) ''pizza'' = 1"
    by (simp_all add: small_platform_def stock_of_def find_item_def)
  show ?thesis
    using saga_settles_order [OF stub_admissible small_platform_reliable [of 1] refl stub_keys [folded sid],
        of "\<lambda>d. []" plain_conversions None True "''O1''" "[''pizza'']" 10 None]
    by (auto simp: small_platform_fresh start)
qed

text \<open>
  C25: A lost confirmation leaves the customer charged. If the payment service authorises the payment
  but its response is lost on the way back, the saga is cancelled with the authorisation as its only
  call: the order has been charged the total, nothing was reserved, and no refund is attempted.
\<close>

theorem lost_response_leaves_charge:
  assumes "admissible env oid db" and "next_transport w = LostResponse" and "payment_inv (pf_payment w)"
    and "pf_fresh w (step_key env (''SAGA-'' @ se_uuid env) ''payment'' ''authorize'')" and "0 < amt"
    and "''PAY-'' @ env_uuid (pf_env w (pf_calls w)) \<notin> payment_id ` set (payments (pf_payment w))"
    and "amt \<le> always_fail_over (pf_payment w)" and "fail_rate (pf_payment w) \<le> env_random (pf_env w (pf_calls w))"
  shows "\<exists>res st. start_saga (http_services body_text c eta with_order) env oid items amt data db w = (Inr res, st) \<and>
    sr_state res = CANCELLED \<and> pf_charged (world st) oid = pf_charged w oid + amt \<and>
    calls (trace st) = [CallAuthorize oid amt (step_key env (''SAGA-'' @ se_uuid env) ''payment'' ''authorize'')]"
proof -
  from http_authorize_lost_response [OF assms(2-8)] obtain e w1 where
    "http_authorize body_text oid amt (step_key env (''SAGA-'' @ se_uuid env) ''payment'' ''authorize'') w = (Inl e, w1)"
    and charged: "pf_charged w1 oid = pf_charged w oid + amt"
    by blast
  then have "pay_authorize (http_services body_text c eta with_order) oid amt
      (step_key env (''SAGA-'' @ se_uuid env) ''payment'' ''authorize'') w = (Inl e, w1)"
    by (simp add: http_services_def)
  from start_saga_unpaid [OF assms(1) this] charged show ?thesis by fastforce
qed

theorem lost_response_leaves_charge_witness:
  "\<exists>res st. start_saga (http_services (\<lambda>d. []) plain_conversions None True) stub_env ''O1'' [''pizza''] 10 None no_sagas
      (small_platform [LostResponse] 1) = (Inr res, st) \<and> sr_state res = CANCELLED \<and> pf_charged (world st) ''O1'' = 10"
proof -
  let ?w = "small_platform [LostResponse] 1"
  have w: "next_transport ?w = LostResponse" "payment_inv (pf_payment ?w)" "payments (pf_payment ?w) = []"
    "always_fail_over (pf_payment ?w) = 10000" "fail_rate (pf_payment ?w) = 0" "env_random (pf_env ?w (pf_calls ?w)) = 1"
    by (simp_all add: small_platform_def next_transport_def payment_inv_def payments_ok_def idem_init_def idem_get_def)
  show ?thesis
    using lost_response_leaves_charge [where oid = "''O1''" and amt = 10 and items = "[''pizza'']" and data = None and body_text = "\<lambda>d. []"
        and c = plain_conversions and eta = None and with_order = True, OF stub_admissible w(1,2) small_platform_fresh]
    by (auto simp: w)
qed

text \<open>
  C24: A saga never updates the order service. Whatever the services answer and whichever messages are
  lost, a saga over the HTTP adapters leaves the state of the order service untouched: the
  orchestrator's keyword arguments do not match the adapter's parameters, and the error is swallowed.
\<close>

theorem saga_never_updates_order:
  "pf_orders (world (snd (start_saga (http_services body_text c eta with_order) env oid items amt data db w))) = pf_orders w"
  by (rule orders_untouched.start_saga_P [OF refl])

end
